theory Spec2Isabelle
  imports Complex_Main "HOL-Library.AList"
begin

section \<open>Errors and logging\<close>

text \<open>
  The server is TypeScript. Every \<^verbatim>\<open>throw\<close> of the source is a value of type
  \<open>error\<close>; a function that may throw returns \<open>error + 'a\<close> with \<open>Inl\<close> the error.
  \<open>McpError\<close> carries the protocol's error code, \<open>Error\<close> is the plain JavaScript
  \<^verbatim>\<open>Error\<close>, \<open>TypeError\<close> is what the runtime raises (reading a property of
  \<^verbatim>\<open>null\<close>, calling \<^verbatim>\<open>.map\<close> on a non-array, an invalid URL), \<open>SyntaxError\<close> is a
  response body that is not JSON, and \<open>TransportError\<close> is a rejected \<^verbatim>\<open>fetch\<close> or
  \<^verbatim>\<open>axios.post\<close> (network failure, timeout, axios' non-2xx rejection).
\<close>

datatype error_code = InvalidParams | InternalError | MethodNotFound

datatype error =
    McpError error_code string
  | Error string
  | TypeError string
  | SyntaxError string
  | TransportError string

datatype log_level = LDebug | LInfo | LWarn | LError

type_synonym log_entry = "log_level \<times> string"

section \<open>The vector-store client: construction (services/qdrant.ts)\<close>

text \<open>
  \<^verbatim>\<open>new URL(url)\<close> is the platform's parser; what \<open>createQdrantService\<close> reads of
  its result are the four fields below. The parser is a parameter of the model
  (\<open>None\<close>: the constructor throws its \<^verbatim>\<open>TypeError\<close>).
\<close>

record url_obj =
  protocol :: string
  hostname :: string
  port :: string
  pathname :: string

record client_config =
  cc_host :: string
  cc_apiKey :: "string option"
  cc_checkCompatibility :: bool
  cc_https :: bool
  cc_port :: "nat option"
  cc_prefix :: "string option"

record qdrant_service =
  svc_client :: client_config
  svc_url :: string
  svc_apiKey :: "string option"

text \<open>JavaScript truthiness of an optional string: \<^verbatim>\<open>undefined\<close> and \<^verbatim>\<open>''\<close> are falsy.\<close>

definition truthy_str :: "string option \<Rightarrow> bool" where
  "truthy_str s = (case s of None \<Rightarrow> False | Some k \<Rightarrow> k \<noteq> [])"

text \<open>\<^verbatim>\<open>parseInt(s, 10)\<close> on the digits of \<^verbatim>\<open>urlObj.port\<close>.\<close>

definition digit_val :: "char \<Rightarrow> nat" where
  "digit_val c = of_char c - 48"

definition parseInt10 :: "string \<Rightarrow> nat" where
  "parseInt10 s = foldl (\<lambda>n c. 10 * n + digit_val c) 0 (takeWhile (\<lambda>c. c \<in> set ''0123456789'') s)"

definition insecure_key_error :: string where
  "insecure_key_error = ''Insecure Qdrant API key usage detected for non-local connection. Server will not start.''"

definition critical_alert :: string where
  "critical_alert = ''CRITICAL SECURITY ALERT: QDRANT_API_KEY is provided but QDRANT_URL is not HTTPS for a non-local connection. This exposes your API key to eavesdropping. Please use an HTTPS URL (e.g., \"https://your-qdrant-host\") or remove the API key if using an unsecure connection.''"

definition local_http_warning :: string where
  "local_http_warning = ''WARNING: QDRANT_API_KEY is provided for a local HTTP Qdrant connection. Qdrant typically does not require an API key for local connections. Consider removing the API key or using HTTPS for consistency.''"

definition isLocalhost :: "url_obj \<Rightarrow> bool" where
  "isLocalhost urlObj =
     (hostname urlObj = ''localhost'' \<or> hostname urlObj = ''127.0.0.1''
      \<or> hostname urlObj = ''host.container.internal'')"

definition clientConfig :: "url_obj \<Rightarrow> string option \<Rightarrow> client_config" where
  "clientConfig urlObj apiKey =
     \<lparr> cc_host = hostname urlObj,
       cc_apiKey = apiKey,
       cc_checkCompatibility = False,
       cc_https = (protocol urlObj = ''https:''),
       cc_port = (if port urlObj \<noteq> [] then Some (parseInt10 (port urlObj)) else None),
       cc_prefix = (if pathname urlObj \<noteq> ''/'' \<and> pathname urlObj \<noteq> [] then Some (pathname urlObj) else None) \<rparr>"

text \<open>
  \<open>createQdrantService\<close> returns what it logged and either the error it threw or the
  service it built. The \<^verbatim>\<open>QdrantClient\<close> constructor belongs to the client library; the
  model keeps the configuration object handed to it.
\<close>

definition createQdrantService ::
  "(string \<Rightarrow> url_obj option) \<Rightarrow> string \<Rightarrow> string option \<Rightarrow> log_entry list \<times> (error + qdrant_service)" where
  "createQdrantService parseURL url apiKey =
     (case parseURL url of
        None \<Rightarrow> ([], Inl (TypeError ''Invalid URL''))
      | Some urlObj \<Rightarrow>
          let log1 = [(LDebug, ''createQdrantService - URL: '' @ url @ '', Hostname: '' @ hostname urlObj
                          @ '', Protocol: '' @ protocol urlObj),
                      (LDebug, ''createQdrantService - isLocalhost: ''
                          @ (if isLocalhost urlObj then ''true'' else ''false''))]
          in if truthy_str apiKey \<and> protocol urlObj \<noteq> ''https:'' \<and> \<not> isLocalhost urlObj
             then (log1 @ [(LError, critical_alert)], Inl (Error insecure_key_error))
             else (log1
                   @ (if truthy_str apiKey \<and> protocol urlObj \<noteq> ''https:'' then [(LWarn, local_http_warning)] else [])
                   @ [(LInfo, ''Creating Qdrant client with config:'')],
                   Inr \<lparr> svc_client = clientConfig urlObj apiKey, svc_url = url, svc_apiKey = apiKey \<rparr>))"

section \<open>JavaScript values\<close>

text \<open>
  What \<^verbatim>\<open>response.json()\<close>, \<^verbatim>\<open>response.data\<close> and the tool arguments hold at run time:
  the TypeScript annotations are not checked there, so the model keeps the values
  untyped. An object is its list of properties in insertion order, with distinct keys.
\<close>

datatype jsval =
    JUndefined
  | JNull
  | JBool bool
  | JNum real
  | JStr string
  | JArr "jsval list"
  | JObj "(string \<times> jsval) list"

text \<open>
  \<^verbatim>\<open>v.k\<close> for the property names the source reads (none of them is inherited from a
  prototype): a \<^verbatim>\<open>TypeError\<close> on \<^verbatim>\<open>undefined\<close> and \<^verbatim>\<open>null\<close>, the property or
  \<^verbatim>\<open>undefined\<close> on an object, \<^verbatim>\<open>undefined\<close> on anything else.
\<close>

definition lookup_prop :: "(string \<times> jsval) list \<Rightarrow> string \<Rightarrow> jsval" where
  "lookup_prop kvs k = (case map_of kvs k of None \<Rightarrow> JUndefined | Some v \<Rightarrow> v)"

text \<open>The runtime's error for reading the property \<open>k\<close> of \<^verbatim>\<open>undefined\<close> or \<^verbatim>\<open>null\<close>.\<close>

definition cannot_read :: "string \<Rightarrow> string \<Rightarrow> error" where
  "cannot_read what k =
     TypeError (''Cannot read properties of '' @ what @ '' (reading '' @ [CHR 0x27] @ k @ [CHR 0x27] @ '')'')"

fun js_get :: "jsval \<Rightarrow> string \<Rightarrow> error + jsval" where
  "js_get JUndefined k = Inl (cannot_read ''undefined'' k)"
| "js_get JNull k = Inl (cannot_read ''null'' k)"
| "js_get (JObj kvs) k = Inr (lookup_prop kvs k)"
| "js_get v k = Inr JUndefined"

text \<open>\<^verbatim>\<open>v?.k\<close>: \<^verbatim>\<open>undefined\<close> instead of the \<^verbatim>\<open>TypeError\<close>.\<close>

definition js_get_opt :: "jsval \<Rightarrow> string \<Rightarrow> jsval" where
  "js_get_opt v k = (case js_get v k of Inl e \<Rightarrow> JUndefined | Inr x \<Rightarrow> x)"

fun truthy :: "jsval \<Rightarrow> bool" where
  "truthy JUndefined = False"
| "truthy JNull = False"
| "truthy (JBool b) = b"
| "truthy (JNum n) = (n \<noteq> 0)"
| "truthy (JStr s) = (s \<noteq> [])"
| "truthy (JArr xs) = True"
| "truthy (JObj kvs) = True"

text \<open>\<^verbatim>\<open>a || b\<close>.\<close>

definition js_or :: "jsval \<Rightarrow> jsval \<Rightarrow> jsval" where
  "js_or a b = (if truthy a then a else b)"

fun isArray :: "jsval \<Rightarrow> bool" where
  "isArray (JArr xs) = True"
| "isArray v = False"

fun isObject :: "jsval \<Rightarrow> bool" where
  "isObject (JObj kvs) = True"
| "isObject v = False"

fun isNumber :: "jsval \<Rightarrow> bool" where
  "isNumber (JNum n) = True"
| "isNumber v = False"

text \<open>Sequencing of computations that may throw.\<close>

definition bindE :: "error + 'a \<Rightarrow> ('a \<Rightarrow> error + 'b) \<Rightarrow> error + 'b" where
  "bindE m f = (case m of Inl e \<Rightarrow> Inl e | Inr x \<Rightarrow> f x)"

fun mapE :: "('a \<Rightarrow> error + 'b) \<Rightarrow> 'a list \<Rightarrow> error + 'b list" where
  "mapE f [] = Inr []"
| "mapE f (x # xs) = bindE (f x) (\<lambda>y. bindE (mapE f xs) (\<lambda>ys. Inr (y # ys)))"

definition digit_char :: "nat \<Rightarrow> char" where
  "digit_char n = ''0123456789'' ! n"

function string_of_nat :: "nat \<Rightarrow> string" where
  "string_of_nat n = (if n < 10 then [digit_char n] else string_of_nat (n div 10) @ [digit_char (n mod 10)])"
  by pat_completeness auto
termination
  by (relation "measure id") auto

declare string_of_nat.simps [simp del]

section \<open>The vector-store client: requests (services/qdrant.ts)\<close>

text \<open>
  \<^verbatim>\<open>fetch\<close> is the environment: a function from the request and the state of the
  backing store to the outcome and the store's next state. A request keeps the body as
  the value handed to \<^verbatim>\<open>JSON.stringify\<close>. A response's \<open>resp_json\<close> is what
  \<^verbatim>\<open>response.json()\<close> settles to. Every call of \<^verbatim>\<open>fetch\<close> is recorded, in order, in
  the world's \<open>requests\<close>. The methods' \<^verbatim>\<open>catch\<close> blocks log and rethrow; the model
  keeps the rethrown error.
\<close>

datatype http_method = GET | PUT | POST | DELETE

record request =
  req_method :: http_method
  req_url :: string
  req_headers :: "(string \<times> string) list"
  req_timeout :: nat
  req_body :: "jsval option"

record response =
  resp_ok :: bool
  resp_status :: nat
  resp_json :: "error + jsval"

record ('b, 'tp) world =
  backend :: 'b
  requests :: "request list"
  reads :: "string list"
  uuid_count :: nat
  textProcessor :: 'tp
  logged :: "(string \<times> error) list"

type_synonym 'b fetch_fn = "request \<Rightarrow> 'b \<Rightarrow> (error + response) \<times> 'b"

definition headers :: "qdrant_service \<Rightarrow> (string \<times> string) list" where
  "headers svc =
     (''Content-Type'', ''application/json'')
       # (case svc_apiKey svc of
            None \<Rightarrow> []
          | Some k \<Rightarrow> if k \<noteq> [] then [(''api-key'', k)] else [])"

text \<open>
  The shape the five methods share: call \<^verbatim>\<open>fetch\<close>, throw
  \<^verbatim>\<open>Error('HTTP error! Status: ...')\<close> unless \<^verbatim>\<open>response.ok\<close>, then await
  \<^verbatim>\<open>response.json()\<close>.
\<close>

definition fetch_json ::
  "'b fetch_fn \<Rightarrow> request \<Rightarrow> ('b, 'tp) world \<Rightarrow> (error + jsval) \<times> ('b, 'tp) world" where
  "fetch_json fetch req w =
     (let (r, b') = fetch req (backend w);
          w' = w\<lparr> backend := b', requests := requests w @ [req] \<rparr>
      in (case r of
            Inl e \<Rightarrow> (Inl e, w')
          | Inr resp \<Rightarrow>
              if \<not> resp_ok resp
              then (Inl (Error (''HTTP error! Status: '' @ string_of_nat (resp_status resp))), w')
              else (resp_json resp, w')))"

definition list_request :: "qdrant_service \<Rightarrow> request" where
  "list_request svc =
     \<lparr> req_method = GET, req_url = svc_url svc @ ''/collections'', req_headers = headers svc,
       req_timeout = 5000, req_body = None \<rparr>"

text \<open>\<^verbatim>\<open>data.result.collections.map(c => c.name)\<close>.\<close>

definition collection_names :: "jsval \<Rightarrow> error + jsval list" where
  "collection_names data =
     bindE (js_get data ''result'') (\<lambda>result.
     bindE (js_get result ''collections'') (\<lambda>collections.
       case collections of
         JArr cs \<Rightarrow> mapE (\<lambda>c. js_get c ''name'') cs
       | JUndefined \<Rightarrow> Inl (cannot_read ''undefined'' ''map'')
       | JNull \<Rightarrow> Inl (cannot_read ''null'' ''map'')
       | _ \<Rightarrow> Inl (TypeError ''data.result.collections.map is not a function'')))"

definition listCollections ::
  "'b fetch_fn \<Rightarrow> qdrant_service \<Rightarrow> ('b, 'tp) world \<Rightarrow> (error + jsval list) \<times> ('b, 'tp) world" where
  "listCollections fetch svc w =
     (let (r, w') = fetch_json fetch (list_request svc) w
      in (bindE r collection_names, w'))"

definition create_request :: "qdrant_service \<Rightarrow> string \<Rightarrow> real \<Rightarrow> request" where
  "create_request svc name vectorSize =
     \<lparr> req_method = PUT, req_url = svc_url svc @ ''/collections/'' @ name, req_headers = headers svc,
       req_timeout = 5000,
       req_body = Some (JObj [(''vectors'', JObj [(''size'', JNum vectorSize), (''distance'', JStr ''Cosine'')])]) \<rparr>"

definition createCollection ::
  "'b fetch_fn \<Rightarrow> qdrant_service \<Rightarrow> string \<Rightarrow> real \<Rightarrow> ('b, 'tp) world \<Rightarrow> (error + unit) \<times> ('b, 'tp) world" where
  "createCollection fetch svc name vectorSize w =
     (let (r, w') = fetch_json fetch (create_request svc name vectorSize) w
      in (bindE r (\<lambda>data. Inr ()), w'))"

record point =
  point_id :: string
  point_vector :: jsval
  point_payload :: jsval

definition point_json :: "point \<Rightarrow> jsval" where
  "point_json doc =
     JObj [(''id'', JStr (point_id doc)), (''vector'', point_vector doc), (''payload'', point_payload doc)]"

definition upsert_request :: "qdrant_service \<Rightarrow> string \<Rightarrow> point list \<Rightarrow> request" where
  "upsert_request svc collection documents =
     \<lparr> req_method = PUT, req_url = svc_url svc @ ''/collections/'' @ collection @ ''/points'',
       req_headers = headers svc, req_timeout = 10000,
       req_body = Some (JObj [(''points'', JArr (map point_json documents))]) \<rparr>"

definition addDocuments ::
  "'b fetch_fn \<Rightarrow> qdrant_service \<Rightarrow> string \<Rightarrow> point list \<Rightarrow> ('b, 'tp) world \<Rightarrow> (error + unit) \<times> ('b, 'tp) world" where
  "addDocuments fetch svc collection documents w =
     (let (r, w') = fetch_json fetch (upsert_request svc collection documents) w
      in (bindE r (\<lambda>data. Inr ()), w'))"

definition delete_request :: "qdrant_service \<Rightarrow> string \<Rightarrow> request" where
  "delete_request svc name =
     \<lparr> req_method = DELETE, req_url = svc_url svc @ ''/collections/'' @ name, req_headers = headers svc,
       req_timeout = 5000, req_body = None \<rparr>"

definition deleteCollection ::
  "'b fetch_fn \<Rightarrow> qdrant_service \<Rightarrow> string \<Rightarrow> ('b, 'tp) world \<Rightarrow> (error + unit) \<times> ('b, 'tp) world" where
  "deleteCollection fetch svc name w =
     (let (r, w') = fetch_json fetch (delete_request svc name) w
      in (bindE r (\<lambda>data. Inr ()), w'))"

text \<open>
  A search result as \<open>search\<close> builds it: \<open>sr_vector\<close> is \<open>None\<close> when the property
  is not set on the object.
\<close>

record search_result =
  sr_id :: jsval
  sr_score :: jsval
  sr_payload :: jsval
  sr_vector :: "jsval list option"

definition search_request :: "qdrant_service \<Rightarrow> string \<Rightarrow> jsval \<Rightarrow> real \<Rightarrow> request" where
  "search_request svc collection vector limit =
     \<lparr> req_method = POST, req_url = svc_url svc @ ''/collections/'' @ collection @ ''/points/search'',
       req_headers = headers svc, req_timeout = 5000,
       req_body = Some (JObj [(''vector'', vector), (''limit'', JNum limit),
                              (''with_payload'', JBool True), (''with_vector'', JBool True)]) \<rparr>"

text \<open>The callback of \<^verbatim>\<open>data.result.map\<close> in \<open>search\<close>.\<close>

definition to_search_result :: "jsval \<Rightarrow> error + search_result" where
  "to_search_result result =
     bindE (js_get result ''id'') (\<lambda>rid.
     bindE (js_get result ''score'') (\<lambda>score.
     bindE (js_get result ''payload'') (\<lambda>payload.
     bindE (js_get result ''vector'') (\<lambda>vector.
       Inr \<lparr> sr_id = rid, sr_score = score, sr_payload = payload,
             sr_vector = (case vector of
                            JArr vs \<Rightarrow> if list_all isNumber vs then Some vs else None
                          | _ \<Rightarrow> None) \<rparr>))))"

definition search_results :: "jsval \<Rightarrow> error + search_result list" where
  "search_results data =
     bindE (js_get data ''result'') (\<lambda>result.
       case result of
         JArr rs \<Rightarrow> mapE to_search_result rs
       | JUndefined \<Rightarrow> Inl (cannot_read ''undefined'' ''map'')
       | JNull \<Rightarrow> Inl (cannot_read ''null'' ''map'')
       | _ \<Rightarrow> Inl (TypeError ''data.result.map is not a function''))"

text \<open>
  The default parameter \<^verbatim>\<open>limit: number = 10\<close> applies when the argument is
  \<^verbatim>\<open>undefined\<close> (\<open>None\<close>).
\<close>

definition search ::
  "'b fetch_fn \<Rightarrow> qdrant_service \<Rightarrow> string \<Rightarrow> jsval \<Rightarrow> real option \<Rightarrow> ('b, 'tp) world
     \<Rightarrow> (error + search_result list) \<times> ('b, 'tp) world" where
  "search fetch svc collection vector limit w =
     (let limit' = (case limit of None \<Rightarrow> 10 | Some l \<Rightarrow> l);
          (r, w') = fetch_json fetch (search_request svc collection vector limit') w
      in (bindE r search_results, w'))"

section \<open>Process configuration (config.ts)\<close>

record appConfig =
  qdrantUrl :: string
  qdrantApiKey :: "string option"
  mcpUploadDir :: string
  openaiApiKey :: "string option"
  openaiEndpoint :: "string option"
  openrouterApiKey :: "string option"
  openrouterEndpoint :: "string option"
  ollamaApiKey :: "string option"
  ollamaEndpoint :: "string option"
  fastembedApiKey :: "string option"
  fastembedEndpoint :: "string option"
  embeddingModel :: "string option"
  embeddingProvider :: string

text \<open>\<^verbatim>\<open>process.env.X || d\<close>: the default replaces an unset and an empty variable.\<close>

definition or_default :: "string option \<Rightarrow> string \<Rightarrow> string" where
  "or_default v d = (if truthy_str v then the v else d)"

definition load_appConfig :: "(string \<Rightarrow> string option) \<Rightarrow> appConfig" where
  "load_appConfig env =
     \<lparr> qdrantUrl = or_default (env ''QDRANT_URL'') ''http://localhost:6333'',
       qdrantApiKey = env ''QDRANT_API_KEY'',
       mcpUploadDir = or_default (env ''MCP_UPLOAD_DIR'') ''/tmp/mcp-uploads'',
       openaiApiKey = env ''OPENAI_API_KEY'',
       openaiEndpoint = env ''OPENAI_ENDPOINT'',
       openrouterApiKey = env ''OPENROUTER_API_KEY'',
       openrouterEndpoint = env ''OPENROUTER_ENDPOINT'',
       ollamaApiKey = env ''OLLAMA_API_KEY'',
       ollamaEndpoint = Some (or_default (env ''OLLAMA_ENDPOINT'') ''http://localhost:11434''),
       fastembedApiKey = env ''FASTEMBED_API_KEY'',
       fastembedEndpoint = env ''FASTEMBED_ENDPOINT'',
       embeddingModel = env ''EMBEDDING_MODEL'',
       embeddingProvider = or_default (env ''EMBEDDING_PROVIDER'') ''ollama'' \<rparr>"

text \<open>
  \<^verbatim>\<open>(appConfig as any)[key]\<close> for the keys the handlers build from a provider name:
  \<open>None\<close> is \<^verbatim>\<open>undefined\<close>.
\<close>

definition config_lookup :: "appConfig \<Rightarrow> string \<Rightarrow> string option" where
  "config_lookup cfg key =
     (if key = ''openaiApiKey'' then openaiApiKey cfg
      else if key = ''openaiEndpoint'' then openaiEndpoint cfg
      else if key = ''openrouterApiKey'' then openrouterApiKey cfg
      else if key = ''openrouterEndpoint'' then openrouterEndpoint cfg
      else if key = ''ollamaApiKey'' then ollamaApiKey cfg
      else if key = ''ollamaEndpoint'' then ollamaEndpoint cfg
      else if key = ''fastembedApiKey'' then fastembedApiKey cfg
      else if key = ''fastembedEndpoint'' then fastembedEndpoint cfg
      else None)"

section \<open>Path sanitisation (index.ts)\<close>

text \<open>
  \<^verbatim>\<open>path.resolve\<close> of Node on POSIX: the arguments are taken from the right until an
  absolute one is met (the working directory last), empty ones skipped; the result is
  normalised: empty and \<^verbatim>\<open>.\<close> segments dropped, \<^verbatim>\<open>..\<close> removing the segment before it
  (nothing at the root of an absolute path).
\<close>

fun split_on :: "char \<Rightarrow> string \<Rightarrow> string list" where
  "split_on c [] = [[]]"
| "split_on c (x # xs) =
     (if x = c then [] # split_on c xs
      else (case split_on c xs of
              [] \<Rightarrow> [[x]]
            | s # ss \<Rightarrow> (x # s) # ss))"

definition normalize_step :: "bool \<Rightarrow> string \<Rightarrow> string list \<Rightarrow> string list" where
  "normalize_step allowAboveRoot seg acc =
     (if seg = [] \<or> seg = ''.'' then acc
      else if seg = ''..'' then
        (case acc of
           [] \<Rightarrow> if allowAboveRoot then [''..''] else []
         | a # as \<Rightarrow> if a \<noteq> ''..'' then as else if allowAboveRoot then ''..'' # acc else acc)
      else seg # acc)"

text \<open>The segments that \<^verbatim>\<open>normalizeString\<close> keeps, first segment first.\<close>

definition normalizeString :: "string \<Rightarrow> bool \<Rightarrow> string list" where
  "normalizeString path allowAboveRoot = rev (fold (normalize_step allowAboveRoot) (split_on CHR ''/'' path) [])"

fun join_with :: "string \<Rightarrow> string list \<Rightarrow> string" where
  "join_with sep [] = []"
| "join_with sep [s] = s"
| "join_with sep (s # t # ss) = s @ sep @ join_with sep (t # ss)"

definition isAbsolute :: "string \<Rightarrow> bool" where
  "isAbsolute p = (case p of [] \<Rightarrow> False | c # cs \<Rightarrow> c = CHR ''/'')"

text \<open>The loop of \<^verbatim>\<open>resolve\<close>, over the arguments from the right.\<close>

fun resolve_join :: "string list \<Rightarrow> string \<Rightarrow> string \<times> bool" where
  "resolve_join [] resolvedPath = (resolvedPath, False)"
| "resolve_join (p # ps) resolvedPath =
     (if p = [] then resolve_join ps resolvedPath
      else if isAbsolute p then (p @ ''/'' @ resolvedPath, True)
      else resolve_join ps (p @ ''/'' @ resolvedPath))"

definition path_resolve :: "string \<Rightarrow> string list \<Rightarrow> string" where
  "path_resolve cwd args =
     (let (resolvedPath, resolvedAbsolute) = resolve_join (rev (cwd # args)) [];
          norm = join_with ''/'' (normalizeString resolvedPath (\<not> resolvedAbsolute))
      in if resolvedAbsolute then ''/'' @ norm
         else if norm \<noteq> [] then norm else ''.'')"

text \<open>\<^verbatim>\<open>s.startsWith(p)\<close>.\<close>

definition startsWith :: "string \<Rightarrow> string \<Rightarrow> bool" where
  "startsWith s p = (take (length p) s = p)"

definition forbidden_directory :: error where
  "forbidden_directory = McpError InvalidParams ''File path attempts to access forbidden directory.''"

definition sanitizeFilePath :: "appConfig \<Rightarrow> string \<Rightarrow> string \<Rightarrow> error + string" where
  "sanitizeFilePath cfg cwd unsafePath =
     (let BASE_UPLOAD_DIR = mcpUploadDir cfg;
          resolvedPath = path_resolve cwd [BASE_UPLOAD_DIR, unsafePath]
      in if \<not> startsWith resolvedPath BASE_UPLOAD_DIR then Inl forbidden_directory
         else Inr resolvedPath)"

text \<open>
  The claim's words, for comparison with the check above: an absolute path remains
  within a directory when the directory's segments are the first segments of the path.
\<close>

definition within_directory :: "string \<Rightarrow> string \<Rightarrow> bool" where
  "within_directory dir p =
     (let ds = normalizeString dir False; ps = normalizeString p False
      in take (length ds) ps = ds)"

section \<open>The tool handlers (index.ts)\<close>

text \<open>
  The environment of the handlers. The text processor (services/text-processing.ts) and
  the provider factory (services/embeddings/index.ts) are parameters, as are the file
  system, the working directory, the generator of random identifiers (\<open>uuidv4 env n\<close>
  is the value of the \<open>n\<close>-th call) and the number and JSON formatting of the
  platform.
\<close>

record chunk =
  chunk_text :: string
  chunk_metadata :: "(string \<times> jsval) list"

record embedding_config =
  ec_type :: string
  ec_apiKey :: "string option"
  ec_endpoint :: "string option"
  ec_model :: "string option"

record embedding_service =
  es_vectorSize :: real
  es_generateEmbeddings :: "string list \<Rightarrow> error + jsval list"

record js_builtins =
  toFixed2 :: "real \<Rightarrow> string"
  number_toString :: "real \<Rightarrow> string"
  JSON_stringify :: "jsval \<Rightarrow> string"

record ('b, 'tp) env =
  global_fetch :: "'b fetch_fn"
  fs_readFile :: "string \<Rightarrow> string + string"
  process_cwd :: string
  tp_setChunkSize :: "real \<Rightarrow> 'tp \<Rightarrow> error + 'tp"
  tp_setChunkOverlap :: "real \<Rightarrow> 'tp \<Rightarrow> error + 'tp"
  tp_processFile :: "'tp \<Rightarrow> string \<Rightarrow> string \<Rightarrow> error + chunk list"
  createEmbeddingService :: "embedding_config \<Rightarrow> error + embedding_service"
  uuidv4 :: "nat \<Rightarrow> string"
  builtins :: js_builtins

record addDocumentsArgs =
  ad_filePath :: string
  ad_collection :: string
  ad_embeddingService :: "string option"
  ad_chunkSize :: "real option"
  ad_chunkOverlap :: "real option"

record searchArgs =
  sa_query :: string
  sa_collection :: string
  sa_embeddingService :: "string option"
  sa_limit :: "real option"

record tool_response =
  content_text :: string
  isError :: bool

text \<open>Sequencing of steps that may throw and that change the world.\<close>

definition bindS ::
  "('w \<Rightarrow> (error + 'a) \<times> 'w) \<Rightarrow> ('a \<Rightarrow> 'w \<Rightarrow> (error + 'c) \<times> 'w) \<Rightarrow> 'w \<Rightarrow> (error + 'c) \<times> 'w" where
  "bindS m f w = (case m w of (Inl e, w') \<Rightarrow> (Inl e, w') | (Inr x, w') \<Rightarrow> f x w')"

definition liftE :: "error + 'a \<Rightarrow> 'w \<Rightarrow> (error + 'a) \<times> 'w" where
  "liftE r w = (r, w)"

text \<open>\<^verbatim>\<open>if (args.chunkSize) ...\<close> and \<^verbatim>\<open>if (args.chunkOverlap) ...\<close>.\<close>

definition configure_chunking ::
  "('b, 'tp) env \<Rightarrow> addDocumentsArgs \<Rightarrow> ('b, 'tp) world \<Rightarrow> (error + unit) \<times> ('b, 'tp) world" where
  "configure_chunking env args w =
     (let r1 = (case ad_chunkSize args of
                  None \<Rightarrow> Inr (textProcessor w)
                | Some n \<Rightarrow> if n \<noteq> 0 then tp_setChunkSize env n (textProcessor w) else Inr (textProcessor w))
      in case r1 of
           Inl e \<Rightarrow> (Inl e, w)
         | Inr tp1 \<Rightarrow>
             (let r2 = (case ad_chunkOverlap args of
                          None \<Rightarrow> Inr tp1
                        | Some n \<Rightarrow> if n \<noteq> 0 then tp_setChunkOverlap env n tp1 else Inr tp1)
              in case r2 of
                   Inl e \<Rightarrow> (Inl e, w\<lparr> textProcessor := tp1 \<rparr>)
                 | Inr tp2 \<Rightarrow> (Inr (), w\<lparr> textProcessor := tp2 \<rparr>)))"

text \<open>
  The inner \<^verbatim>\<open>try\<close> of \<open>handleAddDocuments\<close>: the path is sanitised, then the file is
  read; an \<^verbatim>\<open>McpError\<close> is rethrown, any other error is wrapped. Each call of
  \<^verbatim>\<open>readFile\<close> is recorded in the world's \<open>reads\<close>.
\<close>

definition read_upload ::
  "('b, 'tp) env \<Rightarrow> appConfig \<Rightarrow> string \<Rightarrow> ('b, 'tp) world \<Rightarrow> (error + string \<times> string) \<times> ('b, 'tp) world" where
  "read_upload env cfg filePath w =
     (case sanitizeFilePath cfg (process_cwd env) filePath of
        Inl e \<Rightarrow> (Inl e, w)
      | Inr sanitizedFilePath \<Rightarrow>
          (let w' = w\<lparr> reads := reads w @ [sanitizedFilePath] \<rparr>
           in case fs_readFile env sanitizedFilePath of
                Inl msg \<Rightarrow> (Inl (McpError InvalidParams (''Error reading file: '' @ msg)), w')
              | Inr content \<Rightarrow> (Inr (sanitizedFilePath, content), w')))"

definition allowedEmbeddingServices :: "string list" where
  "allowedEmbeddingServices = [''openai'', ''openrouter'', ''fastembed'', ''ollama'']"

definition not_specified :: error where
  "not_specified = McpError InvalidParams ''Embedding service not specified in config or arguments.''"

definition unsupported :: "string \<Rightarrow> error" where
  "unsupported t =
     McpError InvalidParams (''Unsupported embedding service: '' @ t @ ''. Allowed services are: ''
                             @ join_with '', '' allowedEmbeddingServices)"

text \<open>
  The provider's name, as both handlers compute it:
  \<^verbatim>\<open>appConfig.embeddingProvider || args.embeddingService\<close>, then the two checks.
\<close>

definition embeddingServiceType :: "appConfig \<Rightarrow> string option \<Rightarrow> error + string" where
  "embeddingServiceType cfg argService =
     (case (if embeddingProvider cfg \<noteq> [] then Some (embeddingProvider cfg) else argService) of
        None \<Rightarrow> Inl not_specified
      | Some t \<Rightarrow>
          if t = [] then Inl not_specified
          else if t \<notin> set allowedEmbeddingServices then Inl (unsupported t)
          else Inr t)"

definition embedding_config_for :: "appConfig \<Rightarrow> string \<Rightarrow> embedding_config" where
  "embedding_config_for cfg t =
     \<lparr> ec_type = t,
       ec_apiKey = config_lookup cfg (t @ ''ApiKey''),
       ec_endpoint = config_lookup cfg (t @ ''Endpoint''),
       ec_model = embeddingModel cfg \<rparr>"

text \<open>\<^verbatim>\<open>{ text: chunk.text, ...chunk.metadata }\<close>: a later key replaces the value of an earlier one.\<close>

definition chunk_payload :: "chunk \<Rightarrow> jsval" where
  "chunk_payload c = JObj (fold (\<lambda>(k, v). AList.update k v) (chunk_metadata c) [(''text'', JStr (chunk_text c))])"

text \<open>
  \<^verbatim>\<open>chunks.map((chunk, i) => ({ id: uuidv4(), vector: embeddings[i], payload }))\<close>, when
  \<open>n0\<close> identifiers have been drawn before.
\<close>

definition assemble_points :: "(nat \<Rightarrow> string) \<Rightarrow> nat \<Rightarrow> chunk list \<Rightarrow> jsval list \<Rightarrow> point list" where
  "assemble_points uuid n0 chunks embeddings =
     map (\<lambda>(i, c). \<lparr> point_id = uuid (n0 + i),
                      point_vector = (if i < length embeddings then embeddings ! i else JUndefined),
                      point_payload = chunk_payload c \<rparr>)
         (enumerate 0 chunks)"

text \<open>
  The steps of \<open>handleAddDocuments\<close> before the store is touched. First the
  chunking parameters, the file and its chunks.
\<close>

definition ingest_chunks ::
  "('b, 'tp) env \<Rightarrow> appConfig \<Rightarrow> addDocumentsArgs \<Rightarrow> ('b, 'tp) world
     \<Rightarrow> (error + chunk list) \<times> ('b, 'tp) world" where
  "ingest_chunks env cfg args =
     bindS (configure_chunking env args) (\<lambda>u.
     bindS (read_upload env cfg (ad_filePath args)) (\<lambda>(sanitizedFilePath, content).
       (\<lambda>w. (tp_processFile env (textProcessor w) content sanitizedFilePath, w))))"

text \<open>Then the provider and the embeddings of the chunks' texts.\<close>

definition ingest_embed ::
  "('b, 'tp) env \<Rightarrow> appConfig \<Rightarrow> addDocumentsArgs \<Rightarrow> chunk list
     \<Rightarrow> error + chunk list \<times> embedding_service \<times> jsval list" where
  "ingest_embed env cfg args chunks =
     bindE (embeddingServiceType cfg (ad_embeddingService args)) (\<lambda>t.
     bindE (createEmbeddingService env (embedding_config_for cfg t)) (\<lambda>embeddingService.
     bindE (es_generateEmbeddings embeddingService (map chunk_text chunks)) (\<lambda>embeddings.
       Inr (chunks, embeddingService, embeddings))))"

definition ingest_prepare ::
  "('b, 'tp) env \<Rightarrow> appConfig \<Rightarrow> addDocumentsArgs \<Rightarrow> ('b, 'tp) world
     \<Rightarrow> (error + chunk list \<times> embedding_service \<times> jsval list) \<times> ('b, 'tp) world" where
  "ingest_prepare env cfg args =
     bindS (ingest_chunks env cfg args) (\<lambda>chunks. liftE (ingest_embed env cfg args chunks))"

text \<open>The steps on the store: list, create if absent, upsert.\<close>

definition ingest_store ::
  "('b, 'tp) env \<Rightarrow> qdrant_service \<Rightarrow> string \<Rightarrow> chunk list \<times> embedding_service \<times> jsval list
     \<Rightarrow> ('b, 'tp) world \<Rightarrow> (error + nat) \<times> ('b, 'tp) world" where
  "ingest_store env svc collection = (\<lambda>(chunks, embeddingService, embeddings).
     bindS (listCollections (global_fetch env) svc) (\<lambda>collections.
     bindS (if JStr collection \<notin> set collections
            then createCollection (global_fetch env) svc collection (es_vectorSize embeddingService)
            else liftE (Inr ())) (\<lambda>u.
     bindS (\<lambda>w. (Inr (assemble_points (uuidv4 env) (uuid_count w) chunks embeddings),
                  w\<lparr> uuid_count := uuid_count w + length chunks \<rparr>)) (\<lambda>points.
     bindS (addDocuments (global_fetch env) svc collection points) (\<lambda>u.
       liftE (Inr (length chunks)))))))"

text \<open>The body of the outer \<^verbatim>\<open>try\<close> of \<open>handleAddDocuments\<close>.\<close>

definition handleAddDocuments_try ::
  "('b, 'tp) env \<Rightarrow> appConfig \<Rightarrow> qdrant_service \<Rightarrow> addDocumentsArgs \<Rightarrow> ('b, 'tp) world
     \<Rightarrow> (error + nat) \<times> ('b, 'tp) world" where
  "handleAddDocuments_try env cfg svc args =
     bindS (ingest_prepare env cfg args) (ingest_store env svc (ad_collection args))"

text \<open>The handler: the outer \<^verbatim>\<open>catch\<close> logs the error and answers with a generic failure.\<close>

definition handleAddDocuments ::
  "('b, 'tp) env \<Rightarrow> appConfig \<Rightarrow> qdrant_service \<Rightarrow> addDocumentsArgs \<Rightarrow> ('b, 'tp) world
     \<Rightarrow> tool_response \<times> ('b, 'tp) world" where
  "handleAddDocuments env cfg svc args w =
     (case handleAddDocuments_try env cfg svc args w of
        (Inr n, w') \<Rightarrow>
          (\<lparr> content_text = ''Successfully processed and added '' @ string_of_nat n
                              @ '' chunks to collection '' @ ad_collection args,
             isError = False \<rparr>, w')
      | (Inl e, w') \<Rightarrow>
          (\<lparr> content_text = ''Error adding documents. Please check server logs for details.'',
             isError = True \<rparr>,
           w'\<lparr> logged := logged w' @ [(''Error in handleAddDocuments:'', e)] \<rparr>))"

subsection \<open>Search\<close>

text \<open>\<^verbatim>\<open>String(v)\<close>, as a template literal applies it; the platform formats numbers.\<close>

fun js_toString :: "(real \<Rightarrow> string) \<Rightarrow> jsval \<Rightarrow> string" where
  "js_toString num JUndefined = ''undefined''"
| "js_toString num JNull = ''null''"
| "js_toString num (JBool b) = (if b then ''true'' else ''false'')"
| "js_toString num (JNum n) = num n"
| "js_toString num (JStr s) = s"
| "js_toString num (JArr xs) =
     join_with '','' (map (\<lambda>x. if x = JUndefined \<or> x = JNull then [] else js_toString num x) xs)"
| "js_toString num (JObj kvs) = ''[object Object]''"

definition nl :: string where
  "nl = [CHR 0x0A]"

text \<open>\<^verbatim>\<open>result.payload.text || result.payload.content || JSON.stringify(result.payload)\<close>.\<close>

definition result_text :: "js_builtins \<Rightarrow> jsval \<Rightarrow> error + jsval" where
  "result_text b payload =
     bindE (js_get payload ''text'') (\<lambda>t.
       if truthy t then Inr t
       else bindE (js_get payload ''content'') (\<lambda>c.
         if truthy c then Inr c else Inr (JStr (JSON_stringify b payload))))"

text \<open>\<^verbatim>\<open>result.payload.source || result.payload.metadata?.source || ''\<close>.\<close>

definition result_source :: "jsval \<Rightarrow> error + jsval" where
  "result_source payload =
     bindE (js_get payload ''source'') (\<lambda>s.
       if truthy s then Inr s
       else bindE (js_get payload ''metadata'') (\<lambda>m.
         if truthy (js_get_opt m ''source'') then Inr (js_get_opt m ''source'') else Inr (JStr [])))"

text \<open>\<^verbatim>\<open>result.score.toFixed(2)\<close>.\<close>

definition result_score :: "js_builtins \<Rightarrow> jsval \<Rightarrow> error + string" where
  "result_score b score =
     (case score of
        JNum n \<Rightarrow> Inr (toFixed2 b n)
      | JUndefined \<Rightarrow> Inl (cannot_read ''undefined'' ''toFixed'')
      | JNull \<Rightarrow> Inl (cannot_read ''null'' ''toFixed'')
      | _ \<Rightarrow> Inl (TypeError ''result.score.toFixed is not a function''))"

text \<open>What one round of the \<^verbatim>\<open>forEach\<close> appends to \<^verbatim>\<open>responseText\<close>.\<close>

definition format_result :: "js_builtins \<Rightarrow> nat \<Rightarrow> search_result \<Rightarrow> error + string" where
  "format_result b index result =
     bindE (result_text b (sr_payload result)) (\<lambda>text.
     bindE (result_source (sr_payload result)) (\<lambda>source.
     bindE (result_score b (sr_score result)) (\<lambda>score.
       Inr (''Result '' @ string_of_nat (index + 1) @ '' (Score: '' @ score @ ''):'' @ nl
            @ js_toString (number_toString b) text @ nl
            @ (if truthy source then ''Source: '' @ js_toString (number_toString b) source @ nl else [])
            @ nl))))"

definition format_results :: "js_builtins \<Rightarrow> search_result list \<Rightarrow> error + string" where
  "format_results b results =
     bindE (mapE (\<lambda>(index, result). format_result b index result) (enumerate 0 results)) (\<lambda>blocks.
       let responseText = concat blocks
       in Inr (if responseText = [] then ''No results found.'' else responseText))"

definition handleSearch_try ::
  "('b, 'tp) env \<Rightarrow> appConfig \<Rightarrow> qdrant_service \<Rightarrow> searchArgs \<Rightarrow> ('b, 'tp) world
     \<Rightarrow> (error + string) \<times> ('b, 'tp) world" where
  "handleSearch_try env cfg svc args =
     bindS (liftE (embeddingServiceType cfg (sa_embeddingService args))) (\<lambda>t.
     bindS (liftE (createEmbeddingService env (embedding_config_for cfg t))) (\<lambda>embeddingService.
     bindS (liftE (es_generateEmbeddings embeddingService [sa_query args])) (\<lambda>embeddings.
     bindS (search (global_fetch env) svc (sa_collection args)
                   (case embeddings of [] \<Rightarrow> JUndefined | queryEmbedding # rest \<Rightarrow> queryEmbedding)
                   (sa_limit args)) (\<lambda>results.
       liftE (format_results (builtins env) results)))))"

definition handleSearch ::
  "('b, 'tp) env \<Rightarrow> appConfig \<Rightarrow> qdrant_service \<Rightarrow> searchArgs \<Rightarrow> ('b, 'tp) world
     \<Rightarrow> tool_response \<times> ('b, 'tp) world" where
  "handleSearch env cfg svc args w =
     (case handleSearch_try env cfg svc args w of
        (Inr responseText, w') \<Rightarrow> (\<lparr> content_text = responseText, isError = False \<rparr>, w')
      | (Inl e, w') \<Rightarrow>
          (\<lparr> content_text = ''Error searching. Please check server logs for details.'', isError = True \<rparr>,
           w'\<lparr> logged := logged w' @ [(''Error in handleSearch:'', e)] \<rparr>))"

section \<open>The store's points\<close>

text \<open>
  Modelled from the spec: the backing store is a separate server, of which the
  repository holds the client only. The spec's contract for \<^verbatim>\<open>addDocuments\<close> is
  "upsert semantics: points with the same id replace prior content"; the points of a
  collection are a map from identifiers to points, and an upsert stores each point of
  the request under its identifier, in order.
\<close>

definition upsert_points :: "point list \<Rightarrow> (string \<rightharpoonup> point) \<Rightarrow> (string \<rightharpoonup> point)" where
  "upsert_points pts store = fold (\<lambda>p m. m(point_id p \<mapsto> p)) pts store"

section \<open>The Ollama provider (services/embeddings/ollama.ts)\<close>

text \<open>
  \<^verbatim>\<open>axios.post\<close> is the environment: for a request it gives \<^verbatim>\<open>response.data\<close>, or the
  error it rejects with (no connection, a status outside 2xx). The service object is
  the pair of fields \<open>generateEmbeddings\<close> reads.
\<close>

record ollama_service =
  ol_endpoint :: string
  ol_model :: string

record axios_request =
  ax_url :: string
  ax_data :: jsval
  ax_headers :: "(string \<times> string) list"

type_synonym axios_fn = "axios_request \<Rightarrow> error + jsval"

definition embedding_request :: "ollama_service \<Rightarrow> string \<Rightarrow> axios_request" where
  "embedding_request svc text =
     \<lparr> ax_url = ol_endpoint svc @ ''/api/embeddings'',
       ax_data = JObj [(''model'', JStr (ol_model svc)), (''prompt'', JStr text)],
       ax_headers = [(''Content-Type'', ''application/json'')] \<rparr>"

definition invalid_response :: error where
  "invalid_response = McpError InternalError ''Invalid response from Ollama API''"

text \<open>The callback of \<^verbatim>\<open>batch.map\<close>: what the promise of one text settles to.\<close>

definition embed_text :: "axios_fn \<Rightarrow> ollama_service \<Rightarrow> string \<Rightarrow> error + jsval" where
  "embed_text post svc text =
     bindE (post (embedding_request svc text)) (\<lambda>data.
     bindE (js_get data ''embedding'') (\<lambda>embedding.
       if \<not> truthy embedding \<or> \<not> isArray embedding then Inl invalid_response
       else Inr embedding))"

text \<open>
  \<^verbatim>\<open>Promise.all\<close> over promises whose outcomes are \<open>ps\<close> and which settle in the order
  \<open>order\<close> (positions in \<open>ps\<close>): it rejects with the first rejection to arrive, and
  otherwise fulfils with the values in the order of \<open>ps\<close>.
\<close>

definition Promise_all :: "nat list \<Rightarrow> (error + 'a) list \<Rightarrow> error + 'a list" where
  "Promise_all order ps =
     (case filter isl (map (\<lambda>k. ps ! k) (filter (\<lambda>k. k < length ps) order)) of
        Inl e # rest \<Rightarrow> Inl e
      | _ \<Rightarrow> mapE (\<lambda>p. p) ps)"

text \<open>\<^verbatim>\<open>xs.slice(a, b)\<close> for \<open>a \<le> b\<close>.\<close>

definition slice :: "'a list \<Rightarrow> nat \<Rightarrow> nat \<Rightarrow> 'a list" where
  "slice xs a b = take (b - a) (drop a xs)"

definition concurrencyLimit :: nat where
  "concurrencyLimit = 5"

text \<open>
  What can be observed of a call: the request for the text at position \<open>k\<close> is issued,
  and later it settles. Within a batch the requests are issued in order, when
  \<^verbatim>\<open>batch.map\<close> runs the callbacks up to their first \<^verbatim>\<open>await\<close>; they settle in the order
  of their latencies (\<open>latency k\<close> for the text at position \<open>k\<close>, any function), which
  is the order in which \<^verbatim>\<open>Promise.all\<close> sees them. When a request of a batch fails, the
  call is over, and the other requests of the batch still settle.
\<close>

datatype event = Issue nat | Settle nat

text \<open>The positions of the batch that starts at \<open>i\<close>, and what is observed of it.\<close>

definition batch_ids :: "string list \<Rightarrow> nat \<Rightarrow> nat list" where
  "batch_ids texts i = [i ..< i + length (slice texts i (i + concurrencyLimit))]"

definition batch_events :: "(nat \<Rightarrow> nat) \<Rightarrow> string list \<Rightarrow> nat \<Rightarrow> event list" where
  "batch_events latency texts i =
     map Issue (batch_ids texts i) @ map Settle (sort_key latency (batch_ids texts i))"

text \<open>
  The \<^verbatim>\<open>for\<close> loop from \<open>i\<close> on, with the promises pushed so far, and the final
  \<^verbatim>\<open>Promise.all(embeddingPromises)\<close>, all of whose promises have settled by then.
\<close>

function embed_loop ::
  "axios_fn \<Rightarrow> (nat \<Rightarrow> nat) \<Rightarrow> ollama_service \<Rightarrow> string list \<Rightarrow> nat \<Rightarrow> (error + jsval) list
     \<Rightarrow> event list \<times> (error + jsval list)" where
  "embed_loop post latency svc texts i embeddingPromises =
     (if i < length texts then
        (let batch = slice texts i (i + concurrencyLimit);
             batchPromises = map (embed_text post svc) batch
         in case Promise_all (map (\<lambda>k. k - i) (sort_key latency (batch_ids texts i))) batchPromises of
              Inl e \<Rightarrow> (batch_events latency texts i, Inl e)
            | Inr vs \<Rightarrow>
                (let (tr, r) = embed_loop post latency svc texts (i + concurrencyLimit)
                                 (embeddingPromises @ batchPromises)
                 in (batch_events latency texts i @ tr, r)))
      else ([], Promise_all [0 ..< length embeddingPromises] embeddingPromises))"
  by pat_completeness auto
termination
  by (relation "measure (\<lambda>(post, latency, svc, texts, i, ps). length texts - i)")
     (auto simp: concurrencyLimit_def)

declare embed_loop.simps [simp del]

text \<open>
  The requests that a sequence of events leaves in flight: issued and not yet settled.
\<close>

fun issued :: "event list \<Rightarrow> nat list" where
  "issued [] = []"
| "issued (Issue k # evs) = k # issued evs"
| "issued (Settle k # evs) = issued evs"

definition in_flight :: "event list \<Rightarrow> nat list" where
  "in_flight evs = filter (\<lambda>k. Settle k \<notin> set evs) (issued evs)"

definition generateEmbeddings_trace ::
  "axios_fn \<Rightarrow> (nat \<Rightarrow> nat) \<Rightarrow> ollama_service \<Rightarrow> string list \<Rightarrow> event list \<times> (error + jsval list)" where
  "generateEmbeddings_trace post latency svc texts = embed_loop post latency svc texts 0 []"

definition generateEmbeddings ::
  "axios_fn \<Rightarrow> (nat \<Rightarrow> nat) \<Rightarrow> ollama_service \<Rightarrow> string list \<Rightarrow> error + jsval list" where
  "generateEmbeddings post latency svc texts = snd (generateEmbeddings_trace post latency svc texts)"

text \<open>What is observed of a call: the events of its requests, in order.\<close>

definition generateEmbeddings_events ::
  "axios_fn \<Rightarrow> (nat \<Rightarrow> nat) \<Rightarrow> ollama_service \<Rightarrow> string list \<Rightarrow> event list" where
  "generateEmbeddings_events post latency svc texts = fst (generateEmbeddings_trace post latency svc texts)"

section \<open>Concrete inputs\<close>

definition remote_http :: url_obj where
  "remote_http = \<lparr> protocol = ''http:'', hostname = ''remote-qdrant'', port = ''6333'', pathname = ''/'' \<rparr>"

definition local_http :: url_obj where
  "local_http = \<lparr> protocol = ''http:'', hostname = ''localhost'', port = ''6333'', pathname = ''/'' \<rparr>"

definition remote_https :: url_obj where
  "remote_https = \<lparr> protocol = ''https:'', hostname = ''remote-qdrant'', port = ''6333'', pathname = ''/'' \<rparr>"

definition example_builtins :: js_builtins where
  "example_builtins =
     \<lparr> toFixed2 = (\<lambda>x. if x = 0.9 then ''0.90'' else if x = 0.8 then ''0.80'' else ''0.00''),
       number_toString = (\<lambda>x. ''0''),
       JSON_stringify = (\<lambda>v. ''{}'') \<rparr>"

definition example_service :: qdrant_service where
  "example_service =
     \<lparr> svc_client = clientConfig local_http None, svc_url = ''http://localhost:6333'', svc_apiKey = None \<rparr>"

text \<open>
  A stub of the store, in the manner of the tests' mocked \<^verbatim>\<open>fetch\<close>: its state is the
  list of the names of its collections; a search answers with two points, the second
  of which carries named vectors.
\<close>

definition example_hits :: "jsval list" where
  "example_hits =
     [JObj [(''id'', JStr ''doc1''), (''score'', JNum 0.9), (''payload'', JObj [(''text'', JStr ''result1'')]),
            (''vector'', JArr [JNum 0.1, JNum 0.2])],
      JObj [(''id'', JStr ''doc2''), (''score'', JNum 0.8), (''payload'', JObj [(''text'', JStr ''result2'')]),
            (''vector'', JObj [(''dense'', JArr [JNum 0.3])])]]"

definition example_fetch :: "string list fetch_fn" where
  "example_fetch req names =
     (if req_method req = GET
      then (Inr \<lparr> resp_ok = True, resp_status = 200,
                  resp_json = Inr (JObj [(''result'',
                     JObj [(''collections'', JArr (map (\<lambda>n. JObj [(''name'', JStr n)]) names))])]) \<rparr>, names)
      else if req_method req = POST
      then (Inr \<lparr> resp_ok = True, resp_status = 200,
                  resp_json = Inr (JObj [(''result'', JArr example_hits)]) \<rparr>, names)
      else (Inr \<lparr> resp_ok = True, resp_status = 200,
                  resp_json = Inr (JObj [(''result'', JBool True)]) \<rparr>, names))"

text \<open>The same store, refusing every \<^verbatim>\<open>PUT\<close> with status 500.\<close>

definition refusing_fetch :: "string list fetch_fn" where
  "refusing_fetch req names =
     (if req_method req = PUT
      then (Inr \<lparr> resp_ok = False, resp_status = 500, resp_json = Inl (SyntaxError ''Unexpected end of JSON input'') \<rparr>,
            names)
      else example_fetch req names)"

definition example_world :: "string list \<Rightarrow> (string list, unit) world" where
  "example_world names =
     \<lparr> backend = names, requests = [], reads = [], uuid_count = 0, textProcessor = (), logged = [] \<rparr>"

definition example_vector :: jsval where
  "example_vector = JArr [JNum 0.5]"

definition example_embedding_service :: embedding_service where
  "example_embedding_service =
     \<lparr> es_vectorSize = 768, es_generateEmbeddings = (\<lambda>texts. Inr (map (\<lambda>t. example_vector) texts)) \<rparr>"

definition example_env :: "(string list, unit) env" where
  "example_env =
     \<lparr> global_fetch = example_fetch,
       fs_readFile = (\<lambda>p. if p = ''/tmp/mcp-uploads/notes.txt'' then Inr ''some notes''
                          else Inl ''ENOENT: no such file or directory''),
       process_cwd = ''/srv/app'',
       tp_setChunkSize = (\<lambda>n tp. Inr tp),
       tp_setChunkOverlap = (\<lambda>n tp. Inr tp),
       tp_processFile = (\<lambda>tp content source.
          Inr [\<lparr> chunk_text = content, chunk_metadata = [(''index'', JNum 0), (''source'', JStr source)] \<rparr>]),
       createEmbeddingService = (\<lambda>c. Inr example_embedding_service),
       uuidv4 = (\<lambda>n. ''id-'' @ string_of_nat n),
       builtins = example_builtins \<rparr>"

definition example_config :: appConfig where
  "example_config = load_appConfig (\<lambda>v. None)"

definition example_chunk :: chunk where
  "example_chunk =
     \<lparr> chunk_text = ''some notes'',
       chunk_metadata = [(''index'', JNum 0), (''source'', JStr ''/tmp/mcp-uploads/notes.txt'')] \<rparr>"

definition example_point :: "string \<Rightarrow> point" where
  "example_point pid =
     \<lparr> point_id = pid, point_vector = example_vector,
       point_payload = JObj [(''text'', JStr ''some notes''), (''index'', JNum 0),
                             (''source'', JStr ''/tmp/mcp-uploads/notes.txt'')] \<rparr>"

text \<open>
  Two other provider factories: one that refuses the \<^verbatim>\<open>ollama\<close> provider, as the
  provider's \<^verbatim>\<open>validateConfig\<close> does for a missing endpoint, and one whose providers
  answer every call with the invalid-response error.
\<close>

definition picky_factory :: "embedding_config \<Rightarrow> error + embedding_service" where
  "picky_factory c =
     (if ec_type c = ''ollama'' then Inl (McpError InvalidParams ''Ollama endpoint is required'')
      else Inr example_embedding_service)"

definition mute_service :: embedding_service where
  "mute_service = \<lparr> es_vectorSize = 768, es_generateEmbeddings = (\<lambda>texts. Inl invalid_response) \<rparr>"

definition mute_factory :: "embedding_config \<Rightarrow> error + embedding_service" where
  "mute_factory c = (if ec_type c = ''ollama'' then Inr mute_service else Inr example_embedding_service)"

definition example_searchArgs :: searchArgs where
  "example_searchArgs =
     \<lparr> sa_query = ''notes'', sa_collection = ''docs'', sa_embeddingService = None, sa_limit = None \<rparr>"

definition example_addArgs :: addDocumentsArgs where
  "example_addArgs =
     \<lparr> ad_filePath = ''notes.txt'', ad_collection = ''docs'', ad_embeddingService = None,
       ad_chunkSize = None, ad_chunkOverlap = None \<rparr>"

text \<open>
  A stub of \<^verbatim>\<open>axios.post\<close>, in the manner of the tests' mock: it answers by the prompt,
  with an embedding for the six texts of the tests, with a body that has no
  \<^verbatim>\<open>embedding\<close>, with a refused connection, or with the body \<^verbatim>\<open>null\<close>.
\<close>

definition example_ollama :: ollama_service where
  "example_ollama = \<lparr> ol_endpoint = ''http://localhost:11434'', ol_model = ''nomic-embed-text'' \<rparr>"

definition example_embeddings :: "(string \<times> jsval) list" where
  "example_embeddings =
     [(''text1'', JArr [JNum 1]), (''text2'', JArr [JNum 2]), (''text3'', JArr [JNum 3]),
      (''text4'', JArr [JNum 4]), (''text5'', JArr [JNum 5]), (''text6'', JArr [JNum 6])]"

definition example_post :: axios_fn where
  "example_post req =
     (case js_get (ax_data req) ''prompt'' of
        Inr (JStr p) \<Rightarrow>
          (case map_of example_embeddings p of
             Some v \<Rightarrow> Inr (JObj [(''embedding'', v)])
           | None \<Rightarrow>
               if p = ''invalid response'' then Inr (JObj [(''someOtherField'', JStr ''value'')])
               else if p = ''unreachable'' then Inl (TransportError ''connect ECONNREFUSED 127.0.0.1:11434'')
               else Inr JNull)
      | _ \<Rightarrow> Inl (TransportError ''Request failed with status code 400''))"

definition example_texts :: "string list" where
  "example_texts = [''text1'', ''text2'', ''text3'', ''text4'', ''text5'', ''text6'']"

definition failing_texts :: "string list" where
  "failing_texts = [''text1'', ''invalid response'', ''text3'', ''text4'', ''text5'', ''text6'']"

section \<open>Properties\<close>

subsection \<open>Sequencing\<close>

lemma bindE_Inl [simp]: "bindE (Inl e) f = Inl e"
  by (simp add: bindE_def)

lemma bindE_Inr [simp]: "bindE (Inr x) f = f x"
  by (simp add: bindE_def)

lemma bindE_eq_Inr: "bindE m f = Inr y \<longleftrightarrow> (\<exists>x. m = Inr x \<and> f x = Inr y)"
  by (cases m) simp_all

lemma mapE_eq_Inr: "mapE f xs = Inr ys \<longleftrightarrow> list_all2 (\<lambda>x y. f x = Inr y) xs ys"
proof (induction xs arbitrary: ys)
  case Nil
  then show ?case by auto
next
  case (Cons x xs)
  show ?case
    by (cases ys) (auto simp: bindE_eq_Inr Cons.IH)
qed

lemma mapE_total: "(\<And>x. x \<in> set xs \<Longrightarrow> \<exists>y. f x = Inr y) \<Longrightarrow> \<exists>ys. mapE f xs = Inr ys"
proof (induction xs)
  case Nil
  then show ?case by simp
next
  case (Cons x xs)
  then obtain y where "f x = Inr y" by auto
  moreover from Cons obtain ys where "mapE f xs = Inr ys" by auto
  ultimately show ?case by simp
qed

lemma bindS_Inl: "m w = (Inl e, w') \<Longrightarrow> bindS m f w = (Inl e, w')"
  by (simp add: bindS_def)

lemma bindS_Inr: "m w = (Inr x, w') \<Longrightarrow> bindS m f w = f x w'"
  by (simp add: bindS_def)

lemma liftE_apply [simp]: "liftE r w = (r, w)"
  by (simp add: liftE_def)

lemma example_provider: "embeddingServiceType example_config None = Inr ''ollama''"
  by (simp add: embeddingServiceType_def example_config_def load_appConfig_def or_default_def
      truthy_str_def allowedEmbeddingServices_def)

subsection \<open>Construction of the client\<close>

text \<open>
  C1. Whenever the URL parses: with a (non-empty) API key, a protocol other than
  \<^verbatim>\<open>https:\<close> and a host that is none of the recognised local names, construction throws
  the insecure-key error; with a local host it returns the service and logs the
  warning; with \<^verbatim>\<open>https:\<close> it returns the service whatever the host; and with no
  API key (absent, or the empty string, which JavaScript treats as absent) it returns
  the service whatever the protocol and the host.
\<close>

theorem createQdrantService_policy:
  assumes "parseURL url = Some u"
  shows "(truthy_str apiKey \<and> protocol u \<noteq> ''https:'' \<and> \<not> isLocalhost u
            \<longrightarrow> snd (createQdrantService parseURL url apiKey) = Inl (Error insecure_key_error))
       \<and> (truthy_str apiKey \<and> protocol u \<noteq> ''https:'' \<and> isLocalhost u
            \<longrightarrow> snd (createQdrantService parseURL url apiKey)
                  = Inr \<lparr> svc_client = clientConfig u apiKey, svc_url = url, svc_apiKey = apiKey \<rparr>
                \<and> (LWarn, local_http_warning) \<in> set (fst (createQdrantService parseURL url apiKey)))
       \<and> (protocol u = ''https:''
            \<longrightarrow> snd (createQdrantService parseURL url apiKey)
                  = Inr \<lparr> svc_client = clientConfig u apiKey, svc_url = url, svc_apiKey = apiKey \<rparr>)
       \<and> (\<not> truthy_str apiKey
            \<longrightarrow> snd (createQdrantService parseURL url apiKey)
                  = Inr \<lparr> svc_client = clientConfig u apiKey, svc_url = url, svc_apiKey = apiKey \<rparr>)"
  using assms by (simp add: createQdrantService_def Let_def)

theorem createQdrantService_policy_witness:
  "snd (createQdrantService (\<lambda>_. Some remote_http) ''http://remote-qdrant:6333'' (Some ''test-api-key''))
     = Inl (Error insecure_key_error)
   \<and> snd (createQdrantService (\<lambda>_. Some local_http) ''http://localhost:6333'' (Some ''test-api-key''))
     = Inr \<lparr> svc_client = clientConfig local_http (Some ''test-api-key''),
             svc_url = ''http://localhost:6333'', svc_apiKey = Some ''test-api-key'' \<rparr>
   \<and> (LWarn, local_http_warning)
       \<in> set (fst (createQdrantService (\<lambda>_. Some local_http) ''http://localhost:6333'' (Some ''test-api-key'')))
   \<and> snd (createQdrantService (\<lambda>_. Some remote_https) ''https://remote-qdrant:6333'' (Some ''test-api-key''))
     = Inr \<lparr> svc_client = clientConfig remote_https (Some ''test-api-key''),
             svc_url = ''https://remote-qdrant:6333'', svc_apiKey = Some ''test-api-key'' \<rparr>
   \<and> snd (createQdrantService (\<lambda>_. Some remote_http) ''http://remote-qdrant:6333'' None)
     = Inr \<lparr> svc_client = clientConfig remote_http None,
             svc_url = ''http://remote-qdrant:6333'', svc_apiKey = None \<rparr>"
  using createQdrantService_policy [where parseURL = "\<lambda>_. Some remote_http" and u = remote_http
          and url = "''http://remote-qdrant:6333''" and apiKey = "Some ''test-api-key''"]
        createQdrantService_policy [where parseURL = "\<lambda>_. Some local_http" and u = local_http
          and url = "''http://localhost:6333''" and apiKey = "Some ''test-api-key''"]
        createQdrantService_policy [where parseURL = "\<lambda>_. Some remote_https" and u = remote_https
          and url = "''https://remote-qdrant:6333''" and apiKey = "Some ''test-api-key''"]
        createQdrantService_policy [where parseURL = "\<lambda>_. Some remote_http" and u = remote_http
          and url = "''http://remote-qdrant:6333''" and apiKey = None]
  by (simp add: truthy_str_def isLocalhost_def remote_http_def local_http_def remote_https_def)

subsection \<open>Search results\<close>

lemma js_get_defined: "r \<noteq> JNull \<Longrightarrow> r \<noteq> JUndefined \<Longrightarrow> \<exists>v. js_get r k = Inr v"
  by (cases r) simp_all

lemma to_search_result_total:
  assumes "r \<noteq> JNull" "r \<noteq> JUndefined"
  shows "\<exists>sr. to_search_result r = Inr sr"
proof -
  obtain a where a: "js_get r ''id'' = Inr a" using js_get_defined [OF assms] by blast
  obtain b where b: "js_get r ''score'' = Inr b" using js_get_defined [OF assms] by blast
  obtain c where c: "js_get r ''payload'' = Inr c" using js_get_defined [OF assms] by blast
  obtain d where d: "js_get r ''vector'' = Inr d" using js_get_defined [OF assms] by blast
  show ?thesis
    unfolding to_search_result_def a b c d bindE_Inr by (rule exI) (rule refl)
qed

lemma to_search_result_fields:
  assumes "to_search_result r = Inr sr"
  shows "js_get r ''id'' = Inr (sr_id sr) \<and> js_get r ''score'' = Inr (sr_score sr)
       \<and> js_get r ''payload'' = Inr (sr_payload sr)
       \<and> (\<forall>vs. sr_vector sr = Some vs \<longleftrightarrow> js_get r ''vector'' = Inr (JArr vs) \<and> list_all isNumber vs)"
proof -
  from assms obtain a b c d where a: "js_get r ''id'' = Inr a" and b: "js_get r ''score'' = Inr b"
    and c: "js_get r ''payload'' = Inr c" and d: "js_get r ''vector'' = Inr d"
    and sr: "sr = \<lparr> sr_id = a, sr_score = b, sr_payload = c,
                    sr_vector = (case d of JArr vs \<Rightarrow> if list_all isNumber vs then Some vs else None
                                 | _ \<Rightarrow> None) \<rparr>"
    unfolding to_search_result_def bindE_eq_Inr by auto
  have "\<forall>vs. sr_vector sr = Some vs \<longleftrightarrow> d = JArr vs \<and> list_all isNumber vs"
    by (cases d) (auto simp: sr)
  then show ?thesis
    by (simp add: a b c d sr)
qed

text \<open>
  C9. When the store answers a search with a 2xx response whose body has an array
  \<open>result\<close> of (non-null) entries, \<open>search\<close> returns one result per entry, in order;
  each carries the entry's \<open>id\<close>, \<open>score\<close> and \<open>payload\<close>, and its \<open>vector\<close> is set,
  to the entry's value, exactly when that value is an array all of whose elements are
  numbers; otherwise the field is absent.
\<close>

theorem search_vector_iff_number_array:
  assumes "fetch (search_request svc c v (case l of None \<Rightarrow> 10 | Some x \<Rightarrow> x)) (backend w) = (Inr resp, b')"
    and "resp_ok resp" and "resp_json resp = Inr data"
    and "js_get data ''result'' = Inr (JArr raw)"
    and "JNull \<notin> set raw" and "JUndefined \<notin> set raw"
  shows "\<exists>rs. fst (search fetch svc c v l w) = Inr rs \<and> length rs = length raw
           \<and> (\<forall>i<length raw.
                 js_get (raw ! i) ''id'' = Inr (sr_id (rs ! i))
               \<and> js_get (raw ! i) ''score'' = Inr (sr_score (rs ! i))
               \<and> js_get (raw ! i) ''payload'' = Inr (sr_payload (rs ! i))
               \<and> (\<forall>vs. sr_vector (rs ! i) = Some vs
                        \<longleftrightarrow> js_get (raw ! i) ''vector'' = Inr (JArr vs) \<and> list_all isNumber vs))"
proof -
  have "\<exists>rs. mapE to_search_result raw = Inr rs"
    using assms(5,6) by (intro mapE_total to_search_result_total) auto
  then obtain rs where rs: "mapE to_search_result raw = Inr rs" ..
  then have all2: "list_all2 (\<lambda>r sr. to_search_result r = Inr sr) raw rs"
    by (simp add: mapE_eq_Inr)
  have A: "fst (search fetch svc c v l w) = Inr rs"
    using assms(1-4) rs by (simp add: search_def fetch_json_def search_results_def Let_def)
  have B: "length rs = length raw"
    using all2 by (simp add: list_all2_lengthD)
  have C: "\<forall>i<length raw.
                 js_get (raw ! i) ''id'' = Inr (sr_id (rs ! i))
               \<and> js_get (raw ! i) ''score'' = Inr (sr_score (rs ! i))
               \<and> js_get (raw ! i) ''payload'' = Inr (sr_payload (rs ! i))
               \<and> (\<forall>vs. sr_vector (rs ! i) = Some vs
                        \<longleftrightarrow> js_get (raw ! i) ''vector'' = Inr (JArr vs) \<and> list_all isNumber vs)"
  proof (intro allI impI)
    fix i assume "i < length raw"
    then have "to_search_result (raw ! i) = Inr (rs ! i)"
      using list_all2_nthD [OF all2] by blast
    then show "js_get (raw ! i) ''id'' = Inr (sr_id (rs ! i))
               \<and> js_get (raw ! i) ''score'' = Inr (sr_score (rs ! i))
               \<and> js_get (raw ! i) ''payload'' = Inr (sr_payload (rs ! i))
               \<and> (\<forall>vs. sr_vector (rs ! i) = Some vs
                        \<longleftrightarrow> js_get (raw ! i) ''vector'' = Inr (JArr vs) \<and> list_all isNumber vs)"
      by (rule to_search_result_fields)
  qed
  show ?thesis
    by (rule exI [of _ rs]) (rule conjI [OF A conjI [OF B C]])
qed

theorem search_vector_iff_number_array_witness:
  "fst (search example_fetch example_service ''docs'' (JArr [JNum 0.5]) None (example_world [''docs'']))
     = Inr [\<lparr> sr_id = JStr ''doc1'', sr_score = JNum 0.9, sr_payload = JObj [(''text'', JStr ''result1'')],
              sr_vector = Some [JNum 0.1, JNum 0.2] \<rparr>,
            \<lparr> sr_id = JStr ''doc2'', sr_score = JNum 0.8, sr_payload = JObj [(''text'', JStr ''result2'')],
              sr_vector = None \<rparr>]"
proof -
  let ?resp = "\<lparr> resp_ok = True, resp_status = 200,
                  resp_json = Inr (JObj [(''result'', JArr example_hits)]) \<rparr>"
  have h1: "example_fetch (search_request example_service ''docs'' (JArr [JNum 0.5])
                             (case None of None \<Rightarrow> 10 | Some x \<Rightarrow> x))
                          (backend (example_world [''docs''])) = (Inr ?resp, [''docs''])"
    by (simp add: example_fetch_def search_request_def example_world_def)
  have h2: "resp_ok ?resp" by simp
  have h3: "resp_json ?resp = Inr (JObj [(''result'', JArr example_hits)])" by simp
  have h4: "js_get (JObj [(''result'', JArr example_hits)]) ''result'' = Inr (JArr example_hits)"
    by (simp add: lookup_prop_def)
  have h5: "JNull \<notin> set example_hits" by (simp add: example_hits_def)
  have h6: "JUndefined \<notin> set example_hits" by (simp add: example_hits_def)
  from search_vector_iff_number_array [where fetch = example_fetch and svc = example_service
         and c = "''docs''" and v = "JArr [JNum 0.5]" and l = None and w = "example_world [''docs'']",
         OF h1 h2 h3 h4 h5 h6]
  obtain rs where "fst (search example_fetch example_service ''docs'' (JArr [JNum 0.5]) None
                          (example_world [''docs''])) = Inr rs" by blast
  moreover have "fst (search example_fetch example_service ''docs'' (JArr [JNum 0.5]) None
                          (example_world [''docs'']))
     = Inr [\<lparr> sr_id = JStr ''doc1'', sr_score = JNum 0.9, sr_payload = JObj [(''text'', JStr ''result1'')],
              sr_vector = Some [JNum 0.1, JNum 0.2] \<rparr>,
            \<lparr> sr_id = JStr ''doc2'', sr_score = JNum 0.8, sr_payload = JObj [(''text'', JStr ''result2'')],
              sr_vector = None \<rparr>]"
    by (simp add: search_def fetch_json_def h1 [simplified] search_results_def lookup_prop_def
        example_hits_def to_search_result_def Let_def)
  ultimately show ?thesis by simp
qed

subsection \<open>Formatting of search results\<close>

lemma format_results_Nil: "format_results b [] = Inr ''No results found.''"
  by (simp add: format_results_def enumerate_eq_zip)

lemma result_text_obj:
  "result_text b (JObj kvs) =
     Inr (if truthy (lookup_prop kvs ''text'') then lookup_prop kvs ''text''
          else if truthy (lookup_prop kvs ''content'') then lookup_prop kvs ''content''
          else JStr (JSON_stringify b (JObj kvs)))"
  by (simp add: result_text_def)

lemma result_source_obj:
  "result_source (JObj kvs) =
     Inr (if truthy (lookup_prop kvs ''source'') then lookup_prop kvs ''source''
          else if truthy (js_get_opt (lookup_prop kvs ''metadata'') ''source'')
               then js_get_opt (lookup_prop kvs ''metadata'') ''source''
          else JStr [])"
  by (simp add: result_source_def)

lemma format_result_obj:
  assumes "sr_payload r = JObj kvs" and "sr_score r = JNum n"
  shows "format_result b i r =
     Inr (''Result '' @ string_of_nat (i + 1) @ '' (Score: '' @ toFixed2 b n @ ''):'' @ nl
          @ js_toString (number_toString b)
              (if truthy (lookup_prop kvs ''text'') then lookup_prop kvs ''text''
               else if truthy (lookup_prop kvs ''content'') then lookup_prop kvs ''content''
               else JStr (JSON_stringify b (JObj kvs))) @ nl
          @ (if truthy (lookup_prop kvs ''source'')
             then ''Source: '' @ js_toString (number_toString b) (lookup_prop kvs ''source'') @ nl
             else if truthy (js_get_opt (lookup_prop kvs ''metadata'') ''source'')
             then ''Source: '' @ js_toString (number_toString b)
                                   (js_get_opt (lookup_prop kvs ''metadata'') ''source'') @ nl
             else [])
          @ nl)"
  unfolding format_result_def assms result_text_obj result_source_obj
  by (simp add: result_score_def)

lemma format_result_total:
  assumes "isObject (sr_payload r)" and "isNumber (sr_score r)"
  shows "\<exists>block. format_result b i r = Inr block"
proof -
  obtain kvs where p: "sr_payload r = JObj kvs"
    using assms(1) by (cases "sr_payload r") simp_all
  obtain n where n: "sr_score r = JNum n"
    using assms(2) by (cases "sr_score r") simp_all
  show ?thesis
    unfolding format_result_obj [OF p n] by (rule exI) (rule refl)
qed

lemma format_result_nonempty: "format_result b i r = Inr s \<Longrightarrow> s \<noteq> []"
  by (auto simp: format_result_def bindE_eq_Inr)

lemma format_results_blocks:
  assumes "list_all2 (\<lambda>(i, r) block. format_result b i r = Inr block) (enumerate 0 rs) blocks"
  shows "format_results b rs = Inr (if rs = [] then ''No results found.'' else concat blocks)"
proof -
  have m: "mapE (\<lambda>(i, r). format_result b i r) (enumerate 0 rs) = Inr blocks"
    using assms by (simp add: mapE_eq_Inr split_def)
  have len: "length blocks = length rs"
    using list_all2_lengthD [OF assms] by simp
  have "concat blocks = [] \<longleftrightarrow> rs = []"
  proof (cases rs)
    case Nil
    then show ?thesis using len by simp
  next
    case (Cons r rs')
    then obtain blk blocks' where bl: "blocks = blk # blocks'"
      using len by (cases blocks) simp_all
    have "format_result b 0 r = Inr blk"
      using assms by (simp add: Cons bl)
    then have "blk \<noteq> []" by (rule format_result_nonempty)
    then show ?thesis by (simp add: Cons bl)
  qed
  then show ?thesis
    by (simp add: format_results_def m Let_def)
qed

text \<open>
  C8, as the code has it. An empty result list is formatted as
  \<^verbatim>\<open>No results found.\<close>. A result whose payload is an object and whose score is a number is
  formatted as one block: the heading with its rank and score; then the payload's
  \<^verbatim>\<open>text\<close> when that is truthy (present and not the empty string, \<^verbatim>\<open>0\<close>, \<^verbatim>\<open>false\<close> or
  \<^verbatim>\<open>null\<close>), otherwise its \<^verbatim>\<open>content\<close> when that is truthy, otherwise the JSON
  serialisation of the payload; then the source line when the payload's \<^verbatim>\<open>source\<close>, or
  else its \<^verbatim>\<open>metadata.source\<close>, is truthy. A list of such results is formatted as the
  blocks of its results, in order. The answer of \<open>handleSearch\<close> is the formatted text
  of the results that \<open>search\<close> returned.
\<close>

theorem format_results_truthy_fields:
  "format_results b [] = Inr ''No results found.''
   \<and> (sr_payload r = JObj kvs \<and> sr_score r = JNum n \<longrightarrow>
        format_result b i r =
          Inr (''Result '' @ string_of_nat (i + 1) @ '' (Score: '' @ toFixed2 b n @ ''):'' @ nl
               @ js_toString (number_toString b)
                   (if truthy (lookup_prop kvs ''text'') then lookup_prop kvs ''text''
                    else if truthy (lookup_prop kvs ''content'') then lookup_prop kvs ''content''
                    else JStr (JSON_stringify b (JObj kvs))) @ nl
               @ (if truthy (lookup_prop kvs ''source'')
                  then ''Source: '' @ js_toString (number_toString b) (lookup_prop kvs ''source'') @ nl
                  else if truthy (js_get_opt (lookup_prop kvs ''metadata'') ''source'')
                  then ''Source: '' @ js_toString (number_toString b)
                                        (js_get_opt (lookup_prop kvs ''metadata'') ''source'') @ nl
                  else [])
               @ nl))
   \<and> (list_all (\<lambda>r. isObject (sr_payload r) \<and> isNumber (sr_score r)) rs \<longrightarrow>
        (\<exists>blocks. list_all2 (\<lambda>(i, r) block. format_result b i r = Inr block) (enumerate 0 rs) blocks
                 \<and> format_results b rs = Inr (if rs = [] then ''No results found.'' else concat blocks)))
   \<and> (embeddingServiceType cfg (sa_embeddingService args) = Inr t
        \<and> createEmbeddingService env (embedding_config_for cfg t) = Inr es
        \<and> es_generateEmbeddings es [sa_query args] = Inr embs
        \<and> search (global_fetch env) svc (sa_collection args)
                  (case embs of [] \<Rightarrow> JUndefined | q # rest \<Rightarrow> q) (sa_limit args) w = (Inr found, w')
        \<and> format_results (builtins env) found = Inr formatted \<longrightarrow>
        handleSearch env cfg svc args w = (\<lparr> content_text = formatted, isError = False \<rparr>, w'))"
proof (intro conjI impI)
  show "format_results b [] = Inr ''No results found.''"
    by (rule format_results_Nil)
next
  assume "sr_payload r = JObj kvs \<and> sr_score r = JNum n"
  then show "format_result b i r =
          Inr (''Result '' @ string_of_nat (i + 1) @ '' (Score: '' @ toFixed2 b n @ ''):'' @ nl
               @ js_toString (number_toString b)
                   (if truthy (lookup_prop kvs ''text'') then lookup_prop kvs ''text''
                    else if truthy (lookup_prop kvs ''content'') then lookup_prop kvs ''content''
                    else JStr (JSON_stringify b (JObj kvs))) @ nl
               @ (if truthy (lookup_prop kvs ''source'')
                  then ''Source: '' @ js_toString (number_toString b) (lookup_prop kvs ''source'') @ nl
                  else if truthy (js_get_opt (lookup_prop kvs ''metadata'') ''source'')
                  then ''Source: '' @ js_toString (number_toString b)
                                        (js_get_opt (lookup_prop kvs ''metadata'') ''source'') @ nl
                  else [])
               @ nl)"
    using format_result_obj by blast
next
  assume typed: "list_all (\<lambda>r. isObject (sr_payload r) \<and> isNumber (sr_score r)) rs"
  have "\<exists>blocks. mapE (\<lambda>(i, r). format_result b i r) (enumerate 0 rs) = Inr blocks"
  proof (rule mapE_total)
    fix x assume xin: "x \<in> set (enumerate 0 rs)"
    obtain i' r' where x: "x = (i', r')" by (cases x)
    have "r' \<in> set rs"
      using xin unfolding x enumerate_eq_zip by (rule set_zip_rightD)
    then have "isObject (sr_payload r')" and "isNumber (sr_score r')"
      using typed by (simp_all add: list_all_iff)
    then show "\<exists>y. (case x of (i, r) \<Rightarrow> format_result b i r) = Inr y"
      using format_result_total by (simp add: x)
  qed
  then obtain blocks where "list_all2 (\<lambda>(i, r) block. format_result b i r = Inr block) (enumerate 0 rs) blocks"
    by (auto simp: mapE_eq_Inr split_def)
  then show "\<exists>blocks. list_all2 (\<lambda>(i, r) block. format_result b i r = Inr block) (enumerate 0 rs) blocks
                 \<and> format_results b rs = Inr (if rs = [] then ''No results found.'' else concat blocks)"
    using format_results_blocks by blast
next
  assume "embeddingServiceType cfg (sa_embeddingService args) = Inr t
        \<and> createEmbeddingService env (embedding_config_for cfg t) = Inr es
        \<and> es_generateEmbeddings es [sa_query args] = Inr embs
        \<and> search (global_fetch env) svc (sa_collection args)
                  (case embs of [] \<Rightarrow> JUndefined | q # rest \<Rightarrow> q) (sa_limit args) w = (Inr found, w')
        \<and> format_results (builtins env) found = Inr formatted"
  then show "handleSearch env cfg svc args w = (\<lparr> content_text = formatted, isError = False \<rparr>, w')"
    by (simp add: handleSearch_def handleSearch_try_def bindS_def)
qed

text \<open>
  A payload whose \<^verbatim>\<open>text\<close> is present and empty: the block shows the \<^verbatim>\<open>content\<close> field,
  not the \<^verbatim>\<open>text\<close> field.
\<close>

theorem format_result_text_present_counterexample:
  "map_of [(''text'', JStr []), (''content'', JStr ''body'')] ''text'' = Some (JStr [])
   \<and> format_result example_builtins 0
        \<lparr> sr_id = JStr ''doc1'', sr_score = JNum 0.9,
          sr_payload = JObj [(''text'', JStr []), (''content'', JStr ''body'')], sr_vector = None \<rparr>
       = Inr (''Result 1 (Score: 0.90):'' @ nl @ ''body'' @ nl @ nl)
   \<and> format_result example_builtins 0
        \<lparr> sr_id = JStr ''doc1'', sr_score = JNum 0.9,
          sr_payload = JObj [(''text'', JStr []), (''content'', JStr ''body'')], sr_vector = None \<rparr>
       \<noteq> Inr (''Result 1 (Score: 0.90):'' @ nl @ js_toString (number_toString example_builtins) (JStr []) @ nl @ nl)"
  by (simp add: format_result_def result_text_def result_source_def result_score_def lookup_prop_def
      example_builtins_def js_get_opt_def string_of_nat.simps digit_char_def)

theorem format_results_truthy_fields_witness:
  "format_result example_builtins 0
      \<lparr> sr_id = JStr ''doc1'', sr_score = JNum 0.9, sr_payload = JObj [(''text'', JStr ''result1'')],
        sr_vector = Some [JNum 0.1, JNum 0.2] \<rparr>
     = Inr (''Result 1 (Score: 0.90):'' @ nl @ ''result1'' @ nl @ nl)
   \<and> format_results example_builtins
      [\<lparr> sr_id = JStr ''doc1'', sr_score = JNum 0.9, sr_payload = JObj [(''text'', JStr ''result1'')],
         sr_vector = Some [JNum 0.1, JNum 0.2] \<rparr>,
       \<lparr> sr_id = JStr ''doc2'', sr_score = JNum 0.8, sr_payload = JObj [(''text'', JStr ''result2'')],
         sr_vector = None \<rparr>]
     = Inr (''Result 1 (Score: 0.90):'' @ nl @ ''result1'' @ nl @ nl
            @ ''Result 2 (Score: 0.80):'' @ nl @ ''result2'' @ nl @ nl)
   \<and> fst (handleSearch example_env example_config example_service example_searchArgs (example_world [''docs'']))
     = \<lparr> content_text = ''Result 1 (Score: 0.90):'' @ nl @ ''result1'' @ nl @ nl
            @ ''Result 2 (Score: 0.80):'' @ nl @ ''result2'' @ nl @ nl, isError = False \<rparr>"
  using format_results_truthy_fields [where b = example_builtins and i = 0 and n = "0.9"
      and kvs = "[(''text'', JStr ''result1'')]"
      and r = "\<lparr> sr_id = JStr ''doc1'', sr_score = JNum 0.9, sr_payload = JObj [(''text'', JStr ''result1'')],
        sr_vector = Some [JNum 0.1, JNum 0.2] \<rparr>"
      and rs = "[\<lparr> sr_id = JStr ''doc1'', sr_score = JNum 0.9, sr_payload = JObj [(''text'', JStr ''result1'')],
         sr_vector = Some [JNum 0.1, JNum 0.2] \<rparr>,
       \<lparr> sr_id = JStr ''doc2'', sr_score = JNum 0.8, sr_payload = JObj [(''text'', JStr ''result2'')],
         sr_vector = None \<rparr>]"
      and env = example_env and cfg = example_config and svc = example_service and args = example_searchArgs
      and w = "example_world [''docs'']" and t = "''ollama''" and es = example_embedding_service
      and embs = "[JArr [JNum 0.5]]"
      and found = "[\<lparr> sr_id = JStr ''doc1'', sr_score = JNum 0.9, sr_payload = JObj [(''text'', JStr ''result1'')],
         sr_vector = Some [JNum 0.1, JNum 0.2] \<rparr>,
       \<lparr> sr_id = JStr ''doc2'', sr_score = JNum 0.8, sr_payload = JObj [(''text'', JStr ''result2'')],
         sr_vector = None \<rparr>]"
      and w' = "(example_world [''docs'']) \<lparr> requests := [search_request example_service ''docs'' (JArr [JNum 0.5]) 10] \<rparr>"
      and formatted = "''Result 1 (Score: 0.90):'' @ nl @ ''result1'' @ nl @ nl
            @ ''Result 2 (Score: 0.80):'' @ nl @ ''result2'' @ nl @ nl"]
  by (simp add: example_provider example_searchArgs_def example_env_def example_embedding_service_def
      example_vector_def search_def fetch_json_def example_fetch_def search_request_def example_world_def search_results_def
      lookup_prop_def example_hits_def to_search_result_def Let_def
      format_results_def format_result_def result_text_def result_source_def result_score_def
      example_builtins_def js_get_opt_def string_of_nat.simps digit_char_def enumerate_eq_zip upt_conv_Cons)

subsection \<open>Path sanitisation\<close>

text \<open>
  C2 at the input \<^verbatim>\<open>../mcp-uploads-evil/secret.txt\<close>, with the default upload directory
  \<^verbatim>\<open>/tmp/mcp-uploads\<close>: the path resolves to \<^verbatim>\<open>/tmp/mcp-uploads-evil/secret.txt\<close>, which is
  not within the upload directory; the check accepts it, since the string starts with
  the directory's name, and the handler reads that file.
\<close>

theorem sanitizeFilePath_accepts_sibling_directory:
  "sanitizeFilePath (load_appConfig (\<lambda>v. None)) cwd ''../mcp-uploads-evil/secret.txt''
     = Inr ''/tmp/mcp-uploads-evil/secret.txt''
   \<and> \<not> within_directory (mcpUploadDir (load_appConfig (\<lambda>v. None))) ''/tmp/mcp-uploads-evil/secret.txt''
   \<and> read_upload env (load_appConfig (\<lambda>v. None)) ''../mcp-uploads-evil/secret.txt'' w
     = (case fs_readFile env ''/tmp/mcp-uploads-evil/secret.txt'' of
          Inl msg \<Rightarrow> (Inl (McpError InvalidParams (''Error reading file: '' @ msg)),
                      w\<lparr> reads := reads w @ [''/tmp/mcp-uploads-evil/secret.txt''] \<rparr>)
        | Inr content \<Rightarrow> (Inr (''/tmp/mcp-uploads-evil/secret.txt'', content),
                      w\<lparr> reads := reads w @ [''/tmp/mcp-uploads-evil/secret.txt''] \<rparr>))"
  by (simp add: read_upload_def sanitizeFilePath_def load_appConfig_def or_default_def truthy_str_def
      path_resolve_def isAbsolute_def normalizeString_def normalize_step_def startsWith_def Let_def
      within_directory_def)

subsection \<open>The embedding provider of a call\<close>

lemma load_appConfig_provider_nonempty: "embeddingProvider (load_appConfig env) \<noteq> []"
  by (cases "env ''EMBEDDING_PROVIDER''") (simp_all add: load_appConfig_def or_default_def truthy_str_def)

lemma configure_chunking_indep:
  "configure_chunking env (aargs\<lparr>ad_embeddingService := x\<rparr>) = configure_chunking env aargs"
  by (rule ext) (simp add: configure_chunking_def Let_def split: option.splits sum.splits)

lemma handleAddDocuments_try_config_wins:
  "embeddingProvider cfg \<noteq> [] \<Longrightarrow>
     handleAddDocuments_try env cfg svc (aargs\<lparr>ad_embeddingService := x\<rparr>) = handleAddDocuments_try env cfg svc aargs"
  by (simp add: handleAddDocuments_try_def ingest_prepare_def ingest_chunks_def
      ingest_embed_def configure_chunking_indep embeddingServiceType_def)

lemma handleAddDocuments_config_wins:
  "embeddingProvider cfg \<noteq> [] \<Longrightarrow>
     handleAddDocuments env cfg svc (aargs\<lparr>ad_embeddingService := x\<rparr>) w = handleAddDocuments env cfg svc aargs w"
  by (simp add: handleAddDocuments_def handleAddDocuments_try_config_wins split: prod.splits sum.splits)

lemma handleSearch_config_wins:
  "embeddingProvider cfg \<noteq> [] \<Longrightarrow>
     handleSearch env cfg svc (sargs\<lparr>sa_embeddingService := x\<rparr>) w = handleSearch env cfg svc sargs w"
  by (simp add: handleSearch_def handleSearch_try_def embeddingServiceType_def)

lemma handleSearch_try_provider_error:
  "embeddingServiceType cfg (sa_embeddingService sargs) = Inl e \<Longrightarrow>
     handleSearch_try env cfg svc sargs w = (Inl e, w)"
  by (simp add: handleSearch_try_def bindS_def)

lemma handleAddDocuments_try_provider_error:
  "ingest_chunks env cfg aargs w = (Inr chunks, w1) \<Longrightarrow>
   embeddingServiceType cfg (ad_embeddingService aargs) = Inl e \<Longrightarrow>
     handleAddDocuments_try env cfg svc aargs w = (Inl e, w1)"
  by (simp add: handleAddDocuments_try_def ingest_prepare_def ingest_embed_def bindS_def)

lemma embeddingServiceType_neither:
  "embeddingProvider cfg = [] \<Longrightarrow> \<not> truthy_str a \<Longrightarrow> embeddingServiceType cfg a = Inl not_specified"
  by (cases a) (simp_all add: embeddingServiceType_def truthy_str_def)

lemma embeddingServiceType_resolved:
  assumes "(if embeddingProvider cfg \<noteq> [] then Some (embeddingProvider cfg) else a) = Some t" and "t \<noteq> []"
  shows "embeddingServiceType cfg a = (if t \<in> set allowedEmbeddingServices then Inr t else Inl (unsupported t))"
  using assms by (simp add: embeddingServiceType_def)

lemma unsupported_message:
  "unsupported t = McpError InvalidParams
     (''Unsupported embedding service: '' @ t @ ''. Allowed services are: openai, openrouter, fastembed, ollama'')"
  by (simp add: unsupported_def allowedEmbeddingServices_def)

lemma example_ingest_chunks:
  "ingest_chunks example_env (example_config\<lparr> embeddingProvider := p \<rparr>) example_addArgs (example_world names)
     = (Inr [example_chunk], (example_world names)\<lparr> reads := [''/tmp/mcp-uploads/notes.txt''] \<rparr>)"
  by (simp add: ingest_chunks_def bindS_def configure_chunking_def example_addArgs_def read_upload_def
      sanitizeFilePath_def example_config_def load_appConfig_def or_default_def truthy_str_def
      path_resolve_def isAbsolute_def normalizeString_def normalize_step_def startsWith_def Let_def
      example_env_def example_world_def example_chunk_def)

lemma example_ingest_chunks_factory:
  "ingest_chunks (example_env\<lparr> createEmbeddingService := f \<rparr>) example_config example_addArgs (example_world names)
     = (Inr [example_chunk], (example_world names)\<lparr> reads := [''/tmp/mcp-uploads/notes.txt''] \<rparr>)"
  by (simp add: ingest_chunks_def bindS_def configure_chunking_def example_addArgs_def read_upload_def
      sanitizeFilePath_def example_config_def load_appConfig_def or_default_def truthy_str_def
      path_resolve_def isAbsolute_def normalizeString_def normalize_step_def startsWith_def Let_def
      example_env_def example_world_def example_chunk_def)

lemma handleSearch_try_created:
  "embeddingServiceType cfg (sa_embeddingService sargs) = Inr t \<Longrightarrow>
     handleSearch_try env cfg svc sargs w =
       (case createEmbeddingService env (embedding_config_for cfg t) of
          Inl e \<Rightarrow> (Inl e, w)
        | Inr es \<Rightarrow>
            (case es_generateEmbeddings es [sa_query sargs] of
               Inl e \<Rightarrow> (Inl e, w)
             | Inr embs \<Rightarrow>
                 bindS (search (global_fetch env) svc (sa_collection sargs)
                          (case embs of [] \<Rightarrow> JUndefined | q # rest \<Rightarrow> q) (sa_limit sargs))
                       (\<lambda>results. liftE (format_results (builtins env) results)) w))"
  by (simp add: handleSearch_try_def bindS_def split: sum.splits)

lemma ingest_prepare_created:
  "ingest_chunks env cfg aargs w = (Inr chunks, wr) \<Longrightarrow>
   embeddingServiceType cfg (ad_embeddingService aargs) = Inr t \<Longrightarrow>
     ingest_prepare env cfg aargs w =
       (case createEmbeddingService env (embedding_config_for cfg t) of
          Inl e \<Rightarrow> (Inl e, wr)
        | Inr es \<Rightarrow>
            (case es_generateEmbeddings es (map chunk_text chunks) of
               Inl e \<Rightarrow> (Inl e, wr)
             | Inr embs \<Rightarrow> (Inr (chunks, es, embs), wr)))"
  by (simp add: ingest_prepare_def ingest_embed_def bindS_def split: sum.splits)

lemma handleAddDocuments_try_unprepared:
  "ingest_prepare env cfg aargs w = (Inl e, wr) \<Longrightarrow> handleAddDocuments_try env cfg svc aargs w = (Inl e, wr)"
  by (simp add: handleAddDocuments_try_def bindS_def)

lemma handleAddDocuments_try_stores:
  "ingest_prepare env cfg aargs w = (Inr p, wr) \<Longrightarrow>
     handleAddDocuments_try env cfg svc aargs w = ingest_store env svc (ad_collection aargs) p wr"
  by (simp add: handleAddDocuments_try_def bindS_def)

text \<open>
  C4. Both handlers take the provider's name from the configuration when it has one,
  whatever the call's \<^verbatim>\<open>embeddingService\<close> is, and from the call otherwise. When neither
  names a provider, the body of the handler's \<^verbatim>\<open>try\<close> throws an \<^verbatim>\<open>McpError\<close> with the
  code \<^verbatim>\<open>InvalidParams\<close>; so it does when the name taken is none of \<^verbatim>\<open>openai\<close>,
  \<^verbatim>\<open>openrouter\<close>, \<^verbatim>\<open>fastembed\<close>, \<^verbatim>\<open>ollama\<close>. In \<open>handleAddDocuments\<close> these checks
  come once the file has been read and chunked. The handler logs the error it caught and
  answers with an error response.

  A recognised name \<open>t\<close> is the one the provider is created for: the handlers call
  \<^verbatim>\<open>createEmbeddingService\<close> with the type \<open>t\<close>, the configuration's \<open>t\<close>\<^verbatim>\<open>ApiKey\<close> and
  \<open>t\<close>\<^verbatim>\<open>Endpoint\<close> and its model; if that call throws, the handler's body throws the same
  error; otherwise it is the provider returned whose \<^verbatim>\<open>generateEmbeddings\<close> gets the query
  (the chunks' texts), whose error the body throws, and whose vectors go to the search
  (with the provider itself, to the steps on the store).

  As config.ts loads it, the configuration always names a provider (\<^verbatim>\<open>ollama\<close> when
  \<^verbatim>\<open>EMBEDDING_PROVIDER\<close> is unset or empty).
\<close>

theorem embedding_provider_resolution:
  "(embeddingProvider cfg \<noteq> [] \<longrightarrow>
        handleSearch env cfg svc (sargs\<lparr>sa_embeddingService := x\<rparr>) w = handleSearch env cfg svc sargs w
      \<and> handleAddDocuments env cfg svc (aargs\<lparr>ad_embeddingService := x\<rparr>) w
          = handleAddDocuments env cfg svc aargs w)
   \<and> (embeddingProvider cfg = [] \<and> \<not> truthy_str (sa_embeddingService sargs) \<longrightarrow>
        handleSearch_try env cfg svc sargs w
          = (Inl (McpError InvalidParams ''Embedding service not specified in config or arguments.''), w))
   \<and> (embeddingProvider cfg = [] \<and> \<not> truthy_str (ad_embeddingService aargs)
        \<and> ingest_chunks env cfg aargs w = (Inr chunks, wr) \<longrightarrow>
        handleAddDocuments_try env cfg svc aargs w
          = (Inl (McpError InvalidParams ''Embedding service not specified in config or arguments.''), wr))
   \<and> ((if embeddingProvider cfg \<noteq> [] then Some (embeddingProvider cfg) else sa_embeddingService sargs) = Some t
        \<and> t \<noteq> [] \<and> t \<notin> set allowedEmbeddingServices \<longrightarrow>
        handleSearch_try env cfg svc sargs w
          = (Inl (McpError InvalidParams (''Unsupported embedding service: '' @ t
                    @ ''. Allowed services are: openai, openrouter, fastembed, ollama'')), w))
   \<and> ((if embeddingProvider cfg \<noteq> [] then Some (embeddingProvider cfg) else ad_embeddingService aargs) = Some t
        \<and> t \<noteq> [] \<and> t \<notin> set allowedEmbeddingServices
        \<and> ingest_chunks env cfg aargs w = (Inr chunks, wr) \<longrightarrow>
        handleAddDocuments_try env cfg svc aargs w
          = (Inl (McpError InvalidParams (''Unsupported embedding service: '' @ t
                    @ ''. Allowed services are: openai, openrouter, fastembed, ollama'')), wr))
   \<and> ((if embeddingProvider cfg \<noteq> [] then Some (embeddingProvider cfg) else a) = Some t
        \<and> t \<in> set allowedEmbeddingServices \<longrightarrow>
        embeddingServiceType cfg a = Inr t)
   \<and> (handleSearch_try env cfg svc sargs w = (Inl e, wc) \<longrightarrow>
        handleSearch env cfg svc sargs w
          = (\<lparr> content_text = ''Error searching. Please check server logs for details.'', isError = True \<rparr>,
             wc\<lparr> logged := logged wc @ [(''Error in handleSearch:'', e)] \<rparr>))
   \<and> (handleAddDocuments_try env cfg svc aargs w = (Inl e, wc) \<longrightarrow>
        handleAddDocuments env cfg svc aargs w
          = (\<lparr> content_text = ''Error adding documents. Please check server logs for details.'', isError = True \<rparr>,
             wc\<lparr> logged := logged wc @ [(''Error in handleAddDocuments:'', e)] \<rparr>))
   \<and> embedding_config_for cfg t
        = \<lparr> ec_type = t, ec_apiKey = config_lookup cfg (t @ ''ApiKey''),
            ec_endpoint = config_lookup cfg (t @ ''Endpoint''), ec_model = embeddingModel cfg \<rparr>
   \<and> config_lookup cfg (''openai'' @ ''ApiKey'') = openaiApiKey cfg
   \<and> config_lookup cfg (''openai'' @ ''Endpoint'') = openaiEndpoint cfg
   \<and> config_lookup cfg (''openrouter'' @ ''ApiKey'') = openrouterApiKey cfg
   \<and> config_lookup cfg (''openrouter'' @ ''Endpoint'') = openrouterEndpoint cfg
   \<and> config_lookup cfg (''fastembed'' @ ''ApiKey'') = fastembedApiKey cfg
   \<and> config_lookup cfg (''fastembed'' @ ''Endpoint'') = fastembedEndpoint cfg
   \<and> config_lookup cfg (''ollama'' @ ''ApiKey'') = ollamaApiKey cfg
   \<and> config_lookup cfg (''ollama'' @ ''Endpoint'') = ollamaEndpoint cfg
   \<and> (embeddingServiceType cfg (sa_embeddingService sargs) = Inr t
        \<and> createEmbeddingService env (embedding_config_for cfg t) = Inl e \<longrightarrow>
        handleSearch_try env cfg svc sargs w = (Inl e, w))
   \<and> (embeddingServiceType cfg (sa_embeddingService sargs) = Inr t
        \<and> createEmbeddingService env (embedding_config_for cfg t) = Inr es
        \<and> es_generateEmbeddings es [sa_query sargs] = Inl e \<longrightarrow>
        handleSearch_try env cfg svc sargs w = (Inl e, w))
   \<and> (embeddingServiceType cfg (sa_embeddingService sargs) = Inr t
        \<and> createEmbeddingService env (embedding_config_for cfg t) = Inr es
        \<and> es_generateEmbeddings es [sa_query sargs] = Inr embs \<longrightarrow>
        handleSearch_try env cfg svc sargs w
          = bindS (search (global_fetch env) svc (sa_collection sargs)
                     (case embs of [] \<Rightarrow> JUndefined | q # rest \<Rightarrow> q) (sa_limit sargs))
                  (\<lambda>results. liftE (format_results (builtins env) results)) w)
   \<and> (ingest_chunks env cfg aargs w = (Inr chunks, wr)
        \<and> embeddingServiceType cfg (ad_embeddingService aargs) = Inr t
        \<and> createEmbeddingService env (embedding_config_for cfg t) = Inl e \<longrightarrow>
        handleAddDocuments_try env cfg svc aargs w = (Inl e, wr))
   \<and> (ingest_chunks env cfg aargs w = (Inr chunks, wr)
        \<and> embeddingServiceType cfg (ad_embeddingService aargs) = Inr t
        \<and> createEmbeddingService env (embedding_config_for cfg t) = Inr es
        \<and> es_generateEmbeddings es (map chunk_text chunks) = Inl e \<longrightarrow>
        handleAddDocuments_try env cfg svc aargs w = (Inl e, wr))
   \<and> (ingest_chunks env cfg aargs w = (Inr chunks, wr)
        \<and> embeddingServiceType cfg (ad_embeddingService aargs) = Inr t
        \<and> createEmbeddingService env (embedding_config_for cfg t) = Inr es
        \<and> es_generateEmbeddings es (map chunk_text chunks) = Inr embs \<longrightarrow>
        ingest_prepare env cfg aargs w = (Inr (chunks, es, embs), wr)
      \<and> handleAddDocuments_try env cfg svc aargs w
          = ingest_store env svc (ad_collection aargs) (chunks, es, embs) wr)
   \<and> embeddingProvider (load_appConfig penv) \<noteq> []"
proof (intro conjI impI)
  assume "embeddingProvider cfg \<noteq> []"
  then show "handleSearch env cfg svc (sargs\<lparr>sa_embeddingService := x\<rparr>) w = handleSearch env cfg svc sargs w"
    by (rule handleSearch_config_wins)
next
  assume "embeddingProvider cfg \<noteq> []"
  then show "handleAddDocuments env cfg svc (aargs\<lparr>ad_embeddingService := x\<rparr>) w
          = handleAddDocuments env cfg svc aargs w"
    by (rule handleAddDocuments_config_wins)
next
  assume "embeddingProvider cfg = [] \<and> \<not> truthy_str (sa_embeddingService sargs)"
  then have "embeddingServiceType cfg (sa_embeddingService sargs) = Inl not_specified"
    by (simp add: embeddingServiceType_neither)
  then show "handleSearch_try env cfg svc sargs w
          = (Inl (McpError InvalidParams ''Embedding service not specified in config or arguments.''), w)"
    unfolding not_specified_def by (rule handleSearch_try_provider_error)
next
  assume a: "embeddingProvider cfg = [] \<and> \<not> truthy_str (ad_embeddingService aargs)
        \<and> ingest_chunks env cfg aargs w = (Inr chunks, wr)"
  then have "embeddingServiceType cfg (ad_embeddingService aargs) = Inl not_specified"
    by (simp add: embeddingServiceType_neither)
  with a show "handleAddDocuments_try env cfg svc aargs w
          = (Inl (McpError InvalidParams ''Embedding service not specified in config or arguments.''), wr)"
    unfolding not_specified_def by (simp add: handleAddDocuments_try_provider_error)
next
  assume "(if embeddingProvider cfg \<noteq> [] then Some (embeddingProvider cfg) else sa_embeddingService sargs) = Some t
        \<and> t \<noteq> [] \<and> t \<notin> set allowedEmbeddingServices"
  then have "embeddingServiceType cfg (sa_embeddingService sargs) = Inl (unsupported t)"
    using embeddingServiceType_resolved [of cfg "sa_embeddingService sargs" t] by simp
  then show "handleSearch_try env cfg svc sargs w
          = (Inl (McpError InvalidParams (''Unsupported embedding service: '' @ t
                    @ ''. Allowed services are: openai, openrouter, fastembed, ollama'')), w)"
    unfolding unsupported_message by (rule handleSearch_try_provider_error)
next
  assume a: "(if embeddingProvider cfg \<noteq> [] then Some (embeddingProvider cfg) else ad_embeddingService aargs) = Some t
        \<and> t \<noteq> [] \<and> t \<notin> set allowedEmbeddingServices
        \<and> ingest_chunks env cfg aargs w = (Inr chunks, wr)"
  then have "embeddingServiceType cfg (ad_embeddingService aargs) = Inl (unsupported t)"
    using embeddingServiceType_resolved [of cfg "ad_embeddingService aargs" t] by simp
  with a show "handleAddDocuments_try env cfg svc aargs w
          = (Inl (McpError InvalidParams (''Unsupported embedding service: '' @ t
                    @ ''. Allowed services are: openai, openrouter, fastembed, ollama'')), wr)"
    unfolding unsupported_message by (simp add: handleAddDocuments_try_provider_error)
next
  assume a: "(if embeddingProvider cfg \<noteq> [] then Some (embeddingProvider cfg) else a) = Some t
        \<and> t \<in> set allowedEmbeddingServices"
  then have "t \<noteq> []" by (auto simp: allowedEmbeddingServices_def)
  with a show "embeddingServiceType cfg a = Inr t"
    using embeddingServiceType_resolved [of cfg a t] by simp
next
  assume "handleSearch_try env cfg svc sargs w = (Inl e, wc)"
  then show "handleSearch env cfg svc sargs w
          = (\<lparr> content_text = ''Error searching. Please check server logs for details.'', isError = True \<rparr>,
             wc\<lparr> logged := logged wc @ [(''Error in handleSearch:'', e)] \<rparr>)"
    by (simp add: handleSearch_def)
next
  assume "handleAddDocuments_try env cfg svc aargs w = (Inl e, wc)"
  then show "handleAddDocuments env cfg svc aargs w
          = (\<lparr> content_text = ''Error adding documents. Please check server logs for details.'', isError = True \<rparr>,
             wc\<lparr> logged := logged wc @ [(''Error in handleAddDocuments:'', e)] \<rparr>)"
    by (simp add: handleAddDocuments_def)
next
  show "embedding_config_for cfg t
        = \<lparr> ec_type = t, ec_apiKey = config_lookup cfg (t @ ''ApiKey''),
            ec_endpoint = config_lookup cfg (t @ ''Endpoint''), ec_model = embeddingModel cfg \<rparr>"
    by (simp add: embedding_config_for_def)
next
  show "config_lookup cfg (''openai'' @ ''ApiKey'') = openaiApiKey cfg"
    by (simp add: config_lookup_def)
next
  show "config_lookup cfg (''openai'' @ ''Endpoint'') = openaiEndpoint cfg"
    by (simp add: config_lookup_def)
next
  show "config_lookup cfg (''openrouter'' @ ''ApiKey'') = openrouterApiKey cfg"
    by (simp add: config_lookup_def)
next
  show "config_lookup cfg (''openrouter'' @ ''Endpoint'') = openrouterEndpoint cfg"
    by (simp add: config_lookup_def)
next
  show "config_lookup cfg (''fastembed'' @ ''ApiKey'') = fastembedApiKey cfg"
    by (simp add: config_lookup_def)
next
  show "config_lookup cfg (''fastembed'' @ ''Endpoint'') = fastembedEndpoint cfg"
    by (simp add: config_lookup_def)
next
  show "config_lookup cfg (''ollama'' @ ''ApiKey'') = ollamaApiKey cfg"
    by (simp add: config_lookup_def)
next
  show "config_lookup cfg (''ollama'' @ ''Endpoint'') = ollamaEndpoint cfg"
    by (simp add: config_lookup_def)
next
  assume "embeddingServiceType cfg (sa_embeddingService sargs) = Inr t
        \<and> createEmbeddingService env (embedding_config_for cfg t) = Inl e"
  then show "handleSearch_try env cfg svc sargs w = (Inl e, w)"
    by (simp add: handleSearch_try_created)
next
  assume "embeddingServiceType cfg (sa_embeddingService sargs) = Inr t
        \<and> createEmbeddingService env (embedding_config_for cfg t) = Inr es
        \<and> es_generateEmbeddings es [sa_query sargs] = Inl e"
  then show "handleSearch_try env cfg svc sargs w = (Inl e, w)"
    by (simp add: handleSearch_try_created)
next
  assume "embeddingServiceType cfg (sa_embeddingService sargs) = Inr t
        \<and> createEmbeddingService env (embedding_config_for cfg t) = Inr es
        \<and> es_generateEmbeddings es [sa_query sargs] = Inr embs"
  then show "handleSearch_try env cfg svc sargs w
          = bindS (search (global_fetch env) svc (sa_collection sargs)
                     (case embs of [] \<Rightarrow> JUndefined | q # rest \<Rightarrow> q) (sa_limit sargs))
                  (\<lambda>results. liftE (format_results (builtins env) results)) w"
    by (simp add: handleSearch_try_created)
next
  assume a: "ingest_chunks env cfg aargs w = (Inr chunks, wr)
        \<and> embeddingServiceType cfg (ad_embeddingService aargs) = Inr t
        \<and> createEmbeddingService env (embedding_config_for cfg t) = Inl e"
  then have "ingest_prepare env cfg aargs w = (Inl e, wr)"
    using ingest_prepare_created [of env cfg aargs w chunks wr t] by simp
  then show "handleAddDocuments_try env cfg svc aargs w = (Inl e, wr)"
    by (rule handleAddDocuments_try_unprepared)
next
  assume a: "ingest_chunks env cfg aargs w = (Inr chunks, wr)
        \<and> embeddingServiceType cfg (ad_embeddingService aargs) = Inr t
        \<and> createEmbeddingService env (embedding_config_for cfg t) = Inr es
        \<and> es_generateEmbeddings es (map chunk_text chunks) = Inl e"
  then have "ingest_prepare env cfg aargs w = (Inl e, wr)"
    using ingest_prepare_created [of env cfg aargs w chunks wr t] by simp
  then show "handleAddDocuments_try env cfg svc aargs w = (Inl e, wr)"
    by (rule handleAddDocuments_try_unprepared)
next
  assume a: "ingest_chunks env cfg aargs w = (Inr chunks, wr)
        \<and> embeddingServiceType cfg (ad_embeddingService aargs) = Inr t
        \<and> createEmbeddingService env (embedding_config_for cfg t) = Inr es
        \<and> es_generateEmbeddings es (map chunk_text chunks) = Inr embs"
  then show p: "ingest_prepare env cfg aargs w = (Inr (chunks, es, embs), wr)"
    using ingest_prepare_created [of env cfg aargs w chunks wr t] by simp
  then show "handleAddDocuments_try env cfg svc aargs w
          = ingest_store env svc (ad_collection aargs) (chunks, es, embs) wr"
    by (rule handleAddDocuments_try_stores)
next
  show "embeddingProvider (load_appConfig penv) \<noteq> []"
    by (rule load_appConfig_provider_nonempty)
qed

theorem embedding_provider_resolution_witness:
  "handleSearch example_env example_config example_service
       (example_searchArgs\<lparr>sa_embeddingService := Some ''openai''\<rparr>) (example_world [''docs''])
     = handleSearch example_env example_config example_service example_searchArgs (example_world [''docs''])
   \<and> handleAddDocuments example_env example_config example_service
       (example_addArgs\<lparr>ad_embeddingService := Some ''openai''\<rparr>) (example_world [''docs''])
     = handleAddDocuments example_env example_config example_service example_addArgs (example_world [''docs''])
   \<and> handleSearch_try example_env (example_config\<lparr> embeddingProvider := [] \<rparr>) example_service
       example_searchArgs (example_world [''docs''])
     = (Inl (McpError InvalidParams ''Embedding service not specified in config or arguments.''),
        example_world [''docs''])
   \<and> handleAddDocuments_try example_env (example_config\<lparr> embeddingProvider := [] \<rparr>) example_service
       example_addArgs (example_world [''docs''])
     = (Inl (McpError InvalidParams ''Embedding service not specified in config or arguments.''),
        (example_world [''docs''])\<lparr> reads := [''/tmp/mcp-uploads/notes.txt''] \<rparr>)
   \<and> handleSearch_try example_env (example_config\<lparr> embeddingProvider := ''cohere'' \<rparr>) example_service
       example_searchArgs (example_world [''docs''])
     = (Inl (McpError InvalidParams
          ''Unsupported embedding service: cohere. Allowed services are: openai, openrouter, fastembed, ollama''),
        example_world [''docs''])
   \<and> handleAddDocuments_try example_env (example_config\<lparr> embeddingProvider := ''cohere'' \<rparr>) example_service
       example_addArgs (example_world [''docs''])
     = (Inl (McpError InvalidParams
          ''Unsupported embedding service: cohere. Allowed services are: openai, openrouter, fastembed, ollama''),
        (example_world [''docs''])\<lparr> reads := [''/tmp/mcp-uploads/notes.txt''] \<rparr>)
   \<and> embeddingServiceType (example_config\<lparr> embeddingProvider := [] \<rparr>) (Some ''openai'') = Inr ''openai''
   \<and> handleSearch example_env (example_config\<lparr> embeddingProvider := [] \<rparr>) example_service
       example_searchArgs (example_world [''docs''])
     = (\<lparr> content_text = ''Error searching. Please check server logs for details.'', isError = True \<rparr>,
        (example_world [''docs''])\<lparr> logged := [(''Error in handleSearch:'',
           McpError InvalidParams ''Embedding service not specified in config or arguments.'')] \<rparr>)
   \<and> handleAddDocuments example_env (example_config\<lparr> embeddingProvider := [] \<rparr>) example_service
       example_addArgs (example_world [''docs''])
     = (\<lparr> content_text = ''Error adding documents. Please check server logs for details.'', isError = True \<rparr>,
        (example_world [''docs''])\<lparr> reads := [''/tmp/mcp-uploads/notes.txt''],
           logged := [(''Error in handleAddDocuments:'',
             McpError InvalidParams ''Embedding service not specified in config or arguments.'')] \<rparr>)
   \<and> handleSearch_try (example_env\<lparr> createEmbeddingService := picky_factory \<rparr>) example_config example_service
       example_searchArgs (example_world [''docs''])
     = (Inl (McpError InvalidParams ''Ollama endpoint is required''), example_world [''docs''])
   \<and> handleAddDocuments_try (example_env\<lparr> createEmbeddingService := picky_factory \<rparr>) example_config
       example_service example_addArgs (example_world [''docs''])
     = (Inl (McpError InvalidParams ''Ollama endpoint is required''),
        (example_world [''docs''])\<lparr> reads := [''/tmp/mcp-uploads/notes.txt''] \<rparr>)
   \<and> handleSearch_try (example_env\<lparr> createEmbeddingService := mute_factory \<rparr>) example_config example_service
       example_searchArgs (example_world [''docs''])
     = (Inl (McpError InternalError ''Invalid response from Ollama API''), example_world [''docs''])
   \<and> handleAddDocuments_try (example_env\<lparr> createEmbeddingService := mute_factory \<rparr>) example_config
       example_service example_addArgs (example_world [''docs''])
     = (Inl (McpError InternalError ''Invalid response from Ollama API''),
        (example_world [''docs''])\<lparr> reads := [''/tmp/mcp-uploads/notes.txt''] \<rparr>)
   \<and> handleSearch_try example_env example_config example_service example_searchArgs (example_world [''docs''])
     = bindS (search example_fetch example_service ''docs'' example_vector None)
             (\<lambda>results. liftE (format_results example_builtins results)) (example_world [''docs''])
   \<and> ingest_prepare example_env example_config example_addArgs (example_world [''docs''])
     = (Inr ([example_chunk], example_embedding_service, [example_vector]),
        (example_world [''docs''])\<lparr> reads := [''/tmp/mcp-uploads/notes.txt''] \<rparr>)
   \<and> handleAddDocuments_try example_env example_config example_service example_addArgs (example_world [''docs''])
     = ingest_store example_env example_service ''docs''
         ([example_chunk], example_embedding_service, [example_vector])
         ((example_world [''docs''])\<lparr> reads := [''/tmp/mcp-uploads/notes.txt''] \<rparr>)
   \<and> embedding_config_for example_config ''ollama''
     = \<lparr> ec_type = ''ollama'', ec_apiKey = None, ec_endpoint = Some ''http://localhost:11434'',
         ec_model = None \<rparr>"
proof -
  let ?w = "example_world [''docs'']"
  let ?w1 = "(example_world [''docs''])\<lparr> reads := [''/tmp/mcp-uploads/notes.txt''] \<rparr>"
  let ?none = "example_config\<lparr> embeddingProvider := [] \<rparr>"
  let ?bad = "example_config\<lparr> embeddingProvider := ''cohere'' \<rparr>"
  let ?e = "McpError InvalidParams ''Embedding service not specified in config or arguments.''"
  have cfg: "embeddingProvider example_config \<noteq> []"
    by (simp add: example_config_def load_appConfig_provider_nonempty)
  have none: "embeddingProvider ?none = []" by simp
  have args: "\<not> truthy_str (sa_embeddingService example_searchArgs)"
             "\<not> truthy_str (ad_embeddingService example_addArgs)"
    by (simp_all add: example_searchArgs_def example_addArgs_def truthy_str_def)
  have bad: "(if embeddingProvider ?bad \<noteq> [] then Some (embeddingProvider ?bad)
              else sa_embeddingService example_searchArgs) = Some ''cohere''"
            "(if embeddingProvider ?bad \<noteq> [] then Some (embeddingProvider ?bad)
              else ad_embeddingService example_addArgs) = Some ''cohere''"
            "''cohere'' \<notin> set allowedEmbeddingServices"
    by (simp_all add: allowedEmbeddingServices_def)
  have good: "(if embeddingProvider ?none \<noteq> [] then Some (embeddingProvider ?none) else Some ''openai'')
                = Some ''openai''"
             "''openai'' \<in> set allowedEmbeddingServices"
    by (simp_all add: allowedEmbeddingServices_def)
  note T1 = embedding_provider_resolution [where cfg = example_config and env = example_env
      and svc = example_service and sargs = example_searchArgs and aargs = example_addArgs
      and x = "Some ''openai''" and w = ?w]
  note T2 = embedding_provider_resolution [where cfg = ?none and env = example_env
      and svc = example_service and sargs = example_searchArgs and aargs = example_addArgs
      and w = ?w and wr = ?w1 and chunks = "[example_chunk]" and a = "Some ''openai''" and t = "''openai''"
      and e = ?e]
  note T3 = embedding_provider_resolution [where cfg = ?bad and env = example_env
      and svc = example_service and sargs = example_searchArgs and aargs = example_addArgs
      and w = ?w and wr = ?w1 and chunks = "[example_chunk]" and t = "''cohere''"]
  have A: "handleSearch example_env example_config example_service
       (example_searchArgs\<lparr>sa_embeddingService := Some ''openai''\<rparr>) ?w
     = handleSearch example_env example_config example_service example_searchArgs ?w"
   and B: "handleAddDocuments example_env example_config example_service
       (example_addArgs\<lparr>ad_embeddingService := Some ''openai''\<rparr>) ?w
     = handleAddDocuments example_env example_config example_service example_addArgs ?w"
    using T1 cfg by blast+
  have C: "handleSearch_try example_env ?none example_service example_searchArgs ?w = (Inl ?e, ?w)"
    using T2 none args by blast
  have D: "handleAddDocuments_try example_env ?none example_service example_addArgs ?w = (Inl ?e, ?w1)"
    using T2 none args example_ingest_chunks [of "[]" "[''docs'']"] by blast
  have E: "handleSearch_try example_env ?bad example_service example_searchArgs ?w
     = (Inl (McpError InvalidParams (''Unsupported embedding service: '' @ ''cohere''
                    @ ''. Allowed services are: openai, openrouter, fastembed, ollama'')), ?w)"
    using T3 bad by blast
  have F: "handleAddDocuments_try example_env ?bad example_service example_addArgs ?w
     = (Inl (McpError InvalidParams (''Unsupported embedding service: '' @ ''cohere''
                    @ ''. Allowed services are: openai, openrouter, fastembed, ollama'')), ?w1)"
    using T3 bad example_ingest_chunks [of "''cohere''" "[''docs'']"] by blast
  have G: "embeddingServiceType ?none (Some ''openai'') = Inr ''openai''"
    using T2 good by blast
  have H: "handleSearch example_env ?none example_service example_searchArgs ?w
     = (\<lparr> content_text = ''Error searching. Please check server logs for details.'', isError = True \<rparr>,
        ?w\<lparr> logged := logged ?w @ [(''Error in handleSearch:'', ?e)] \<rparr>)"
    using embedding_provider_resolution [where cfg = ?none and env = example_env
      and svc = example_service and sargs = example_searchArgs and w = ?w and wc = ?w and e = ?e] C
    by blast
  have I: "handleAddDocuments example_env ?none example_service example_addArgs ?w
     = (\<lparr> content_text = ''Error adding documents. Please check server logs for details.'', isError = True \<rparr>,
        ?w1\<lparr> logged := logged ?w1 @ [(''Error in handleAddDocuments:'', ?e)] \<rparr>)"
    using embedding_provider_resolution [where cfg = ?none and env = example_env
      and svc = example_service and aargs = example_addArgs and w = ?w and wc = ?w1 and e = ?e] D
    by blast
  let ?envp = "example_env\<lparr> createEmbeddingService := picky_factory \<rparr>"
  let ?envm = "example_env\<lparr> createEmbeddingService := mute_factory \<rparr>"
  let ?ep = "McpError InvalidParams ''Ollama endpoint is required''"
  have st: "embeddingServiceType example_config (sa_embeddingService example_searchArgs) = Inr ''ollama''"
    using example_provider by (simp add: example_searchArgs_def)
  have at: "embeddingServiceType example_config (ad_embeddingService example_addArgs) = Inr ''ollama''"
    using example_provider by (simp add: example_addArgs_def)
  have ty: "ec_type (embedding_config_for example_config ''ollama'') = ''ollama''"
    by (simp add: embedding_config_for_def)
  have pf: "createEmbeddingService ?envp (embedding_config_for example_config ''ollama'') = Inl ?ep"
    using ty by (simp add: picky_factory_def)
  have mf: "createEmbeddingService ?envm (embedding_config_for example_config ''ollama'') = Inr mute_service"
    using ty by (simp add: mute_factory_def)
  have ef: "createEmbeddingService example_env (embedding_config_for example_config ''ollama'')
              = Inr example_embedding_service"
    by (simp add: example_env_def)
  have mg: "es_generateEmbeddings mute_service [sa_query example_searchArgs] = Inl invalid_response"
           "es_generateEmbeddings mute_service (map chunk_text [example_chunk]) = Inl invalid_response"
    by (simp_all add: mute_service_def)
  have eg: "es_generateEmbeddings example_embedding_service [sa_query example_searchArgs] = Inr [example_vector]"
           "es_generateEmbeddings example_embedding_service (map chunk_text [example_chunk]) = Inr [example_vector]"
    by (simp_all add: example_embedding_service_def)
  have cp: "ingest_chunks ?envp example_config example_addArgs ?w = (Inr [example_chunk], ?w1)"
    by (rule example_ingest_chunks_factory)
  have cm: "ingest_chunks ?envm example_config example_addArgs ?w = (Inr [example_chunk], ?w1)"
    by (rule example_ingest_chunks_factory)
  have ce: "ingest_chunks example_env example_config example_addArgs ?w = (Inr [example_chunk], ?w1)"
    using example_ingest_chunks [of "embeddingProvider example_config" "[''docs'']"] by simp
  note T4 = embedding_provider_resolution [where cfg = example_config and env = ?envp
      and svc = example_service and sargs = example_searchArgs and aargs = example_addArgs
      and w = ?w and wr = ?w1 and chunks = "[example_chunk]" and t = "''ollama''" and e = ?ep]
  note T5 = embedding_provider_resolution [where cfg = example_config and env = ?envm
      and svc = example_service and sargs = example_searchArgs and aargs = example_addArgs
      and w = ?w and wr = ?w1 and chunks = "[example_chunk]" and t = "''ollama''" and e = invalid_response
      and es = mute_service]
  note T6 = embedding_provider_resolution [where cfg = example_config and env = example_env
      and svc = example_service and sargs = example_searchArgs and aargs = example_addArgs
      and w = ?w and wr = ?w1 and chunks = "[example_chunk]" and t = "''ollama''"
      and es = example_embedding_service and embs = "[example_vector]"]
  have J: "handleSearch_try ?envp example_config example_service example_searchArgs ?w = (Inl ?ep, ?w)"
    using T4 st pf by simp
  have K: "handleAddDocuments_try ?envp example_config example_service example_addArgs ?w = (Inl ?ep, ?w1)"
    using T4 at pf cp by simp
  have L: "handleSearch_try ?envm example_config example_service example_searchArgs ?w = (Inl invalid_response, ?w)"
    using T5 st mf mg(1) by simp
  have M: "handleAddDocuments_try ?envm example_config example_service example_addArgs ?w
             = (Inl invalid_response, ?w1)"
    using T5 at mf mg(2) cm by simp
  have N: "handleSearch_try example_env example_config example_service example_searchArgs ?w
     = bindS (search (global_fetch example_env) example_service (sa_collection example_searchArgs)
                (case [example_vector] of [] \<Rightarrow> JUndefined | q # rest \<Rightarrow> q) (sa_limit example_searchArgs))
             (\<lambda>results. liftE (format_results (builtins example_env) results)) ?w"
    using T6 st ef eg(1) by simp
  have O: "ingest_prepare example_env example_config example_addArgs ?w
             = (Inr ([example_chunk], example_embedding_service, [example_vector]), ?w1)
           \<and> handleAddDocuments_try example_env example_config example_service example_addArgs ?w
             = ingest_store example_env example_service (ad_collection example_addArgs)
                 ([example_chunk], example_embedding_service, [example_vector]) ?w1"
    using T6 at ef eg(2) ce by simp
  have P: "embedding_config_for example_config ''ollama''
        = \<lparr> ec_type = ''ollama'', ec_apiKey = config_lookup example_config (''ollama'' @ ''ApiKey''),
            ec_endpoint = config_lookup example_config (''ollama'' @ ''Endpoint''),
            ec_model = embeddingModel example_config \<rparr>"
    using T6 by simp
  have Q: "config_lookup example_config (''ollama'' @ ''ApiKey'') = None"
          "config_lookup example_config (''ollama'' @ ''Endpoint'') = Some ''http://localhost:11434''"
          "embeddingModel example_config = None"
    by (simp_all add: config_lookup_def example_config_def load_appConfig_def or_default_def truthy_str_def)
  have R: "global_fetch example_env = example_fetch" "builtins example_env = example_builtins"
          "sa_collection example_searchArgs = ''docs''" "sa_limit example_searchArgs = None"
          "ad_collection example_addArgs = ''docs''"
    by (simp_all add: example_env_def example_searchArgs_def example_addArgs_def)
  show ?thesis
    using A B C D E F G H I J K L M N O P Q R by (simp add: example_world_def invalid_response_def)
qed

subsection \<open>Ingestion: what each step does to the world\<close>

lemma fetch_json_snd:
  "snd (fetch_json fetch req w) = w\<lparr> backend := snd (fetch req (backend w)), requests := requests w @ [req] \<rparr>"
proof (cases "fetch req (backend w)")
  case (Pair r b')
  then show ?thesis
    by (cases r) (simp_all add: fetch_json_def Let_def)
qed

lemma fetch_json_world:
  assumes "fetch_json fetch req w = (r, w')"
  shows "requests w' = requests w @ [req]" and "uuid_count w' = uuid_count w"
proof -
  have "w' = snd (fetch_json fetch req w)" using assms by simp
  then show "requests w' = requests w @ [req]" and "uuid_count w' = uuid_count w"
    by (simp_all add: fetch_json_snd)
qed

lemma listCollections_world:
  assumes "listCollections fetch svc w = (r, w')"
  shows "requests w' = requests w @ [list_request svc]" and "uuid_count w' = uuid_count w"
proof -
  have "w' = snd (fetch_json fetch (list_request svc) w)"
    using assms by (auto simp: listCollections_def split_def Let_def)
  then show "requests w' = requests w @ [list_request svc]" and "uuid_count w' = uuid_count w"
    by (simp_all add: fetch_json_snd)
qed

lemma createCollection_world:
  assumes "createCollection fetch svc name vsize w = (r, w')"
  shows "requests w' = requests w @ [create_request svc name vsize]" and "uuid_count w' = uuid_count w"
proof -
  have "w' = snd (fetch_json fetch (create_request svc name vsize) w)"
    using assms by (auto simp: createCollection_def split_def Let_def)
  then show "requests w' = requests w @ [create_request svc name vsize]" and "uuid_count w' = uuid_count w"
    by (simp_all add: fetch_json_snd)
qed

lemma addDocuments_world:
  assumes "addDocuments fetch svc name pts w = (r, w')"
  shows "requests w' = requests w @ [upsert_request svc name pts]" and "uuid_count w' = uuid_count w"
proof -
  have "w' = snd (fetch_json fetch (upsert_request svc name pts) w)"
    using assms by (auto simp: addDocuments_def split_def Let_def)
  then show "requests w' = requests w @ [upsert_request svc name pts]" and "uuid_count w' = uuid_count w"
    by (simp_all add: fetch_json_snd)
qed

lemma configure_chunking_world:
  assumes "configure_chunking env args w = (r, w')"
  shows "requests w' = requests w" and "uuid_count w' = uuid_count w" and "backend w' = backend w"
  using assms by (auto simp: configure_chunking_def Let_def split: option.splits sum.splits if_splits)

lemma read_upload_world:
  assumes "read_upload env cfg p w = (r, w')"
  shows "requests w' = requests w" and "uuid_count w' = uuid_count w" and "backend w' = backend w"
  using assms by (auto simp: read_upload_def Let_def split: sum.splits)

lemma ingest_chunks_world:
  assumes "ingest_chunks env cfg args w = (r, w')"
  shows "requests w' = requests w" and "uuid_count w' = uuid_count w" and "backend w' = backend w"
proof -
  obtain r1 w1 where c: "configure_chunking env args w = (r1, w1)" by force
  obtain r2 w2 where u: "read_upload env cfg (ad_filePath args) w1 = (r2, w2)" by force
  note c' = configure_chunking_world [OF c] and u' = read_upload_world [OF u]
  have "requests w' = requests w \<and> uuid_count w' = uuid_count w \<and> backend w' = backend w"
    using assms c u c' u'
    by (cases r1; cases r2) (auto simp: ingest_chunks_def bindS_def split: prod.splits)
  then show "requests w' = requests w" and "uuid_count w' = uuid_count w" and "backend w' = backend w"
    by simp_all
qed

lemma ingest_prepare_world:
  assumes "ingest_prepare env cfg args w = (r, w')"
  shows "requests w' = requests w" and "uuid_count w' = uuid_count w" and "backend w' = backend w"
proof -
  obtain r1 w1 where c: "ingest_chunks env cfg args w = (r1, w1)" by force
  note c' = ingest_chunks_world [OF c]
  have "w' = w1"
    using assms c by (cases r1) (auto simp: ingest_prepare_def bindS_def)
  then show "requests w' = requests w" and "uuid_count w' = uuid_count w" and "backend w' = backend w"
    using c' by simp_all
qed

lemma map_fst_enumerate: "map (\<lambda>p. f (fst p)) (zip [0 ..< length ys] ys) = map f [0 ..< length ys]"
proof -
  have "map (\<lambda>p. f (fst p)) (zip [0 ..< length ys] ys) = map f (map fst (zip [0 ..< length ys] ys))"
    by (simp only: map_map o_def)
  also have "map fst (zip [0 ..< length ys] ys) = [0 ..< length ys]"
    by (rule map_fst_zip) simp
  finally show ?thesis .
qed

lemma map_snd_enumerate: "map (\<lambda>p. f (snd p)) (zip [0 ..< length ys] ys) = map f ys"
proof -
  have "map (\<lambda>p. f (snd p)) (zip [0 ..< length ys] ys) = map f (map snd (zip [0 ..< length ys] ys))"
    by (simp only: map_map o_def)
  also have "map snd (zip [0 ..< length ys] ys) = ys"
    by (rule map_snd_zip) simp
  finally show ?thesis .
qed

lemma assemble_points_ids:
  "map point_id (assemble_points uuid c chunks embs) = map uuid [c ..< c + length chunks]"
proof -
  have "map point_id (assemble_points uuid c chunks embs)
          = map (\<lambda>p. uuid (c + fst p)) (zip [0 ..< length chunks] chunks)"
    by (simp add: assemble_points_def enumerate_eq_zip split_def o_def)
  also have "\<dots> = map (\<lambda>i. uuid (c + i)) [0 ..< length chunks]"
    by (rule map_fst_enumerate)
  also have "\<dots> = map uuid (map (\<lambda>i. i + c) [0 ..< length chunks])"
    by (simp add: o_def add.commute)
  also have "map (\<lambda>i. i + c) [0 ..< length chunks] = [c ..< c + length chunks]"
    using map_add_upt [of c "length chunks"] by (simp add: add.commute)
  finally show ?thesis .
qed

lemma assemble_points_payloads:
  "map point_payload (assemble_points uuid c chunks embs) = map chunk_payload chunks"
proof -
  have "map point_payload (assemble_points uuid c chunks embs)
          = map (\<lambda>p. chunk_payload (snd p)) (zip [0 ..< length chunks] chunks)"
    by (simp add: assemble_points_def enumerate_eq_zip split_def o_def)
  also have "\<dots> = map chunk_payload chunks"
    by (rule map_snd_enumerate)
  finally show ?thesis .
qed

lemma upsert_points_other:
  "k \<notin> point_id ` set pts \<Longrightarrow> upsert_points pts m k = m k"
  unfolding upsert_points_def by (induction pts arbitrary: m) auto

lemma dom_upsert_points:
  "dom (upsert_points pts m) = dom m \<union> point_id ` set pts"
  unfolding upsert_points_def by (induction pts arbitrary: m) auto

lemma ingest_store_cases [case_names list_fails create_fails created present]:
  assumes "\<And>e wl. listCollections (global_fetch env) svc wp = (Inl e, wl) \<Longrightarrow>
             ingest_store env svc coll (chunks, es, embs) wp = (Inl e, wl) \<Longrightarrow> P"
    and "\<And>cols wl e wc. listCollections (global_fetch env) svc wp = (Inr cols, wl) \<Longrightarrow>
             JStr coll \<notin> set cols \<Longrightarrow>
             createCollection (global_fetch env) svc coll (es_vectorSize es) wl = (Inl e, wc) \<Longrightarrow>
             ingest_store env svc coll (chunks, es, embs) wp = (Inl e, wc) \<Longrightarrow> P"
    and "\<And>cols wl wc r wa. listCollections (global_fetch env) svc wp = (Inr cols, wl) \<Longrightarrow>
             JStr coll \<notin> set cols \<Longrightarrow>
             createCollection (global_fetch env) svc coll (es_vectorSize es) wl = (Inr (), wc) \<Longrightarrow>
             addDocuments (global_fetch env) svc coll (assemble_points (uuidv4 env) (uuid_count wc) chunks embs)
                (wc\<lparr> uuid_count := uuid_count wc + length chunks \<rparr>) = (r, wa) \<Longrightarrow>
             ingest_store env svc coll (chunks, es, embs) wp = (bindE r (\<lambda>u. Inr (length chunks)), wa) \<Longrightarrow> P"
    and "\<And>cols wl r wa. listCollections (global_fetch env) svc wp = (Inr cols, wl) \<Longrightarrow>
             JStr coll \<in> set cols \<Longrightarrow>
             addDocuments (global_fetch env) svc coll (assemble_points (uuidv4 env) (uuid_count wl) chunks embs)
                (wl\<lparr> uuid_count := uuid_count wl + length chunks \<rparr>) = (r, wa) \<Longrightarrow>
             ingest_store env svc coll (chunks, es, embs) wp = (bindE r (\<lambda>u. Inr (length chunks)), wa) \<Longrightarrow> P"
  shows P
proof -
  obtain rl wl where l: "listCollections (global_fetch env) svc wp = (rl, wl)" by force
  show P
  proof (cases rl)
    case (Inl e)
    with l show P
      by (intro assms(1) [of e wl]) (simp_all add: ingest_store_def bindS_def)
  next
    case (Inr cols)
    note l' = l [unfolded Inr]
    show P
    proof (cases "JStr coll \<in> set cols")
      case True
      obtain r wa where a: "addDocuments (global_fetch env) svc coll
                (assemble_points (uuidv4 env) (uuid_count wl) chunks embs)
                (wl\<lparr> uuid_count := uuid_count wl + length chunks \<rparr>) = (r, wa)" by force
      have "ingest_store env svc coll (chunks, es, embs) wp = (bindE r (\<lambda>u. Inr (length chunks)), wa)"
        using l' True a by (cases r) (simp_all add: ingest_store_def bindS_def)
      with l' True a show P by (rule assms(4))
    next
      case False
      obtain rc wc where c: "createCollection (global_fetch env) svc coll (es_vectorSize es) wl = (rc, wc)"
        by force
      show P
      proof (cases rc)
        case (Inl e)
        have "ingest_store env svc coll (chunks, es, embs) wp = (Inl e, wc)"
          using l' False c Inl by (simp add: ingest_store_def bindS_def)
        with l' False c [unfolded Inl] show P by (rule assms(2))
      next
        case (Inr u)
        obtain r wa where a: "addDocuments (global_fetch env) svc coll
                (assemble_points (uuidv4 env) (uuid_count wc) chunks embs)
                (wc\<lparr> uuid_count := uuid_count wc + length chunks \<rparr>) = (r, wa)" by force
        have c': "createCollection (global_fetch env) svc coll (es_vectorSize es) wl = (Inr (), wc)"
          using c Inr by simp
        have "ingest_store env svc coll (chunks, es, embs) wp = (bindE r (\<lambda>u. Inr (length chunks)), wa)"
          using l' False c' a by (cases r) (simp_all add: ingest_store_def bindS_def)
        with l' False c' a show P by (rule assms(3))
      qed
    qed
  qed
qed

lemma handleAddDocuments_try_prepared:
  "ingest_prepare env cfg args w = (Inr p, wp) \<Longrightarrow>
     handleAddDocuments_try env cfg svc args w = ingest_store env svc (ad_collection args) p wp"
  by (simp add: handleAddDocuments_try_def bindS_def)


subsection \<open>Ingestion: creating the collection\<close>

text \<open>
  C7. Take a call of \<open>handleAddDocuments\<close> that gets as far as the store (the file is
  read and chunked, the provider built, the embeddings computed) and whose
  \<open>listCollections\<close> returns \<open>cols\<close>. When the collection's name is not in \<open>cols\<close>,
  the next request creates the collection with the provider's \<open>vectorSize\<close>, and the
  upsert of the points follows it if the creation succeeds (if it fails, the call fails
  with that error and nothing is upserted). When the name is in \<open>cols\<close>, the upsert
  follows the listing at once, and no request of the call is a \<^verbatim>\<open>PUT\<close> to the
  collection's URL.
\<close>

theorem ingest_creates_collection_iff_absent:
  assumes prep: "ingest_prepare env cfg args w = (Inr (chunks, es, embs), wp)"
      and lst: "listCollections (global_fetch env) svc wp = (Inr cols, wl)"
  shows "(JStr (ad_collection args) \<notin> set cols
          \<and> fst (createCollection (global_fetch env) svc (ad_collection args) (es_vectorSize es) wl) = Inr () \<longrightarrow>
            requests (snd (handleAddDocuments_try env cfg svc args w))
              = requests w @ [list_request svc,
                              create_request svc (ad_collection args) (es_vectorSize es),
                              upsert_request svc (ad_collection args)
                                (assemble_points (uuidv4 env) (uuid_count w) chunks embs)])
       \<and> (JStr (ad_collection args) \<notin> set cols
          \<and> fst (createCollection (global_fetch env) svc (ad_collection args) (es_vectorSize es) wl) = Inl e \<longrightarrow>
            fst (handleAddDocuments_try env cfg svc args w) = Inl e
          \<and> requests (snd (handleAddDocuments_try env cfg svc args w))
              = requests w @ [list_request svc, create_request svc (ad_collection args) (es_vectorSize es)])
       \<and> (JStr (ad_collection args) \<in> set cols \<longrightarrow>
            requests (snd (handleAddDocuments_try env cfg svc args w))
              = requests w @ [list_request svc,
                              upsert_request svc (ad_collection args)
                                (assemble_points (uuidv4 env) (uuid_count w) chunks embs)]
          \<and> (\<forall>r \<in> set (drop (length (requests w)) (requests (snd (handleAddDocuments_try env cfg svc args w)))).
                \<not> (req_method r = PUT \<and> req_url r = svc_url svc @ ''/collections/'' @ ad_collection args)))"
proof -
  let ?coll = "ad_collection args"
  let ?run = "handleAddDocuments_try env cfg svc args w"
  have run: "?run = ingest_store env svc ?coll (chunks, es, embs) wp"
    using prep by (rule handleAddDocuments_try_prepared)
  note p = ingest_prepare_world [OF prep]
  note l = listCollections_world [OF lst]
  show ?thesis
  proof (cases rule: ingest_store_cases [of env svc wp ?coll chunks es embs])
    case (list_fails e' wl')
    then show ?thesis using lst by simp
  next
    case (create_fails cols' wl' e' wc)
    then have eq: "cols' = cols" "wl' = wl" using lst by simp_all
    note c = createCollection_world [OF create_fails(3)]
    show ?thesis
      using create_fails eq c l p run by simp
  next
    case (created cols' wl' wc r wa)
    then have eq: "cols' = cols" "wl' = wl" using lst by simp_all
    note c = createCollection_world [OF created(3)]
    note a = addDocuments_world [OF created(4)]
    show ?thesis
      using created eq c a l p run by simp
  next
    case (present cols' wl' r wa)
    then have eq: "cols' = cols" "wl' = wl" using lst by simp_all
    note a = addDocuments_world [OF present(3)]
    have "requests (snd ?run) = requests w @ [list_request svc,
            upsert_request svc ?coll (assemble_points (uuidv4 env) (uuid_count w) chunks embs)]"
      using present eq a l p run by simp
    moreover have "req_method (list_request svc) \<noteq> PUT"
      by (simp add: list_request_def)
    moreover have "req_url (upsert_request svc ?coll (assemble_points (uuidv4 env) (uuid_count w) chunks embs))
                    \<noteq> svc_url svc @ ''/collections/'' @ ?coll"
      by (simp add: upsert_request_def)
    ultimately show ?thesis
      using present(2) eq by simp
  qed
qed


text \<open>The example environment, step by step.\<close>

lemma string_of_nat_digit: "n < 10 \<Longrightarrow> string_of_nat n = [digit_char n]"
  by (simp add: string_of_nat.simps)

lemma example_prepare:
  "ingest_prepare (example_env\<lparr> global_fetch := f \<rparr>) example_config example_addArgs W
     = (Inr ([example_chunk], example_embedding_service, [example_vector]),
        W\<lparr> reads := reads W @ [''/tmp/mcp-uploads/notes.txt''] \<rparr>)"
  by (simp add: ingest_prepare_def ingest_chunks_def ingest_embed_def bindS_def configure_chunking_def
      example_addArgs_def read_upload_def
      sanitizeFilePath_def example_config_def load_appConfig_def or_default_def truthy_str_def
      path_resolve_def isAbsolute_def normalizeString_def normalize_step_def startsWith_def Let_def
      example_env_def example_chunk_def embeddingServiceType_def allowedEmbeddingServices_def
      example_embedding_service_def)

lemma example_env_fetch: "example_env\<lparr> global_fetch := example_fetch \<rparr> = example_env"
  by (simp add: example_env_def)

lemma example_list:
  "backend W = [] \<Longrightarrow> listCollections example_fetch example_service W
     = (Inr [], W\<lparr> requests := requests W @ [list_request example_service] \<rparr>)"
  "backend W = [''docs''] \<Longrightarrow> listCollections example_fetch example_service W
     = (Inr [JStr ''docs''], W\<lparr> requests := requests W @ [list_request example_service] \<rparr>)"
  "backend W = [] \<Longrightarrow> listCollections refusing_fetch example_service W
     = (Inr [], W\<lparr> requests := requests W @ [list_request example_service] \<rparr>)"
  by (simp_all add: listCollections_def fetch_json_def example_fetch_def refusing_fetch_def list_request_def
      collection_names_def lookup_prop_def Let_def)

lemma example_create:
  "createCollection example_fetch example_service ''docs'' 768 W
     = (Inr (), W\<lparr> requests := requests W @ [create_request example_service ''docs'' 768] \<rparr>)"
  "createCollection refusing_fetch example_service ''docs'' 768 W
     = (Inl (Error ''HTTP error! Status: 500''),
        W\<lparr> requests := requests W @ [create_request example_service ''docs'' 768] \<rparr>)"
  by (simp_all add: createCollection_def fetch_json_def example_fetch_def refusing_fetch_def create_request_def
      Let_def string_of_nat.simps digit_char_def)

lemma example_points:
  "assemble_points (uuidv4 example_env) c [example_chunk] [example_vector]
     = [example_point (''id-'' @ string_of_nat c)]"
  by (simp add: assemble_points_def enumerate_eq_zip example_env_def example_chunk_def example_point_def
      chunk_payload_def)

lemma example_upsert:
  "addDocuments example_fetch example_service ''docs'' pts W
     = (Inr (), W\<lparr> requests := requests W @ [upsert_request example_service ''docs'' pts] \<rparr>)"
  by (simp add: addDocuments_def fetch_json_def example_fetch_def upsert_request_def Let_def)

lemma example_run_created:
  assumes "backend W = []"
  shows "handleAddDocuments_try example_env example_config example_service example_addArgs W
     = (Inr 1, W\<lparr> requests := requests W @ [list_request example_service,
                         create_request example_service ''docs'' 768,
                         upsert_request example_service ''docs'' [example_point (''id-'' @ string_of_nat (uuid_count W))]],
                    reads := reads W @ [''/tmp/mcp-uploads/notes.txt''],
                    uuid_count := uuid_count W + 1 \<rparr>)"
proof -
  have ad: "ad_collection example_addArgs = ''docs''" by (simp add: example_addArgs_def)
  have f: "global_fetch example_env = example_fetch" by (simp add: example_env_def)
  have v: "es_vectorSize example_embedding_service = 768" by (simp add: example_embedding_service_def)
  show ?thesis
    using assms example_prepare [of example_fetch W]
    by (simp add: example_env_fetch handleAddDocuments_try_def bindS_def ingest_store_def ad f v
        example_list example_create example_points example_upsert)
qed

theorem ingest_creates_collection_iff_absent_witness:
  "requests (snd (handleAddDocuments_try example_env example_config example_service example_addArgs
                    (example_world [])))
     = [list_request example_service, create_request example_service ''docs'' 768,
        upsert_request example_service ''docs'' [example_point ''id-0'']]
   \<and> fst (handleAddDocuments_try (example_env\<lparr> global_fetch := refusing_fetch \<rparr>) example_config
             example_service example_addArgs (example_world []))
     = Inl (Error ''HTTP error! Status: 500'')
   \<and> requests (snd (handleAddDocuments_try (example_env\<lparr> global_fetch := refusing_fetch \<rparr>) example_config
                    example_service example_addArgs (example_world [])))
     = [list_request example_service, create_request example_service ''docs'' 768]
   \<and> requests (snd (handleAddDocuments_try example_env example_config example_service example_addArgs
                    (example_world [''docs''])))
     = [list_request example_service, upsert_request example_service ''docs'' [example_point ''id-0'']]"
proof -
  let ?p = "([example_chunk], example_embedding_service, [example_vector])"
  let ?renv = "example_env\<lparr> global_fetch := refusing_fetch \<rparr>"
  have ad: "ad_collection example_addArgs = ''docs''" by (simp add: example_addArgs_def)
  have f: "global_fetch example_env = example_fetch" "global_fetch ?renv = refusing_fetch"
    by (simp_all add: example_env_def)
  have u: "uuidv4 ?renv = uuidv4 example_env" by simp
  have v: "es_vectorSize example_embedding_service = 768" by (simp add: example_embedding_service_def)
  have w: "backend (example_world names) = names" "requests (example_world names) = []"
          "uuid_count (example_world names) = 0" for names
    by (simp_all add: example_world_def)
  have z: "string_of_nat 0 = ''0''" by (simp add: string_of_nat.simps digit_char_def)
  note prep = example_prepare [of example_fetch "example_world []", unfolded example_env_fetch]
  note prepd = example_prepare [of example_fetch "example_world [''docs'']", unfolded example_env_fetch]
  note rprep = example_prepare [of refusing_fetch "example_world []"]
  let ?wp = "\<lambda>names. (example_world names)\<lparr> reads := reads (example_world names) @ [''/tmp/mcp-uploads/notes.txt''] \<rparr>"
  have l1: "listCollections (global_fetch example_env) example_service (?wp [])
              = (Inr [], (?wp [])\<lparr> requests := requests (?wp []) @ [list_request example_service] \<rparr>)"
    unfolding f by (rule example_list) (simp add: w)
  have l2: "listCollections (global_fetch ?renv) example_service (?wp [])
              = (Inr [], (?wp [])\<lparr> requests := requests (?wp []) @ [list_request example_service] \<rparr>)"
    unfolding f by (rule example_list) (simp add: w)
  have l3: "listCollections (global_fetch example_env) example_service (?wp [''docs''])
              = (Inr [JStr ''docs''], (?wp [''docs''])\<lparr> requests := requests (?wp [''docs'']) @ [list_request example_service] \<rparr>)"
    unfolding f by (rule example_list) (simp add: w)
  note T1 = ingest_creates_collection_iff_absent [OF prep l1, unfolded ad f v]
  note T2 = ingest_creates_collection_iff_absent [OF rprep l2, where e = "Error ''HTTP error! Status: 500''",
      unfolded ad f v]
  note T3 = ingest_creates_collection_iff_absent [OF prepd l3, unfolded ad f v]
  have A: "requests (snd (handleAddDocuments_try example_env example_config example_service example_addArgs
                    (example_world [])))
     = [list_request example_service, create_request example_service ''docs'' 768,
        upsert_request example_service ''docs'' [example_point ''id-0'']]"
    using T1 by (simp add: example_create example_points w z)
  have B: "fst (handleAddDocuments_try ?renv example_config example_service example_addArgs (example_world []))
     = Inl (Error ''HTTP error! Status: 500'')
   \<and> requests (snd (handleAddDocuments_try ?renv example_config example_service example_addArgs
                    (example_world [])))
     = [list_request example_service, create_request example_service ''docs'' 768]"
    using T2 by (simp add: example_create w)
  have C: "requests (snd (handleAddDocuments_try example_env example_config example_service example_addArgs
                    (example_world [''docs''])))
     = [list_request example_service, upsert_request example_service ''docs'' [example_point ''id-0'']]"
    using T3 by (simp add: example_points w z)
  show ?thesis using A B C by simp
qed


subsection \<open>Ingestion: the identifiers of the points\<close>

lemma ingest_points:
  assumes prep: "ingest_prepare env cfg args w = (Inr (chunks, es, embs), wp)"
      and ok: "fst (handleAddDocuments_try env cfg svc args w) = Inr n"
  shows "\<exists>pts. map point_id pts = map (uuidv4 env) [uuid_count w ..< uuid_count w + length chunks]
           \<and> map point_payload pts = map chunk_payload chunks
           \<and> last (requests (snd (handleAddDocuments_try env cfg svc args w)))
               = upsert_request svc (ad_collection args) pts
           \<and> (\<forall>r \<in> set (drop (length (requests w)) (requests (snd (handleAddDocuments_try env cfg svc args w)))).
                 req_method r \<noteq> DELETE \<and> (req_method r = PUT \<longrightarrow>
                   r = upsert_request svc (ad_collection args) pts
                   \<or> r = create_request svc (ad_collection args) (es_vectorSize es)))
           \<and> uuid_count (snd (handleAddDocuments_try env cfg svc args w)) = uuid_count w + length chunks
           \<and> n = length chunks
           \<and> ((\<forall>i<length chunks. uuidv4 env (uuid_count w + i) \<notin> dom store) \<longrightarrow>
                 (\<forall>k \<in> dom store. upsert_points pts store k = store k)
               \<and> dom (upsert_points pts store) = dom store \<union> set (map point_id pts))"
proof -
  let ?coll = "ad_collection args"
  let ?run = "handleAddDocuments_try env cfg svc args w"
  let ?pts = "assemble_points (uuidv4 env) (uuid_count w) chunks embs"
  have run: "?run = ingest_store env svc ?coll (chunks, es, embs) wp"
    using prep by (rule handleAddDocuments_try_prepared)
  note p = ingest_prepare_world [OF prep]
  have ids: "map point_id ?pts = map (uuidv4 env) [uuid_count w ..< uuid_count w + length chunks]"
    by (rule assemble_points_ids)
  have pay: "map point_payload ?pts = map chunk_payload chunks"
    by (rule assemble_points_payloads)
  have m: "req_method (list_request svc) = GET" "req_method (create_request svc ?coll (es_vectorSize es)) = PUT"
    by (simp_all add: list_request_def create_request_def)
  have tr: "(requests (snd ?run) = requests w @ [list_request svc, create_request svc ?coll (es_vectorSize es),
                                                  upsert_request svc ?coll ?pts]
             \<or> requests (snd ?run) = requests w @ [list_request svc, upsert_request svc ?coll ?pts])
            \<and> uuid_count (snd ?run) = uuid_count w + length chunks \<and> n = length chunks"
  proof (cases rule: ingest_store_cases [of env svc wp ?coll chunks es embs])
    case (list_fails e' wl')
    then show ?thesis using ok run by simp
  next
    case (create_fails cols' wl' e' wc)
    then show ?thesis using ok run by simp
  next
    case (created cols wl wc r wa)
    note l = listCollections_world [OF created(1)]
    note c = createCollection_world [OF created(3)]
    note a = addDocuments_world [OF created(4)]
    have "n = length chunks" using created(5) ok run by (cases r) simp_all
    then show ?thesis
      using created(5) c a l p run by simp
  next
    case (present cols wl r wa)
    note l = listCollections_world [OF present(1)]
    note a = addDocuments_world [OF present(3)]
    have "n = length chunks" using present(4) ok run by (cases r) simp_all
    then show ?thesis
      using present(4) a l p run by simp
  qed
  have frame: "(\<forall>i<length chunks. uuidv4 env (uuid_count w + i) \<notin> dom store) \<longrightarrow>
                 (\<forall>k \<in> dom store. upsert_points ?pts store k = store k)
               \<and> dom (upsert_points ?pts store) = dom store \<union> set (map point_id ?pts)"
  proof (intro impI conjI ballI)
    fix k
    assume fresh: "\<forall>i<length chunks. uuidv4 env (uuid_count w + i) \<notin> dom store" and k: "k \<in> dom store"
    have "k \<notin> set (map point_id ?pts)"
    proof
      assume "k \<in> set (map point_id ?pts)"
      then obtain j where "j \<in> {uuid_count w ..< uuid_count w + length chunks}" "k = uuidv4 env j"
        unfolding ids by auto
      then have "k = uuidv4 env (uuid_count w + (j - uuid_count w))" "j - uuid_count w < length chunks"
        by auto
      then show False using fresh k by blast
    qed
    then show "upsert_points ?pts store k = store k"
      by (intro upsert_points_other) simp
  next
    show "dom (upsert_points ?pts store) = dom store \<union> set (map point_id ?pts)"
      by (simp add: dom_upsert_points)
  qed
  have last: "last (requests (snd ?run)) = upsert_request svc ?coll ?pts"
    using tr by auto
  have only: "\<forall>r \<in> set (drop (length (requests w)) (requests (snd ?run))).
                 req_method r \<noteq> DELETE \<and> (req_method r = PUT \<longrightarrow>
                   r = upsert_request svc ?coll ?pts \<or> r = create_request svc ?coll (es_vectorSize es))"
    using tr m by (auto simp: upsert_request_def)
  show ?thesis
    using ids pay last only tr frame by (intro exI [of _ ?pts]) blast
qed

text \<open>
  C10. Take a call of \<open>handleAddDocuments\<close> that succeeds. The identifiers of the
  points it upserts are the next values of \<^verbatim>\<open>uuidv4()\<close>, one per chunk, whatever the
  chunks, the embeddings and the store hold; the payloads are those of the chunks. The
  call sends no \<^verbatim>\<open>DELETE\<close>, and its only \<^verbatim>\<open>PUT\<close>s are that upsert and the creation of
  the collection. If none of the new identifiers is the identifier of a stored point,
  then, with the store's upsert as the spec defines it, every stored point is still
  there, unchanged, and the identifiers of the collection are the old ones and the new
  ones. A second call on the same chunks draws the following identifiers and upserts
  points with the same payloads; if those identifiers are fresh in turn, the points of
  the first call and all older ones stay as they are.
\<close>

theorem ingest_adds_points_under_fresh_ids:
  assumes prep: "ingest_prepare env cfg args w = (Inr (chunks, es, embs), wp)"
      and ok: "fst (handleAddDocuments_try env cfg svc args w) = Inr n"
  shows "\<exists>pts. map point_id pts = map (uuidv4 env) [uuid_count w ..< uuid_count w + length chunks]
           \<and> map point_payload pts = map chunk_payload chunks
           \<and> last (requests (snd (handleAddDocuments_try env cfg svc args w)))
               = upsert_request svc (ad_collection args) pts
           \<and> (\<forall>r \<in> set (drop (length (requests w)) (requests (snd (handleAddDocuments_try env cfg svc args w)))).
                 req_method r \<noteq> DELETE \<and> (req_method r = PUT \<longrightarrow>
                   r = upsert_request svc (ad_collection args) pts
                   \<or> r = create_request svc (ad_collection args) (es_vectorSize es)))
           \<and> ((\<forall>i<length chunks. uuidv4 env (uuid_count w + i) \<notin> dom store) \<longrightarrow>
                 (\<forall>k \<in> dom store. upsert_points pts store k = store k)
               \<and> dom (upsert_points pts store) = dom store \<union> set (map point_id pts))
           \<and> (ingest_prepare env cfg args (snd (handleAddDocuments_try env cfg svc args w))
                 = (Inr (chunks, es', embs'), wq)
               \<and> fst (handleAddDocuments_try env cfg svc args (snd (handleAddDocuments_try env cfg svc args w)))
                 = Inr m \<longrightarrow>
               (\<exists>pts'. map point_id pts'
                          = map (uuidv4 env) [uuid_count w + length chunks ..< uuid_count w + length chunks + length chunks]
                  \<and> map point_payload pts' = map point_payload pts
                  \<and> last (requests (snd (handleAddDocuments_try env cfg svc args
                                            (snd (handleAddDocuments_try env cfg svc args w)))))
                      = upsert_request svc (ad_collection args) pts'
                  \<and> ((\<forall>i<length chunks. uuidv4 env (uuid_count w + length chunks + i)
                                           \<notin> dom (upsert_points pts store)) \<longrightarrow>
                        (\<forall>k \<in> dom (upsert_points pts store).
                            upsert_points pts' (upsert_points pts store) k = upsert_points pts store k))))"
proof -
  let ?run = "handleAddDocuments_try env cfg svc args w"
  from ingest_points [OF prep ok, of store]
  obtain pts where ids: "map point_id pts = map (uuidv4 env) [uuid_count w ..< uuid_count w + length chunks]"
    and pay: "map point_payload pts = map chunk_payload chunks"
    and lst: "last (requests (snd ?run)) = upsert_request svc (ad_collection args) pts"
    and only: "\<forall>r \<in> set (drop (length (requests w)) (requests (snd ?run))).
                 req_method r \<noteq> DELETE \<and> (req_method r = PUT \<longrightarrow>
                   r = upsert_request svc (ad_collection args) pts
                   \<or> r = create_request svc (ad_collection args) (es_vectorSize es))"
    and cnt: "uuid_count (snd ?run) = uuid_count w + length chunks"
    and frame: "(\<forall>i<length chunks. uuidv4 env (uuid_count w + i) \<notin> dom store) \<longrightarrow>
                 (\<forall>k \<in> dom store. upsert_points pts store k = store k)
               \<and> dom (upsert_points pts store) = dom store \<union> set (map point_id pts)"
    by blast
  have again: "ingest_prepare env cfg args (snd ?run) = (Inr (chunks, es', embs'), wq)
               \<and> fst (handleAddDocuments_try env cfg svc args (snd ?run)) = Inr m \<longrightarrow>
               (\<exists>pts'. map point_id pts'
                          = map (uuidv4 env) [uuid_count w + length chunks ..< uuid_count w + length chunks + length chunks]
                  \<and> map point_payload pts' = map point_payload pts
                  \<and> last (requests (snd (handleAddDocuments_try env cfg svc args (snd ?run))))
                      = upsert_request svc (ad_collection args) pts'
                  \<and> ((\<forall>i<length chunks. uuidv4 env (uuid_count w + length chunks + i)
                                           \<notin> dom (upsert_points pts store)) \<longrightarrow>
                        (\<forall>k \<in> dom (upsert_points pts store).
                            upsert_points pts' (upsert_points pts store) k = upsert_points pts store k)))"
  proof
    assume a: "ingest_prepare env cfg args (snd ?run) = (Inr (chunks, es', embs'), wq)
               \<and> fst (handleAddDocuments_try env cfg svc args (snd ?run)) = Inr m"
    from ingest_points [of env cfg args "snd ?run" chunks es' embs' wq svc m "upsert_points pts store"] a
    obtain pts' where ids': "map point_id pts' = map (uuidv4 env)
                               [uuid_count (snd ?run) ..< uuid_count (snd ?run) + length chunks]"
      and pay': "map point_payload pts' = map chunk_payload chunks"
      and lst': "last (requests (snd (handleAddDocuments_try env cfg svc args (snd ?run))))
                   = upsert_request svc (ad_collection args) pts'"
      and frame': "(\<forall>i<length chunks. uuidv4 env (uuid_count (snd ?run) + i) \<notin> dom (upsert_points pts store)) \<longrightarrow>
                 (\<forall>k \<in> dom (upsert_points pts store).
                     upsert_points pts' (upsert_points pts store) k = upsert_points pts store k)
               \<and> dom (upsert_points pts' (upsert_points pts store))
                   = dom (upsert_points pts store) \<union> set (map point_id pts')"
      by blast
    show "\<exists>pts'. map point_id pts'
                          = map (uuidv4 env) [uuid_count w + length chunks ..< uuid_count w + length chunks + length chunks]
                  \<and> map point_payload pts' = map point_payload pts
                  \<and> last (requests (snd (handleAddDocuments_try env cfg svc args (snd ?run))))
                      = upsert_request svc (ad_collection args) pts'
                  \<and> ((\<forall>i<length chunks. uuidv4 env (uuid_count w + length chunks + i)
                                           \<notin> dom (upsert_points pts store)) \<longrightarrow>
                        (\<forall>k \<in> dom (upsert_points pts store).
                            upsert_points pts' (upsert_points pts store) k = upsert_points pts store k))"
      using ids' pay' lst' frame' pay unfolding cnt by (intro exI [of _ pts']) simp
  qed
  show ?thesis
    using ids pay lst only frame again by (intro exI [of _ pts]) blast
qed

theorem ingest_adds_points_under_fresh_ids_witness:
  "\<exists>pts pts'. map point_id pts = [''id-0''] \<and> map point_id pts' = [''id-1'']
      \<and> map point_payload pts' = map point_payload pts
      \<and> last (requests (snd (handleAddDocuments_try example_env example_config example_service
                                example_addArgs (example_world []))))
          = upsert_request example_service ''docs'' pts
      \<and> upsert_points pts [''old'' \<mapsto> example_point ''old''] ''old'' = Some (example_point ''old'')
      \<and> dom (upsert_points pts [''old'' \<mapsto> example_point ''old'']) = {''old'', ''id-0''}
      \<and> upsert_points pts' (upsert_points pts [''old'' \<mapsto> example_point ''old'']) ''old''
          = Some (example_point ''old'')"
proof -
  let ?w = "example_world []"
  let ?run = "handleAddDocuments_try example_env example_config example_service example_addArgs"
  let ?store = "[''old'' \<mapsto> example_point ''old'']"
  have w: "backend ?w = []" "uuid_count ?w = 0" by (simp_all add: example_world_def)
  have ad: "ad_collection example_addArgs = ''docs''" by (simp add: example_addArgs_def)
  have z: "string_of_nat 0 = ''0''" "string_of_nat 1 = ''1''" "string_of_nat (Suc 0) = ''1''"
    by (simp_all add: string_of_nat.simps digit_char_def)
  have u: "uuidv4 example_env k = ''id-'' @ string_of_nat k" for k by (simp add: example_env_def)
  note r1 = example_run_created [OF w(1)]
  have ok: "fst (?run ?w) = Inr 1" by (simp add: r1)
  have b1: "backend (snd (?run ?w)) = []" by (simp add: r1 w)
  note r2 = example_run_created [OF b1]
  have ok2: "fst (?run (snd (?run ?w))) = Inr 1" by (simp add: r2)
  note prep = example_prepare [of example_fetch ?w, unfolded example_env_fetch]
  note prep2 = example_prepare [of example_fetch "snd (?run ?w)", unfolded example_env_fetch]
  from ingest_adds_points_under_fresh_ids [OF prep ok, where store = ?store
         and es' = example_embedding_service and embs' = "[example_vector]" and m = 1
         and wq = "(snd (?run ?w))\<lparr> reads := reads (snd (?run ?w)) @ [''/tmp/mcp-uploads/notes.txt''] \<rparr>"]
  obtain pts where ids: "map point_id pts = map (uuidv4 example_env) [uuid_count ?w ..< uuid_count ?w + length [example_chunk]]"
    and lst: "last (requests (snd (?run ?w))) = upsert_request example_service (ad_collection example_addArgs) pts"
    and frame: "(\<forall>i<length [example_chunk]. uuidv4 example_env (uuid_count ?w + i) \<notin> dom ?store) \<longrightarrow>
                 (\<forall>k \<in> dom ?store. upsert_points pts ?store k = ?store k)
               \<and> dom (upsert_points pts ?store) = dom ?store \<union> set (map point_id pts)"
    and again: "ingest_prepare example_env example_config example_addArgs (snd (?run ?w))
                 = (Inr ([example_chunk], example_embedding_service, [example_vector]),
                    (snd (?run ?w))\<lparr> reads := reads (snd (?run ?w)) @ [''/tmp/mcp-uploads/notes.txt''] \<rparr>)
               \<and> fst (?run (snd (?run ?w))) = Inr 1 \<longrightarrow>
               (\<exists>pts'. map point_id pts'
                          = map (uuidv4 example_env) [uuid_count ?w + length [example_chunk]
                                                       ..< uuid_count ?w + length [example_chunk] + length [example_chunk]]
                  \<and> map point_payload pts' = map point_payload pts
                  \<and> last (requests (snd (?run (snd (?run ?w)))))
                      = upsert_request example_service (ad_collection example_addArgs) pts'
                  \<and> ((\<forall>i<length [example_chunk]. uuidv4 example_env (uuid_count ?w + length [example_chunk] + i)
                                           \<notin> dom (upsert_points pts ?store)) \<longrightarrow>
                        (\<forall>k \<in> dom (upsert_points pts ?store).
                            upsert_points pts' (upsert_points pts ?store) k = upsert_points pts ?store k)))"
    by blast
  have ids0: "map point_id pts = [''id-0'']"
    using ids by (simp add: w u z)
  have fr: "upsert_points pts ?store ''old'' = Some (example_point ''old'')"
    using frame ids0 by (simp add: w u z)
  have dm: "dom (upsert_points pts ?store) = {''old'', ''id-0''}"
    using frame ids0 by (simp add: w u z insert_commute)
  from again prep2 ok2
  obtain pts' where ids': "map point_id pts'
                          = map (uuidv4 example_env) [uuid_count ?w + length [example_chunk]
                                                       ..< uuid_count ?w + length [example_chunk] + length [example_chunk]]"
    and pay': "map point_payload pts' = map point_payload pts"
    and frame': "(\<forall>i<length [example_chunk]. uuidv4 example_env (uuid_count ?w + length [example_chunk] + i)
                                           \<notin> dom (upsert_points pts ?store)) \<longrightarrow>
                        (\<forall>k \<in> dom (upsert_points pts ?store).
                            upsert_points pts' (upsert_points pts ?store) k = upsert_points pts ?store k)"
    by blast
  have ids1: "map point_id pts' = [''id-1'']"
    using ids' by (simp add: w u z)
  have fr': "upsert_points pts' (upsert_points pts ?store) ''old'' = Some (example_point ''old'')"
    using frame' dm fr by (simp add: w u z)
  show ?thesis
    by (intro exI [of _ pts] exI [of _ pts'] conjI ids0 ids1 pay' lst [unfolded ad] fr dm fr')
qed

subsection \<open>The Ollama provider: the result of a call\<close>

lemma mapE_id_eq_Inr: "mapE (\<lambda>p. p) ps = Inr vs \<longleftrightarrow> ps = map Inr vs"
proof (induction ps arbitrary: vs)
  case Nil
  then show ?case by auto
next
  case (Cons p ps)
  show ?case
    by (cases vs) (auto simp: bindE_eq_Inr Cons.IH)
qed

lemma Promise_all_eq_Inr: "Promise_all order ps = Inr vs \<longleftrightarrow> ps = map Inr vs"
proof -
  let ?rej = "filter isl (map (\<lambda>k. ps ! k) (filter (\<lambda>k. k < length ps) order))"
  note m = mapE_id_eq_Inr [of ps vs]
  show ?thesis
  proof (cases ?rej)
    case Nil
    then show ?thesis by (simp add: Promise_all_def m)
  next
    case (Cons p rest)
    then have "p \<in> set ?rej" by simp
    then have "isl p" and "p \<in> set ps" by auto
    then obtain e where p: "p = Inl e" by (cases p) simp_all
    have "ps \<noteq> map Inr vs" using \<open>p \<in> set ps\<close> p by auto
    then show ?thesis using Cons p by (simp add: Promise_all_def)
  qed
qed

lemma Promise_all_Inl: "Promise_all order ps = Inl e \<Longrightarrow> Inl e \<in> set ps"
proof -
  assume a: "Promise_all order ps = Inl e"
  let ?rej = "filter isl (map (\<lambda>k. ps ! k) (filter (\<lambda>k. k < length ps) order))"
  have m: "mapE (\<lambda>p. p) qs = Inl e \<Longrightarrow> Inl e \<in> set qs" for qs :: "(error + 'a) list"
  proof (induction qs)
    case Nil
    then show ?case by simp
  next
    case (Cons q qs)
    then show ?case
      by (cases q; cases "mapE (\<lambda>p. p) qs") (auto simp: bindE_def)
  qed
  show ?thesis
  proof (cases ?rej)
    case Nil
    then show ?thesis using a m by (simp add: Promise_all_def)
  next
    case (Cons p rest)
    then have "p \<in> set ?rej" by simp
    then have "isl p" and "p \<in> set ps" by auto
    then obtain e' where p: "p = Inl e'" by (cases p) simp_all
    then have "e' = e" using a Cons by (simp add: Promise_all_def)
    then show ?thesis using \<open>p \<in> set ps\<close> p by simp
  qed
qed

lemma take_add_slice: "take (i + c) xs = take i xs @ slice xs i (i + c)"
  by (simp add: slice_def take_add)

lemma embed_loop_done:
  "\<not> i < length texts \<Longrightarrow>
     embed_loop post latency svc texts i ps = ([], Promise_all [0 ..< length ps] ps)"
  by (subst embed_loop.simps) simp

lemma embed_loop_abort:
  "i < length texts \<Longrightarrow>
   Promise_all (map (\<lambda>k. k - i) (sort_key latency (batch_ids texts i)))
     (map (embed_text post svc) (slice texts i (i + concurrencyLimit))) = Inl e \<Longrightarrow>
     embed_loop post latency svc texts i ps = (batch_events latency texts i, Inl e)"
  by (subst embed_loop.simps) (simp add: Let_def)

lemma embed_loop_next:
  "i < length texts \<Longrightarrow>
   Promise_all (map (\<lambda>k. k - i) (sort_key latency (batch_ids texts i)))
     (map (embed_text post svc) (slice texts i (i + concurrencyLimit))) = Inr bvs \<Longrightarrow>
     embed_loop post latency svc texts i ps
       = (batch_events latency texts i
            @ fst (embed_loop post latency svc texts (i + concurrencyLimit)
                     (ps @ map (embed_text post svc) (slice texts i (i + concurrencyLimit)))),
          snd (embed_loop post latency svc texts (i + concurrencyLimit)
                     (ps @ map (embed_text post svc) (slice texts i (i + concurrencyLimit)))))"
  by (subst embed_loop.simps) (simp add: Let_def split_def)

lemma embed_loop_result:
  assumes "ps = map (embed_text post svc) (take i texts)" and "ps = map Inr vs0"
  shows "snd (embed_loop post latency svc texts i ps) = Inr vs
           \<longleftrightarrow> map (embed_text post svc) texts = map Inr vs"
  using assms
proof (induction post latency svc texts i ps arbitrary: vs0 rule: embed_loop.induct)
  case (1 post latency svc texts i ps)
  let ?batch = "slice texts i (i + concurrencyLimit)"
  let ?bps = "map (embed_text post svc) ?batch"
  let ?ord = "map (\<lambda>k. k - i) (sort_key latency (batch_ids texts i))"
  show ?case
  proof (cases "i < length texts")
    case False
    then have "ps = map (embed_text post svc) texts" using "1.prems"(1) by simp
    then show ?thesis
      unfolding embed_loop_done [OF False] by (simp add: Promise_all_eq_Inr)
  next
    case True
    have all: "map (embed_text post svc) (take (i + concurrencyLimit) texts) = ps @ ?bps"
      using "1.prems"(1) by (simp add: take_add_slice)
    show ?thesis
    proof (cases "Promise_all ?ord ?bps")
      case (Inl e)
      then have "Inl e \<in> set ?bps" by (rule Promise_all_Inl)
      then have "Inl e \<in> set (map (embed_text post svc) texts)"
        by (auto simp: slice_def dest: in_set_takeD in_set_dropD)
      moreover have "Inl e \<notin> set (map Inr vs)" by auto
      ultimately have "map (embed_text post svc) texts \<noteq> map Inr vs" by metis
      then show ?thesis
        unfolding embed_loop_abort [OF True Inl] by simp
    next
      case (Inr bvs)
      then have b: "?bps = map Inr bvs" by (simp add: Promise_all_eq_Inr)
      have ih: "snd (embed_loop post latency svc texts (i + concurrencyLimit) (ps @ ?bps)) = Inr vs
                  \<longleftrightarrow> map (embed_text post svc) texts = map Inr vs"
      proof (rule "1.IH" [OF True refl refl Inr])
        show "ps @ ?bps = map (embed_text post svc) (take (i + concurrencyLimit) texts)"
          using all by simp
        show "ps @ ?bps = map Inr (vs0 @ bvs)"
          using "1.prems"(2) b by simp
      qed
      show ?thesis
        unfolding embed_loop_next [OF True Inr] using ih by simp
    qed
  qed
qed

lemma generateEmbeddings_eq_Inr:
  "generateEmbeddings post latency svc texts = Inr vs \<longleftrightarrow> map (embed_text post svc) texts = map Inr vs"
  unfolding generateEmbeddings_def generateEmbeddings_trace_def
  by (rule embed_loop_result [where ?vs0.0 = "[]"]) simp_all





lemma example_embed_text:
  "embed_text example_post example_ollama ''text1'' = Inr (JArr [JNum 1])"
  "embed_text example_post example_ollama ''text2'' = Inr (JArr [JNum 2])"
  "embed_text example_post example_ollama ''text3'' = Inr (JArr [JNum 3])"
  "embed_text example_post example_ollama ''text4'' = Inr (JArr [JNum 4])"
  "embed_text example_post example_ollama ''text5'' = Inr (JArr [JNum 5])"
  "embed_text example_post example_ollama ''text6'' = Inr (JArr [JNum 6])"
  "embed_text example_post example_ollama ''invalid response'' = Inl invalid_response"
  "embed_text example_post example_ollama ''unreachable''
     = Inl (TransportError ''connect ECONNREFUSED 127.0.0.1:11434'')"
  "embed_text example_post example_ollama ''null'' = Inl (cannot_read ''null'' ''embedding'')"
  by (simp_all add: embed_text_def example_post_def embedding_request_def lookup_prop_def
      example_embeddings_def)





subsection \<open>The Ollama provider: the order of the requests\<close>

lemma length_slice: "length (slice xs a (a + c)) = min c (length xs - a)"
  by (simp add: slice_def)

lemma batch_ids_eq: "batch_ids texts i = [i ..< i + min concurrencyLimit (length texts - i)]"
  by (simp add: batch_ids_def length_slice)

lemma length_batch_ids: "length (batch_ids texts i) \<le> concurrencyLimit"
  by (simp add: batch_ids_eq)

lemma set_batch_ids:
  "k \<in> set (batch_ids texts i) \<longleftrightarrow> i \<le> k \<and> k < i + concurrencyLimit \<and> k < length texts"
  by (auto simp: batch_ids_eq)

lemma issued_append: "issued (xs @ ys) = issued xs @ issued ys"
  by (induction xs rule: issued.induct) simp_all

lemma issued_map_Issue: "issued (map Issue ks) = ks"
  by (induction ks) simp_all

lemma issued_map_Settle: "issued (map Settle ks) = []"
  by (induction ks) simp_all

lemma issued_batch: "issued (batch_events latency texts i) = batch_ids texts i"
  by (simp add: batch_events_def issued_append issued_map_Issue issued_map_Settle)

lemma Issue_in_batch: "Issue k \<in> set (batch_events latency texts i) \<longleftrightarrow> k \<in> set (batch_ids texts i)"
  by (auto simp: batch_events_def)

lemma Settle_in_batch: "Settle k \<in> set (batch_events latency texts i) \<longleftrightarrow> k \<in> set (batch_ids texts i)"
  by (auto simp: batch_events_def)

lemma in_flight_le_issued: "length (in_flight evs) \<le> length (issued evs)"
  by (simp add: in_flight_def)

lemma issued_take_le: "length (issued (take p evs)) \<le> length (issued evs)"
proof -
  have "issued evs = issued (take p evs) @ issued (drop p evs)"
    using issued_append [of "take p evs" "drop p evs"] by simp
  then show ?thesis by simp
qed

lemma length_filter_mono:
  "(\<And>x. x \<in> set xs \<Longrightarrow> P x \<Longrightarrow> Q x) \<Longrightarrow> length (filter P xs) \<le> length (filter Q xs)"
  by (induction xs) auto

lemma in_flight_settled_prefix:
  assumes "\<And>k. k \<in> set (issued B) \<Longrightarrow> Settle k \<in> set B"
  shows "length (in_flight (B @ R)) \<le> length (in_flight R)"
proof -
  have "filter (\<lambda>k. Settle k \<notin> set (B @ R)) (issued B) = []"
    using assms by (auto simp: filter_empty_conv)
  then have "in_flight (B @ R) = filter (\<lambda>k. Settle k \<notin> set (B @ R)) (issued R)"
    by (simp add: in_flight_def issued_append)
  also have "length \<dots> \<le> length (filter (\<lambda>k. Settle k \<notin> set R) (issued R))"
    by (rule length_filter_mono) simp
  finally show ?thesis by (simp add: in_flight_def)
qed

lemma in_flight_batch_prefix: "length (in_flight (take p (batch_events latency texts i))) \<le> concurrencyLimit"
proof -
  have "length (in_flight (take p (batch_events latency texts i)))
          \<le> length (issued (take p (batch_events latency texts i)))"
    by (rule in_flight_le_issued)
  also have "\<dots> \<le> length (issued (batch_events latency texts i))"
    by (rule issued_take_le)
  also have "\<dots> \<le> concurrencyLimit"
    by (simp add: issued_batch length_batch_ids)
  finally show ?thesis .
qed

lemma in_flight_bound:
  "length (in_flight (take p (fst (embed_loop post latency svc texts i ps)))) \<le> concurrencyLimit"
proof (induction post latency svc texts i ps arbitrary: p rule: embed_loop.induct)
  case (1 post latency svc texts i ps)
  let ?B = "batch_events latency texts i"
  let ?bps = "map (embed_text post svc) (slice texts i (i + concurrencyLimit))"
  let ?ord = "map (\<lambda>k. k - i) (sort_key latency (batch_ids texts i))"
  show ?case
  proof (cases "i < length texts")
    case False
    show ?thesis
      unfolding embed_loop_done [OF False] by (simp add: in_flight_def)
  next
    case True
    show ?thesis
    proof (cases "Promise_all ?ord ?bps")
      case (Inl e)
      show ?thesis
        unfolding embed_loop_abort [OF True Inl] by (simp add: in_flight_batch_prefix)
    next
      case (Inr bvs)
      let ?R = "fst (embed_loop post latency svc texts (i + concurrencyLimit) (ps @ ?bps))"
      have T: "fst (embed_loop post latency svc texts i ps) = ?B @ ?R"
        unfolding embed_loop_next [OF True Inr] by simp
      show ?thesis
      proof (cases "p \<le> length ?B")
        case True
        then show ?thesis
          unfolding T by (simp add: in_flight_batch_prefix)
      next
        case False
        then have "take p (?B @ ?R) = ?B @ take (p - length ?B) ?R" by simp
        moreover have "length (in_flight (?B @ take (p - length ?B) ?R))
                         \<le> length (in_flight (take (p - length ?B) ?R))"
          by (rule in_flight_settled_prefix) (simp add: issued_batch Settle_in_batch)
        moreover have "length (in_flight (take (p - length ?B) ?R)) \<le> concurrencyLimit"
          by (rule "1.IH" [OF \<open>i < length texts\<close> refl refl Inr])
        ultimately show ?thesis
          unfolding T by simp
      qed
    qed
  qed
qed

lemma batch_div:
  "concurrencyLimit dvd i \<Longrightarrow> i \<le> k \<Longrightarrow> k < i + concurrencyLimit \<Longrightarrow>
     k div concurrencyLimit = i div concurrencyLimit"
  unfolding concurrencyLimit_def by (elim dvdE) (simp add: div_nat_eqI)

lemma later_div:
  assumes "concurrencyLimit dvd i" and "i + concurrencyLimit \<le> k"
  shows "i div concurrencyLimit < k div concurrencyLimit"
proof -
  obtain q where q: "i = concurrencyLimit * q" using assms(1) by (elim dvdE)
  have "(i + concurrencyLimit) div concurrencyLimit \<le> k div concurrencyLimit"
    using assms(2) by (rule div_le_mono)
  then show ?thesis using q by (simp add: concurrencyLimit_def)
qed

lemma dvd_next: "concurrencyLimit dvd i \<Longrightarrow> concurrencyLimit dvd i + concurrencyLimit"
  by simp

lemma trace_indices:
  "ev \<in> set (fst (embed_loop post latency svc texts i ps)) \<Longrightarrow> ev = Issue k \<or> ev = Settle k \<Longrightarrow>
     i \<le> k \<and> k < length texts"
proof (induction post latency svc texts i ps rule: embed_loop.induct)
  case (1 post latency svc texts i ps)
  let ?B = "batch_events latency texts i"
  let ?bps = "map (embed_text post svc) (slice texts i (i + concurrencyLimit))"
  let ?ord = "map (\<lambda>k. k - i) (sort_key latency (batch_ids texts i))"
  have B: "ev \<in> set ?B \<Longrightarrow> i \<le> k \<and> k < length texts"
    using "1.prems"(2) by (auto simp: Issue_in_batch Settle_in_batch set_batch_ids)
  show ?case
  proof (cases "i < length texts")
    case False
    then show ?thesis
      using "1.prems"(1) unfolding embed_loop_done [OF False] by simp
  next
    case True
    show ?thesis
    proof (cases "Promise_all ?ord ?bps")
      case (Inl e)
      then show ?thesis
        using "1.prems"(1) B unfolding embed_loop_abort [OF True Inl] by simp
    next
      case (Inr bvs)
      let ?R = "fst (embed_loop post latency svc texts (i + concurrencyLimit) (ps @ ?bps))"
      have "ev \<in> set ?B \<or> ev \<in> set ?R"
        using "1.prems"(1) unfolding embed_loop_next [OF True Inr] by simp
      then show ?thesis
      proof
        assume "ev \<in> set ?B"
        then show ?thesis by (rule B)
      next
        assume "ev \<in> set ?R"
        then have "i + concurrencyLimit \<le> k \<and> k < length texts"
          using "1.IH" [OF True refl refl Inr] "1.prems"(2) by blast
        then show ?thesis by simp
      qed
    qed
  qed
qed

lemma issue_after_settles:
  assumes "concurrencyLimit dvd i"
  shows "p < length (fst (embed_loop post latency svc texts i ps)) \<Longrightarrow>
         fst (embed_loop post latency svc texts i ps) ! p = Issue j \<Longrightarrow>
         i \<le> k \<Longrightarrow> k < length texts \<Longrightarrow> k div concurrencyLimit < j div concurrencyLimit \<Longrightarrow>
           Settle k \<in> set (take p (fst (embed_loop post latency svc texts i ps)))"
  using assms
proof (induction post latency svc texts i ps arbitrary: p rule: embed_loop.induct)
  case (1 post latency svc texts i ps)
  let ?B = "batch_events latency texts i"
  let ?bps = "map (embed_text post svc) (slice texts i (i + concurrencyLimit))"
  let ?ord = "map (\<lambda>k. k - i) (sort_key latency (batch_ids texts i))"
  note dv = \<open>concurrencyLimit dvd i\<close>
  have notB: "Issue j \<notin> set ?B"
  proof
    assume "Issue j \<in> set ?B"
    then have "i \<le> j" "j < i + concurrencyLimit"
      by (simp_all add: Issue_in_batch set_batch_ids)
    then have "j div concurrencyLimit = i div concurrencyLimit"
      using dv by (intro batch_div)
    moreover have "i div concurrencyLimit \<le> k div concurrencyLimit"
      using \<open>i \<le> k\<close> by (rule div_le_mono)
    ultimately show False using "1.prems"(5) by simp
  qed
  show ?case
  proof (cases "i < length texts")
    case False
    then show ?thesis
      using "1.prems"(1) unfolding embed_loop_done [OF False] by simp
  next
    case True
    show ?thesis
    proof (cases "Promise_all ?ord ?bps")
      case (Inl e)
      have "Issue j \<in> set ?B"
        using "1.prems"(1,2) unfolding embed_loop_abort [OF True Inl] by (auto simp: in_set_conv_nth)
      then show ?thesis using notB by simp
    next
      case (Inr bvs)
      let ?R = "fst (embed_loop post latency svc texts (i + concurrencyLimit) (ps @ ?bps))"
      have T: "fst (embed_loop post latency svc texts i ps) = ?B @ ?R"
        unfolding embed_loop_next [OF True Inr] by simp
      have pB: "\<not> p < length ?B"
      proof
        assume "p < length ?B"
        then have "Issue j \<in> set ?B"
          using "1.prems"(2) unfolding T by (auto simp: nth_append in_set_conv_nth)
        then show False using notB by simp
      qed
      then have tk: "take p (?B @ ?R) = ?B @ take (p - length ?B) ?R" by simp
      have q: "p - length ?B < length ?R" "?R ! (p - length ?B) = Issue j"
        using "1.prems"(1,2) pB unfolding T by (simp_all add: nth_append)
      show ?thesis
      proof (cases "k < i + concurrencyLimit")
        case True
        then have "Settle k \<in> set ?B"
          using \<open>i \<le> k\<close> \<open>k < length texts\<close> by (simp add: Settle_in_batch set_batch_ids)
        then show ?thesis unfolding T tk by simp
      next
        case False
        then have "i + concurrencyLimit \<le> k" by simp
        then have "Settle k \<in> set (take (p - length ?B) ?R)"
          using "1.IH" [OF \<open>i < length texts\<close> refl refl Inr q] "1.prems"(4,5) dvd_next [OF dv]
          by blast
        then show ?thesis unfolding T tk by simp
      qed
    qed
  qed
qed

lemma no_issue_after_failure:
  assumes "concurrencyLimit dvd i"
  shows "i \<le> k \<Longrightarrow> k < length texts \<Longrightarrow> isl (embed_text post svc (texts ! k)) \<Longrightarrow>
         k div concurrencyLimit < j div concurrencyLimit \<Longrightarrow>
           Issue j \<notin> set (fst (embed_loop post latency svc texts i ps))"
  using assms
proof (induction post latency svc texts i ps rule: embed_loop.induct)
  case (1 post latency svc texts i ps)
  let ?B = "batch_events latency texts i"
  let ?bps = "map (embed_text post svc) (slice texts i (i + concurrencyLimit))"
  let ?ord = "map (\<lambda>k. k - i) (sort_key latency (batch_ids texts i))"
  note dv = \<open>concurrencyLimit dvd i\<close>
  have True: "i < length texts" using "1.prems"(1,2) by simp
  have notB: "Issue j \<notin> set ?B"
  proof
    assume "Issue j \<in> set ?B"
    then have "i \<le> j" "j < i + concurrencyLimit"
      by (simp_all add: Issue_in_batch set_batch_ids)
    then have "j div concurrencyLimit = i div concurrencyLimit"
      using dv by (intro batch_div)
    moreover have "i div concurrencyLimit \<le> k div concurrencyLimit"
      using \<open>i \<le> k\<close> by (rule div_le_mono)
    ultimately show False using "1.prems"(4) by simp
  qed
  show ?case
  proof (cases "Promise_all ?ord ?bps")
    case (Inl e)
    show ?thesis
      unfolding embed_loop_abort [OF True Inl] using notB by simp
  next
    case (Inr bvs)
    let ?R = "fst (embed_loop post latency svc texts (i + concurrencyLimit) (ps @ ?bps))"
    have T: "fst (embed_loop post latency svc texts i ps) = ?B @ ?R"
      unfolding embed_loop_next [OF True Inr] by simp
    have b: "?bps = map Inr bvs" using Inr by (simp add: Promise_all_eq_Inr)
    have far: "i + concurrencyLimit \<le> k"
    proof (rule ccontr)
      assume "\<not> i + concurrencyLimit \<le> k"
      then have kk: "k - i < length (slice texts i (i + concurrencyLimit))"
        using \<open>i \<le> k\<close> \<open>k < length texts\<close> unfolding length_slice by arith
      have "slice texts i (i + concurrencyLimit) ! (k - i) = drop i texts ! (k - i)"
        using kk by (simp add: slice_def length_slice)
      also have "\<dots> = texts ! (i + (k - i))"
        using \<open>i \<le> k\<close> \<open>k < length texts\<close> by (intro nth_drop) simp
      finally have "slice texts i (i + concurrencyLimit) ! (k - i) = texts ! k"
        using \<open>i \<le> k\<close> by simp
      then have "?bps ! (k - i) = embed_text post svc (texts ! k)"
        using kk by simp
      moreover have "?bps ! (k - i) = Inr (bvs ! (k - i))"
        using kk b by (metis length_map nth_map)
      ultimately have "embed_text post svc (texts ! k) = Inr (bvs ! (k - i))" by simp
      then show False using "1.prems"(3) by simp
    qed
    have "Issue j \<notin> set ?R"
      using "1.IH" [OF True refl refl Inr far] "1.prems"(2,3,4) dvd_next [OF dv] by blast
    then show ?thesis unfolding T using notB by simp
  qed
qed

lemma batch_prefix_no_settle:
  assumes "p < length (batch_events latency texts i)" and "batch_events latency texts i ! p = Issue j"
  shows "Settle k \<notin> set (take p (batch_events latency texts i))"
proof -
  let ?ids = "batch_ids texts i"
  have p: "p < length ?ids"
  proof (rule ccontr)
    assume "\<not> p < length ?ids"
    then have "batch_events latency texts i ! p = Settle (sort_key latency ?ids ! (p - length ?ids))"
      using assms(1) by (simp add: batch_events_def nth_append)
    then show False using assms(2) by simp
  qed
  then have "take p (batch_events latency texts i) = map Issue (take p ?ids)"
    by (simp add: batch_events_def take_map)
  then show ?thesis by auto
qed

lemma no_settle_within_batch:
  assumes "concurrencyLimit dvd i"
  shows "p < length (fst (embed_loop post latency svc texts i ps)) \<Longrightarrow>
         fst (embed_loop post latency svc texts i ps) ! p = Issue j \<Longrightarrow>
         k div concurrencyLimit = j div concurrencyLimit \<Longrightarrow>
           Settle k \<notin> set (take p (fst (embed_loop post latency svc texts i ps)))"
  using assms
proof (induction post latency svc texts i ps arbitrary: p rule: embed_loop.induct)
  case (1 post latency svc texts i ps)
  let ?B = "batch_events latency texts i"
  let ?bps = "map (embed_text post svc) (slice texts i (i + concurrencyLimit))"
  let ?ord = "map (\<lambda>k. k - i) (sort_key latency (batch_ids texts i))"
  note dv = \<open>concurrencyLimit dvd i\<close>
  show ?case
  proof (cases "i < length texts")
    case False
    then show ?thesis
      using "1.prems"(1) unfolding embed_loop_done [OF False] by simp
  next
    case True
    show ?thesis
    proof (cases "Promise_all ?ord ?bps")
      case (Inl e)
      show ?thesis
        using "1.prems"(1,2) unfolding embed_loop_abort [OF True Inl]
        by (simp add: batch_prefix_no_settle)
    next
      case (Inr bvs)
      let ?R = "fst (embed_loop post latency svc texts (i + concurrencyLimit) (ps @ ?bps))"
      have T: "fst (embed_loop post latency svc texts i ps) = ?B @ ?R"
        unfolding embed_loop_next [OF True Inr] by simp
      show ?thesis
      proof (cases "p < length ?B")
        case True
        then have "?B ! p = Issue j" using "1.prems"(2) unfolding T by (simp add: nth_append)
        then have "Settle k \<notin> set (take p ?B)" using True by (intro batch_prefix_no_settle)
        then show ?thesis unfolding T using True by simp
      next
        case False
        then have tk: "take p (?B @ ?R) = ?B @ take (p - length ?B) ?R" by simp
        have q: "p - length ?B < length ?R" "?R ! (p - length ?B) = Issue j"
          using "1.prems"(1,2) False unfolding T by (simp_all add: nth_append)
        then have "Issue j \<in> set ?R" by (auto simp: in_set_conv_nth)
        then have "i + concurrencyLimit \<le> j"
          using trace_indices by blast
        then have lt: "i div concurrencyLimit < k div concurrencyLimit"
          using later_div [OF dv] "1.prems"(3) by simp
        have "Settle k \<notin> set ?B"
        proof
          assume "Settle k \<in> set ?B"
          then have "i \<le> k" "k < i + concurrencyLimit"
            by (simp_all add: Settle_in_batch set_batch_ids)
          then have "k div concurrencyLimit = i div concurrencyLimit"
            using dv by (intro batch_div)
          then show False using lt by simp
        qed
        moreover have "Settle k \<notin> set (take (p - length ?B) ?R)"
          using "1.IH" [OF \<open>i < length texts\<close> refl refl Inr q] "1.prems"(3) dvd_next [OF dv] by blast
        ultimately show ?thesis unfolding T tk by simp
      qed
    qed
  qed
qed

lemma upt_join: "i \<le> j \<Longrightarrow> j \<le> m \<Longrightarrow> [i ..< j] @ [j ..< m] = [i ..< (m::nat)]"
  by (metis le_Suc_ex upt_add_eq_append)

lemma issued_trace:
  "i \<le> length texts \<Longrightarrow>
     \<exists>m. i \<le> m \<and> m \<le> length texts
        \<and> issued (fst (embed_loop post latency svc texts i ps)) = [i ..< m]
        \<and> (\<forall>vs. snd (embed_loop post latency svc texts i ps) = Inr vs \<longrightarrow> m = length texts)"
proof (induction post latency svc texts i ps rule: embed_loop.induct)
  case (1 post latency svc texts i ps)
  let ?B = "batch_events latency texts i"
  let ?bps = "map (embed_text post svc) (slice texts i (i + concurrencyLimit))"
  let ?ord = "map (\<lambda>k. k - i) (sort_key latency (batch_ids texts i))"
  let ?n = "length texts"
  show ?case
  proof (cases "i < ?n")
    case False
    then have "i = ?n" using "1.prems" by simp
    then show ?thesis
      unfolding embed_loop_done [OF False] by (intro exI [of _ i]) simp
  next
    case True
    have ids: "issued ?B = [i ..< i + min concurrencyLimit (?n - i)]"
      by (simp add: issued_batch batch_ids_eq)
    show ?thesis
    proof (cases "Promise_all ?ord ?bps")
      case (Inl e)
      show ?thesis
        unfolding embed_loop_abort [OF True Inl]
        using True by (intro exI [of _ "i + min concurrencyLimit (?n - i)"]) (simp add: ids)
    next
      case (Inr bvs)
      let ?next = "embed_loop post latency svc texts (i + concurrencyLimit) (ps @ ?bps)"
      have T: "embed_loop post latency svc texts i ps = (?B @ fst ?next, snd ?next)"
        by (rule embed_loop_next [OF True Inr])
      show ?thesis
      proof (cases "i + concurrencyLimit \<le> ?n")
        case True
        from "1.IH" [OF \<open>i < ?n\<close> refl refl Inr True]
        obtain m where m: "i + concurrencyLimit \<le> m" "m \<le> ?n"
          "issued (fst ?next) = [i + concurrencyLimit ..< m]"
          "\<forall>vs. snd ?next = Inr vs \<longrightarrow> m = ?n"
          by blast
        have "issued ?B = [i ..< i + concurrencyLimit]"
          using True by (simp add: ids)
        then have "issued (?B @ fst ?next) = [i ..< m]"
          using m(1,3) by (simp add: issued_append upt_join)
        then show ?thesis
          unfolding T using m by (intro exI [of _ m]) simp
      next
        case False
        then have fin: "\<not> i + concurrencyLimit < ?n" by simp
        have "issued ?B = [i ..< ?n]"
          using False \<open>i < ?n\<close> by (simp add: ids min_def)
        then show ?thesis
          unfolding T embed_loop_done [OF fin] using \<open>i < ?n\<close> by (intro exI [of _ ?n]) simp
      qed
    qed
  qed
qed

lemma example_events:
  "generateEmbeddings_events example_post (\<lambda>k. 6 - k) example_ollama example_texts
     = [Issue 0, Issue 1, Issue 2, Issue 3, Issue 4, Settle 4, Settle 3, Settle 2, Settle 1, Settle 0,
        Issue 5, Settle 5]"
  apply (simp add: generateEmbeddings_events_def generateEmbeddings_trace_def)
  apply (subst embed_loop.simps)
  apply (simp add: example_texts_def slice_def concurrencyLimit_def batch_ids_def batch_events_def
      Promise_all_def example_embed_text Let_def upt_rec [of 0] upt_rec [of 1] upt_rec [of 2]
      upt_rec [of 3] upt_rec [of 4] upt_rec [of 5])
  apply (subst embed_loop.simps)
  apply (simp add: example_texts_def slice_def concurrencyLimit_def batch_ids_def batch_events_def
      Promise_all_def example_embed_text Let_def upt_rec [of 5] upt_rec [of 6])
  apply (subst embed_loop.simps)
  apply (simp add: concurrencyLimit_def)
  done


lemma failing_events:
  "generateEmbeddings_events example_post (\<lambda>k. 6 - k) example_ollama failing_texts
     = [Issue 0, Issue 1, Issue 2, Issue 3, Issue 4, Settle 4, Settle 3, Settle 2, Settle 1, Settle 0]"
  apply (simp add: generateEmbeddings_events_def generateEmbeddings_trace_def)
  apply (subst embed_loop.simps)
  apply (simp add: failing_texts_def slice_def concurrencyLimit_def batch_ids_def batch_events_def
      Promise_all_def example_embed_text Let_def upt_rec [of 0] upt_rec [of 1] upt_rec [of 2]
      upt_rec [of 3] upt_rec [of 4] upt_rec [of 5])
  done

lemma batch_ids_div:
  "k \<in> set (batch_ids texts (concurrencyLimit * b)) \<longleftrightarrow> k < length texts \<and> k div concurrencyLimit = b"
  unfolding set_batch_ids concurrencyLimit_def by auto

lemma batch_ids_texts:
  "map (\<lambda>k. texts ! k) (batch_ids texts i) = slice texts i (i + concurrencyLimit)"
proof (rule nth_equalityI)
  show "length (map (\<lambda>k. texts ! k) (batch_ids texts i)) = length (slice texts i (i + concurrencyLimit))"
    by (simp add: batch_ids_def)
next
  fix n assume "n < length (map (\<lambda>k. texts ! k) (batch_ids texts i))"
  then have n: "n < min concurrencyLimit (length texts - i)"
    by (simp add: batch_ids_eq)
  then have "n < length texts - i" by simp
  then have "i \<le> length texts" by arith
  then have d: "drop i texts ! n = texts ! (i + n)" by (rule nth_drop)
  have l: "map (\<lambda>k. texts ! k) (batch_ids texts i) ! n = texts ! (i + n)"
    using n by (simp add: batch_ids_eq)
  have r: "slice texts i (i + concurrencyLimit) ! n = drop i texts ! n"
    using n by (simp add: slice_def)
  show "map (\<lambda>k. texts ! k) (batch_ids texts i) ! n = slice texts i (i + concurrencyLimit) ! n"
    unfolding l r d by (rule refl)
qed

text \<open>
  C6. The loop takes the texts in slices of at most five, the batches: the \<open>b\<close>-th batch
  holds the positions \<open>k\<close> with \<open>k div 5 = b\<close>. The requests are issued in the
  order of the texts, for an initial part of them, and for all of them when the call
  returns. At no point of the call are more than five requests in flight. When a request
  is issued, every request of an earlier batch has settled, and none of its own batch
  has: the requests of a batch are issued together. When the request of a text fails, no
  request of a later batch is issued.
\<close>

theorem generateEmbeddings_batches:
  "concurrencyLimit = 5
   \<and> length (slice texts i (i + concurrencyLimit)) \<le> concurrencyLimit
   \<and> map (\<lambda>k. texts ! k) (batch_ids texts i) = slice texts i (i + concurrencyLimit)
   \<and> (k \<in> set (batch_ids texts (concurrencyLimit * b)) \<longleftrightarrow> k < length texts \<and> k div concurrencyLimit = b)
   \<and> (\<exists>m\<le>length texts. issued (generateEmbeddings_events post latency svc texts) = [0 ..< m])
   \<and> (generateEmbeddings post latency svc texts = Inr vs \<longrightarrow>
        issued (generateEmbeddings_events post latency svc texts) = [0 ..< length texts])
   \<and> length (in_flight (take p (generateEmbeddings_events post latency svc texts))) \<le> concurrencyLimit
   \<and> (p < length (generateEmbeddings_events post latency svc texts)
        \<and> generateEmbeddings_events post latency svc texts ! p = Issue j
        \<and> k < length texts \<and> k div concurrencyLimit < j div concurrencyLimit \<longrightarrow>
        Settle k \<in> set (take p (generateEmbeddings_events post latency svc texts)))
   \<and> (p < length (generateEmbeddings_events post latency svc texts)
        \<and> generateEmbeddings_events post latency svc texts ! p = Issue j
        \<and> k div concurrencyLimit = j div concurrencyLimit \<longrightarrow>
        Settle k \<notin> set (take p (generateEmbeddings_events post latency svc texts)))
   \<and> (k < length texts \<and> embed_text post svc (texts ! k) = Inl e
        \<and> k div concurrencyLimit < j div concurrencyLimit \<longrightarrow>
        Issue j \<notin> set (generateEmbeddings_events post latency svc texts))"
proof -
  let ?tr = "generateEmbeddings_events post latency svc texts"
  have tr: "?tr = fst (embed_loop post latency svc texts 0 [])"
    by (simp add: generateEmbeddings_events_def generateEmbeddings_trace_def)
  have dvd: "concurrencyLimit dvd 0" by simp
  obtain m where m: "m \<le> length texts" "issued ?tr = [0 ..< m]"
    "\<forall>vs. snd (embed_loop post latency svc texts 0 []) = Inr vs \<longrightarrow> m = length texts"
    using issued_trace [of 0 texts post latency svc "[]"] unfolding tr by auto
  have a: "\<exists>m\<le>length texts. issued ?tr = [0 ..< m]"
    using m(1,2) by (intro exI [of _ m] conjI)
  have b: "generateEmbeddings post latency svc texts = Inr vs \<longrightarrow> issued ?tr = [0 ..< length texts]"
    using m(2,3) by (simp add: generateEmbeddings_def generateEmbeddings_trace_def)
  have c: "length (in_flight (take p ?tr)) \<le> concurrencyLimit"
    unfolding tr by (rule in_flight_bound)
  have d: "p < length ?tr \<and> ?tr ! p = Issue j \<and> k < length texts
             \<and> k div concurrencyLimit < j div concurrencyLimit \<longrightarrow> Settle k \<in> set (take p ?tr)"
    unfolding tr using issue_after_settles [OF dvd, of p post latency svc texts "[]" j k] by simp
  have e: "p < length ?tr \<and> ?tr ! p = Issue j \<and> k div concurrencyLimit = j div concurrencyLimit
             \<longrightarrow> Settle k \<notin> set (take p ?tr)"
    unfolding tr using no_settle_within_batch [OF dvd, of p post latency svc texts "[]" j k] by simp
  have f: "k < length texts \<and> embed_text post svc (texts ! k) = Inl e
             \<and> k div concurrencyLimit < j div concurrencyLimit \<longrightarrow> Issue j \<notin> set ?tr"
    unfolding tr using no_issue_after_failure [OF dvd, of k texts post svc j latency "[]"] by simp
  have s: "length (slice texts i (i + concurrencyLimit)) \<le> concurrencyLimit"
    by (simp add: length_slice)
  show ?thesis
    by (intro conjI concurrencyLimit_def s batch_ids_texts batch_ids_div a b c d e f)
qed

theorem generateEmbeddings_batches_witness:
  "generateEmbeddings_events example_post (\<lambda>k. 6 - k) example_ollama example_texts
     = [Issue 0, Issue 1, Issue 2, Issue 3, Issue 4, Settle 4, Settle 3, Settle 2, Settle 1, Settle 0,
        Issue 5, Settle 5]
   \<and> issued (generateEmbeddings_events example_post (\<lambda>k. 6 - k) example_ollama example_texts)
       = [0, 1, 2, 3, 4, 5]
   \<and> Settle 2 \<in> set (take 10 (generateEmbeddings_events example_post (\<lambda>k. 6 - k) example_ollama example_texts))
   \<and> Settle 1 \<notin> set (take 3 (generateEmbeddings_events example_post (\<lambda>k. 6 - k) example_ollama example_texts))
   \<and> in_flight (take 5 (generateEmbeddings_events example_post (\<lambda>k. 6 - k) example_ollama example_texts))
       = [0, 1, 2, 3, 4]
   \<and> length (in_flight (take 5 (generateEmbeddings_events example_post (\<lambda>k. 6 - k) example_ollama example_texts)))
       \<le> 5
   \<and> generateEmbeddings_events example_post (\<lambda>k. 6 - k) example_ollama failing_texts
     = [Issue 0, Issue 1, Issue 2, Issue 3, Issue 4, Settle 4, Settle 3, Settle 2, Settle 1, Settle 0]
   \<and> Issue 5 \<notin> set (generateEmbeddings_events example_post (\<lambda>k. 6 - k) example_ollama failing_texts)
   \<and> set (batch_ids example_texts 5) = {5}
   \<and> slice example_texts 5 10 = [''text6'']"
proof -
  let ?tr = "generateEmbeddings_events example_post (\<lambda>k. 6 - k) example_ollama example_texts"
  let ?fr = "generateEmbeddings_events example_post (\<lambda>k. 6 - k) example_ollama failing_texts"
  let ?vs = "[JArr [JNum 1], JArr [JNum 2], JArr [JNum 3], JArr [JNum 4], JArr [JNum 5], JArr [JNum 6]]"
  have ok: "generateEmbeddings example_post (\<lambda>k. 6 - k) example_ollama example_texts = Inr ?vs"
    by (simp add: generateEmbeddings_eq_Inr example_texts_def example_embed_text)
  have len: "length example_texts = 6" "length failing_texts = 6"
    by (simp_all add: example_texts_def failing_texts_def)
  have upt: "[0 ..< 6] = [0, 1, 2, 3, 4, 5::nat]"
    by (simp add: upt_conv_Cons)
  have bad: "embed_text example_post example_ollama (failing_texts ! 1) = Inl invalid_response"
    by (simp add: failing_texts_def example_embed_text)
  note T = generateEmbeddings_batches [where post = example_post and latency = "\<lambda>k. 6 - k"
      and svc = example_ollama and texts = example_texts and vs = ?vs]
  have A: "issued ?tr = [0, 1, 2, 3, 4, 5]"
    using T [where p = 0 and j = 0 and k = 0 and e = invalid_response and i = 0 and b = 0] ok len upt by simp
  have B: "Settle 2 \<in> set (take 10 ?tr)"
    using T [where p = 10 and j = 5 and k = 2 and e = invalid_response and i = 0 and b = 0] len by (simp add: example_events concurrencyLimit_def)
  have C: "Settle 1 \<notin> set (take 3 ?tr)"
    using T [where p = 3 and j = 3 and k = 1 and e = invalid_response and i = 0 and b = 0] by (simp add: example_events concurrencyLimit_def)
  have D: "length (in_flight (take 5 ?tr)) \<le> 5"
    using T [where p = 5 and j = 0 and k = 0 and e = invalid_response and i = 0 and b = 0] by (simp add: concurrencyLimit_def)
  have E: "in_flight (take 5 ?tr) = [0, 1, 2, 3, 4]"
    by (simp add: example_events in_flight_def)
  have F: "Issue 5 \<notin> set ?fr"
    using generateEmbeddings_batches [where post = example_post and latency = "\<lambda>k. 6 - k"
      and svc = example_ollama and texts = failing_texts and k = 1 and j = 5 and e = invalid_response]
      bad len
    by (simp add: concurrencyLimit_def)
  have G: "k \<in> set (batch_ids example_texts 5) \<longleftrightarrow> k = 5" for k
    using T [where k = k and b = 1 and i = 5 and p = 0 and j = 0 and e = invalid_response] len
    by (auto simp: concurrencyLimit_def)
  have H: "set (batch_ids example_texts 5) = {5}"
    using G by (intro set_eqI) simp
  have "map (\<lambda>k. example_texts ! k) (batch_ids example_texts 5) = slice example_texts 5 10"
    using T [where k = 0 and b = 1 and i = 5 and p = 0 and j = 0 and e = invalid_response]
    by (simp add: concurrencyLimit_def)
  then have I: "slice example_texts 5 10 = [''text6'']"
    by (simp add: example_texts_def slice_def)
  show ?thesis
    by (intro conjI example_events failing_events A B C D E F H I)
qed

end
